(* ===== verification/HW_Prelude.thy ===== *)
theory HW_Prelude
  imports Main "HOL-Library.Word" "HOL-Library.Monad_Syntax"
begin

text \<open>
  Shared vocabulary of the development: the C integer types, buffers and the byte-wise
  accesses the C code makes to them, fixed-size arrays, C strings, byte checksums, bounded
  tables and the heap of \<open>malloc\<close>/\<open>free\<close>.

  Memory is modelled so that every access outside an object is visible. A buffer is a list of
  bytes, a pointer into it is an offset, and each read or write is a partial function: \<open>None\<close>
  is an access outside the object (undefined behaviour in C). A routine of the code becomes a
  computation in the option monad, and "the routine never leaves its buffers" is the theorem
  that its result is \<open>Some\<close>. A pointer that may be NULL is the datatype \<open>cptr\<close>.
\<close>

unbundle bit_operations_syntax

section \<open>Integers, buffers and pointers\<close>

type_synonym u8 = "8 word"
type_synonym u16 = "16 word"
type_synonym u32 = "32 word"
type_synonym u64 = "64 word"
type_synonym bytes = "u8 list"

datatype cptr = Null | At nat

named_theorems safe_access \<open>accesses that stay inside their object succeed\<close>

definition rd8 :: "bytes \<Rightarrow> nat \<Rightarrow> u8 option" where
  "rd8 buf i = (if i < length buf then Some (buf ! i) else None)"

text \<open>\<open>memcpy\<close> out of a buffer, and the little-endian loads the code writes with it.\<close>

definition rd_bytes :: "bytes \<Rightarrow> nat \<Rightarrow> nat \<Rightarrow> bytes option" where
  "rd_bytes buf off n = (if off + n \<le> length buf then Some (take n (drop off buf)) else None)"

fun le_word :: "bytes \<Rightarrow> 'a::len word" where
  "le_word [] = 0"
| "le_word (b # bs) = ucast b OR push_bit 8 (le_word bs)"

fun le_bytes :: "nat \<Rightarrow> 'a::len word \<Rightarrow> bytes" where
  "le_bytes 0 w = []"
| "le_bytes (Suc n) w = ucast w # le_bytes n (drop_bit 8 w)"

definition rd16 :: "bytes \<Rightarrow> nat \<Rightarrow> u16 option" where
  "rd16 buf off = map_option le_word (rd_bytes buf off 2)"

definition rd32 :: "bytes \<Rightarrow> nat \<Rightarrow> u32 option" where
  "rd32 buf off = map_option le_word (rd_bytes buf off 4)"

definition rd64 :: "bytes \<Rightarrow> nat \<Rightarrow> u64 option" where
  "rd64 buf off = map_option le_word (rd_bytes buf off 8)"

text \<open>Stores into a fixed-size array: \<open>memcpy\<close> into it and a single byte.\<close>

definition wr_bytes :: "bytes \<Rightarrow> nat \<Rightarrow> bytes \<Rightarrow> bytes option" where
  "wr_bytes arr off bs =
     (if off + length bs \<le> length arr
      then Some (take off arr @ bs @ drop (off + length bs) arr) else None)"

definition wr8 :: "bytes \<Rightarrow> nat \<Rightarrow> u8 \<Rightarrow> bytes option" where
  "wr8 arr i b = (if i < length arr then Some (arr[i := b]) else None)"

definition zeros :: "nat \<Rightarrow> bytes" where
  "zeros n = replicate n 0"

subsection \<open>Facts about accesses\<close>

lemma bind_map_then: "Option.bind (map_option f x) g = Option.bind x (\<lambda>y. g (f y))"
  by (cases x) simp_all

lemma rd8_in [simp, safe_access]: "i < length buf \<Longrightarrow> rd8 buf i = Some (buf ! i)"
  by (simp add: rd8_def)

lemma rd8_out: "length buf \<le> i \<Longrightarrow> rd8 buf i = None"
  by (simp add: rd8_def)

lemma rd_bytes_in [simp, safe_access]:
  "off + n \<le> length buf \<Longrightarrow> rd_bytes buf off n = Some (take n (drop off buf))"
  by (simp add: rd_bytes_def)

lemma rd16_in [simp, safe_access]:
  "off + 2 \<le> length buf \<Longrightarrow> rd16 buf off = Some (le_word (take 2 (drop off buf)))"
  by (simp add: rd16_def)

lemma rd32_in [simp, safe_access]:
  "off + 4 \<le> length buf \<Longrightarrow> rd32 buf off = Some (le_word (take 4 (drop off buf)))"
  by (simp add: rd32_def)

lemma rd64_in [simp, safe_access]:
  "off + 8 \<le> length buf \<Longrightarrow> rd64 buf off = Some (le_word (take 8 (drop off buf)))"
  by (simp add: rd64_def)

lemma wr_bytes_in [simp, safe_access]:
  "off + length bs \<le> length arr \<Longrightarrow>
     wr_bytes arr off bs = Some (take off arr @ bs @ drop (off + length bs) arr)"
  by (simp add: wr_bytes_def)

lemma wr8_in [simp, safe_access]: "i < length arr \<Longrightarrow> wr8 arr i b = Some (arr[i := b])"
  by (simp add: wr8_def)

lemma length_zeros [simp]: "length (zeros n) = n"
  by (simp add: zeros_def)

lemma length_le_bytes [simp]: "length (le_bytes n w) = n"
  by (induction n arbitrary: w) auto

text \<open>A store followed by the load of the same width gives the value back.\<close>

lemma le_word_le_bytes: "le_word (le_bytes n (w :: 'a::len word)) = take_bit (8 * n) w"
proof (induction n arbitrary: w)
  case 0
  show ?case by simp
next
  case (Suc n)
  have "(ucast (ucast w :: u8) :: 'a word) OR push_bit 8 (take_bit (8 * n) (drop_bit 8 w))
      = take_bit (8 * Suc n) w"
    by (rule bit_word_eqI)
      (auto simp: bit_or_iff bit_ucast_iff bit_push_bit_iff bit_take_bit_iff bit_drop_bit_eq)
  with Suc show ?case by simp
qed

lemma le_bytes_numeral:
  "le_bytes (numeral k) w = ucast w # le_bytes (pred_numeral k) (drop_bit 8 w)"
  by (simp add: numeral_eq_Suc)

lemma le_word_le_bytes_full:
  "LENGTH('a) \<le> 8 * n \<Longrightarrow> le_word (le_bytes n (w :: 'a::len word)) = w"
  by (simp add: le_word_le_bytes take_bit_word_eq_self)

lemma unat_inc: "c < i \<Longrightarrow> unat (c + 1) = Suc (unat c)"
  by unat_arith

text \<open>Masks and widenings the code uses, on numbers.\<close>

lemma unat_ucast_upcast:
  assumes "LENGTH('a) \<le> LENGTH('b)"
  shows "unat (ucast (w :: 'a::len word) :: 'b::len word) = unat w"
proof -
  have "unat w < 2 ^ LENGTH('a)" by (rule unsigned_less)
  also have "\<dots> \<le> (2 :: nat) ^ LENGTH('b)" using assms by (rule power_increasing) simp
  finally show ?thesis by (simp add: unsigned_ucast_eq take_bit_nat_eq_self)
qed

lemma unat_ucast_16_32: "unat (ucast (w :: u16) :: u32) = unat w"
  by (rule unat_ucast_upcast) simp

lemma unat_and_mask: "unat (w AND mask n :: 'a::len word) = unat w mod 2 ^ n"
  by (simp only: take_bit_eq_mask [symmetric] unsigned_take_bit_eq) (simp only: take_bit_eq_mod)

lemma take_bit_self_iff: "take_bit k (x :: 'a::len word) = x \<longleftrightarrow> unat x < 2 ^ k"
proof -
  have "take_bit k x = x \<longleftrightarrow> unat x mod 2 ^ k = unat x"
    using unat_and_mask [of x k] by (auto simp: take_bit_eq_mask word_unat_eq_iff)
  then show ?thesis by (metis mod_less mod_less_divisor zero_less_numeral zero_less_power)
qed

lemma and_not_mask_0: "(x AND NOT (mask k) = 0) \<longleftrightarrow> unat (x :: 'a::len word) < 2 ^ k"
proof -
  have "(x AND NOT (mask k) = 0) \<longleftrightarrow> take_bit k x = x"
    by (auto simp: bit_eq_iff bit_simps)
  then show ?thesis by (simp add: take_bit_self_iff)
qed

lemma small_bit: "unat (w :: 'a::len word) < 2 ^ k \<Longrightarrow> bit w n \<Longrightarrow> n < k"
  using take_bit_self_iff [of k w] by (metis bit_take_bit_iff)

lemma word_and_le: "x AND y \<le> (y :: 'a::len word)" "x AND y \<le> (x :: 'a::len word)"
  by (simp_all add: word_le_def unsigned_and_eq)

lemma mask15: "unat (w AND 0x7FFF :: u16) = unat w mod 2 ^ 15"
  using unat_and_mask [of w 15] by (simp add: mask_eq_exp_minus_1)

lemma mask31: "unat (x AND 0x7FFFFFFF :: u32) = unat x mod 2 ^ 31"
  using unat_and_mask [of x 31] by (simp add: mask_eq_exp_minus_1)

lemma bit15: "(w AND 0x8000 :: u16) = 0 \<longleftrightarrow> unat w < 2 ^ 15"
proof -
  have lt: "unat w div 2 ^ 15 < 2"
    using unsigned_less [where 'a = nat, of w] by (simp add: less_mult_imp_div_less)
  have "(w AND 0x8000) = 0 \<longleftrightarrow> \<not> bit w 15"
    by (simp add: and_exp_eq_0_iff_not_bit [of w 15, simplified])
  also have "bit w 15 \<longleftrightarrow> odd (unat w div 2 ^ 15)"
    using bit_unsigned_iff [where 'a = nat, of w 15] by (simp add: bit_iff_odd)
  also have "odd (unat w div 2 ^ 15) \<longleftrightarrow> unat w div 2 ^ 15 \<noteq> 0"
    using lt by (auto simp: less_2_cases_iff)
  finally show ?thesis by (simp add: div_eq_0_iff)
qed

subsection \<open>Reads of a prefix\<close>

text \<open>
  \<open>agrees x y\<close>: where the computation \<open>x\<close> succeeds, \<open>y\<close> succeeds with the same value. A
  routine that succeeds on the prefix of a buffer agrees with its run on the whole buffer: it
  has seen nothing of the rest. The rules follow the structure of a routine.
\<close>

definition agrees :: "'a option \<Rightarrow> 'a option \<Rightarrow> bool" where
  "agrees x y \<longleftrightarrow> (\<forall>a. x = Some a \<longrightarrow> y = Some a)"

named_theorems prefix_agree \<open>routines agree with their run on a prefix of the buffer\<close>

lemma agrees_refl [prefix_agree]: "agrees x x"
  by (simp add: agrees_def)

lemma agrees_bind [prefix_agree]:
  "agrees x y \<Longrightarrow> (\<And>a. x = Some a \<Longrightarrow> agrees (f a) (g a)) \<Longrightarrow> agrees (Option.bind x f) (Option.bind y g)"
  by (auto simp: agrees_def bind_eq_Some_conv)

lemma agrees_map_option [prefix_agree]: "agrees x y \<Longrightarrow> agrees (map_option f x) (map_option f y)"
  by (auto simp: agrees_def)

lemma agrees_if [prefix_agree]:
  "(c \<Longrightarrow> agrees x x') \<Longrightarrow> (\<not> c \<Longrightarrow> agrees y y') \<Longrightarrow>
     agrees (if c then x else y) (if c then x' else y')"
  by simp

lemma agrees_rd_bytes [prefix_agree]: "agrees (rd_bytes buf off n) (rd_bytes (buf @ rest) off n)"
  by (simp add: agrees_def rd_bytes_def)

lemma agrees_rd8 [prefix_agree]: "agrees (rd8 buf i) (rd8 (buf @ rest) i)"
  by (simp add: agrees_def rd8_def nth_append)

lemma agrees_rd [prefix_agree]:
  "agrees (rd16 buf off) (rd16 (buf @ rest) off)" "agrees (rd32 buf off) (rd32 (buf @ rest) off)"
  "agrees (rd64 buf off) (rd64 (buf @ rest) off)"
  by (simp_all only: rd16_def rd32_def rd64_def agrees_map_option agrees_rd_bytes)

lemma agrees_Some: "agrees x y \<Longrightarrow> x = Some a \<Longrightarrow> y = Some a"
  by (simp add: agrees_def)

section \<open>C strings\<close>

text \<open>\<open>strnlen\<close>: the bytes are read one by one, so the read stays below \<open>off + m\<close>.\<close>

fun strnlen :: "bytes \<Rightarrow> nat \<Rightarrow> nat \<Rightarrow> nat option" where
  "strnlen buf off 0 = Some 0"
| "strnlen buf off (Suc m) =
     do { c \<leftarrow> rd8 buf off;
          if c = 0 then Some 0 else map_option Suc (strnlen buf (Suc off) m) }"

text \<open>The contents of a \<open>char\<close> array read as a C string, and string literals as bytes.\<close>

definition cstr :: "bytes \<Rightarrow> bytes" where
  "cstr arr = takeWhile (\<lambda>b. b \<noteq> 0) arr"

definition ascii :: "string \<Rightarrow> bytes" where
  "ascii s = map of_char s"

definition nul_terminated :: "bytes \<Rightarrow> bool" where
  "nul_terminated arr \<longleftrightarrow> 0 \<in> set arr"

lemma strnlen_in [safe_access]:
  "off + m \<le> length buf \<Longrightarrow>
     strnlen buf off m = Some (length (takeWhile (\<lambda>b. b \<noteq> 0) (take m (drop off buf))))"
proof (induction m arbitrary: off)
  case 0
  show ?case by simp
next
  case (Suc m)
  then have "drop off buf = buf ! off # drop (Suc off) buf"
    by (simp add: Cons_nth_drop_Suc)
  with Suc show ?case by simp
qed

lemma cstr_append: "0 \<notin> set s \<Longrightarrow> cstr (s @ 0 # rest) = s"
proof -
  assume "0 \<notin> set s"
  then have "\<And>x. x \<in> set s \<Longrightarrow> x \<noteq> 0" by auto
  then show ?thesis by (simp add: cstr_def takeWhile_append2)
qed

section \<open>Byte checksums\<close>

text \<open>The 8-bit sum both ACPI consumers compute byte by byte, and its closed form.\<close>

fun sum8_loop :: "bytes \<Rightarrow> nat \<Rightarrow> nat \<Rightarrow> u8 \<Rightarrow> u8 option" where
  "sum8_loop buf i 0 acc = Some acc"
| "sum8_loop buf i (Suc n) acc =
     do { b \<leftarrow> rd8 buf i; sum8_loop buf (Suc i) n (acc + b) }"

lemma sum8_loop_in [safe_access]:
  "i + n \<le> length buf \<Longrightarrow>
     sum8_loop buf i n acc = Some (acc + sum_list (take n (drop i buf)))"
proof (induction n arbitrary: i acc)
  case 0
  show ?case by simp
next
  case (Suc n)
  then have "drop i buf = buf ! i # drop (Suc i) buf"
    by (simp add: Cons_nth_drop_Suc)
  with Suc show ?case by (simp add: add.assoc)
qed

lemma agrees_sum8_loop [prefix_agree]:
  "agrees (sum8_loop buf i n acc) (sum8_loop (buf @ rest) i n acc)"
proof (induction n arbitrary: i acc)
  case 0
  show ?case by (simp add: agrees_refl)
next
  case (Suc n)
  show ?case unfolding sum8_loop.simps by (intro prefix_agree Suc.IH)
qed

section \<open>Bounded tables\<close>

text \<open>
  The code keeps its results in arrays of a fixed length with a counter beside them, and
  appends with \<open>if (count < MAX) array[count++] = x\<close>. The model keeps the used prefix of the
  array as a list, whose length is the counter; a store at an index past the array is \<open>None\<close>.
\<close>

definition tbl_store :: "nat \<Rightarrow> 'a list \<Rightarrow> 'a \<Rightarrow> 'a list option" where
  "tbl_store cap xs x = (if length xs < cap then Some (xs @ [x]) else None)"

lemma tbl_store_in [simp, safe_access]: "length xs < cap \<Longrightarrow> tbl_store cap xs x = Some (xs @ [x])"
  by (simp add: tbl_store_def)

lemma tbl_store_bound: "tbl_store cap xs x = Some ys \<Longrightarrow> length ys \<le> cap"
  by (auto simp: tbl_store_def split: if_splits)

lemma take_take_append: "take n (take n xs @ ys) = take n (xs @ ys)"
  by (cases "length xs \<le> n") simp_all

section \<open>The heap\<close>

text \<open>
  Blocks are numbered in the order they are allocated; the live ones are those not yet freed.
  Freeing a block that is not live (a double free) is \<open>None\<close>. Whether the n-th allocation
  succeeds is the environment's choice.
\<close>

record heap =
  hp_next :: nat
  hp_live :: "nat list"

definition h_malloc :: "(nat \<Rightarrow> bool) \<Rightarrow> heap \<Rightarrow> nat option \<times> heap" where
  "h_malloc ok h =
     (if ok (hp_next h)
      then (Some (hp_next h), h\<lparr>hp_next := Suc (hp_next h), hp_live := hp_next h # hp_live h\<rparr>)
      else (None, h\<lparr>hp_next := Suc (hp_next h)\<rparr>))"

definition h_free :: "nat \<Rightarrow> heap \<Rightarrow> heap option" where
  "h_free b h = (if b \<in> set (hp_live h) then Some (h\<lparr>hp_live := remove1 b (hp_live h)\<rparr>) else None)"

text \<open>Same live blocks, and no allocation number reused: what a routine that neither leaks nor
  frees too much leaves behind.\<close>

definition balanced :: "heap \<Rightarrow> heap \<Rightarrow> bool" where
  "balanced h h' \<longleftrightarrow> hp_live h' = hp_live h \<and> hp_next h \<le> hp_next h'"

lemma balanced_refl [simp, intro]: "balanced h h"
  by (simp add: balanced_def)

lemma balanced_trans: "balanced h1 h2 \<Longrightarrow> balanced h2 h3 \<Longrightarrow> balanced h1 h3"
  by (auto simp: balanced_def)

text \<open>A block on top of the live ones: freeing it restores what was live below.\<close>

definition owns :: "nat \<Rightarrow> heap \<Rightarrow> heap \<Rightarrow> bool" where
  "owns b h h' \<longleftrightarrow> hp_live h' = b # hp_live h \<and> hp_next h < hp_next h' \<and> b < hp_next h'"

lemma h_malloc_owns: "h_malloc ok h = (Some b, h') \<Longrightarrow> owns b h h'"
  by (auto simp: h_malloc_def owns_def split: if_splits)

lemma h_malloc_none: "h_malloc ok h = (None, h') \<Longrightarrow> balanced h h'"
  by (auto simp: h_malloc_def balanced_def split: if_splits)

lemma owns_free: "owns b h h' \<Longrightarrow> \<exists>h''. h_free b h' = Some h'' \<and> balanced h h''"
  by (auto simp: owns_def h_free_def balanced_def)

lemma owns_balanced: "owns b h h1 \<Longrightarrow> balanced h1 h2 \<Longrightarrow> owns b h h2"
  by (auto simp: owns_def balanced_def)

lemma balanced_owns: "balanced h h1 \<Longrightarrow> owns b h1 h2 \<Longrightarrow> owns b h h2"
  by (auto simp: owns_def balanced_def)

end
