(* ===== verification/Smbios_Walk.thy ===== *)
theory Smbios_Walk
  imports HW_Prelude
begin

text \<open>
  The structure walk shared by \<open>src/firmware/smbios.c\<close> and \<open>src/memory/memory_info.c\<close>:
  how the code finds the next SMBIOS structure (\<open>smbios_next_structure\<close>, and its copy
  \<open>next_structure\<close>), a fault-free description of the whole walk, the wire format of a table,
  and the interface a client of the walk fulfils.

  The buffer \<open>buf\<close> holds the raw table, \<open>cur\<close> and \<open>buf_end\<close> are offsets into it. A structure
  is its formatted area (type, length, handle, fields) followed by its string table.
\<close>

section \<open>Finding the next structure\<close>

text \<open>
  \<open>while (p + 1 < buf_end)\<close> with the two-byte test, then the special case after the loop,
  which reads \<open>p[0]\<close> and \<open>p[-1]\<close>.
\<close>

function next_loop :: "bytes \<Rightarrow> nat \<Rightarrow> nat \<Rightarrow> cptr option" where
  "next_loop buf buf_end p =
     (if p + 1 < buf_end then
        do { a \<leftarrow> rd8 buf p;
             if a = 0 then
               do { b \<leftarrow> rd8 buf (p + 1);
                    if b = 0 then Some (At (p + 2)) else next_loop buf buf_end (p + 1) }
             else next_loop buf buf_end (p + 1) }
      else if p + 1 = buf_end then
        do { a \<leftarrow> rd8 buf p;
             if a = 0 then
               do { z \<leftarrow> (if p = 0 then None else rd8 buf (p - 1));
                    Some (if z = 0 then At buf_end else Null) }
             else Some Null }
      else Some Null)"
  by pat_completeness auto
termination
  by (relation "measure (\<lambda>(buf, buf_end, p). buf_end - p)") auto

declare next_loop.simps [simp del]

definition smbios_next_structure :: "bytes \<Rightarrow> nat \<Rightarrow> nat \<Rightarrow> nat \<Rightarrow> cptr option" where
  "smbios_next_structure buf struct_ptr formatted_len buf_end =
     next_loop buf buf_end (struct_ptr + formatted_len)"

definition next_structure :: "bytes \<Rightarrow> nat \<Rightarrow> nat \<Rightarrow> nat \<Rightarrow> cptr option" where
  "next_structure buf struct_ptr formatted_len buf_end =
     next_loop buf buf_end (struct_ptr + formatted_len)"

text \<open>What the search computes, on the bytes of the table instead of on offsets.\<close>

fun skip_strings :: "bytes \<Rightarrow> nat option" where
  "skip_strings (a # b # bs) = (if a = 0 \<and> b = 0 then Some 2 else map_option Suc (skip_strings (b # bs)))"
| "skip_strings _ = None"

lemma skip_strings_bounds: "skip_strings bs = Some n \<Longrightarrow> 2 \<le> n \<and> n \<le> length bs"
  by (induction bs arbitrary: n rule: skip_strings.induct) (auto split: if_splits)

lemma skip_strings_sound:
  "skip_strings bs = Some n \<Longrightarrow> bs ! (n - 2) = 0 \<and> bs ! (n - 1) = 0 \<and>
     (\<forall>k. k + 2 < n \<longrightarrow> bs ! k \<noteq> 0 \<or> bs ! (k + 1) \<noteq> 0)"
proof (induction bs arbitrary: n rule: skip_strings.induct)
  case (1 a b bs)
  show ?case
  proof (cases "a = 0 \<and> b = 0")
    case True
    with "1.prems" show ?thesis by simp
  next
    case False
    with "1.prems" obtain m where m: "skip_strings (b # bs) = Some m" "n = Suc m"
      by (auto simp del: skip_strings.simps simp add: skip_strings.simps(1) split: if_splits)
    have "2 \<le> m" using skip_strings_bounds [OF m(1)] by simp
    then obtain j where j: "m = Suc (Suc j)" by (metis Suc_le_D numeral_2_eq_2 Suc_le_mono)
    show ?thesis
      using "1.IH" [OF False m(1)] False
      by (auto simp: m(2) j nth_Cons split: nat.splits)
  qed
qed simp_all

text \<open>
  The special case can be reached with a first byte that is zero only when the loop body never
  ran: one byte is left after the formatted area, and the byte before it belongs to that area.
\<close>

lemma next_loop_Some:
  "0 < p \<Longrightarrow> buf_end \<le> length buf \<Longrightarrow> next_loop buf buf_end p \<noteq> None"
proof (induction buf buf_end p rule: next_loop.induct)
  case (1 buf buf_end p)
  then show ?case
    by (subst next_loop.simps) auto
qed

lemma drop_take_Cons2:
  "p + 1 < e \<Longrightarrow> e \<le> length buf \<Longrightarrow>
     drop p (take e buf) = buf ! p # buf ! Suc p # drop (Suc (Suc p)) (take e buf)"
  by (simp add: Cons_nth_drop_Suc [symmetric, of p] Cons_nth_drop_Suc [symmetric, of "Suc p"])

lemma next_loop_skip:
  assumes "p + 1 < buf_end" and "buf_end \<le> length buf"
  shows "next_loop buf buf_end p =
    Some (case skip_strings (drop p (take buf_end buf)) of None \<Rightarrow> Null | Some n \<Rightarrow> At (p + n))"
  using assms
proof (induction buf buf_end p rule: next_loop.induct)
  case (1 buf buf_end p)
  note dr = drop_take_Cons2 [OF "1.prems"]
  have dr': "drop (Suc p) (take buf_end buf) = buf ! Suc p # drop (Suc (Suc p)) (take buf_end buf)"
    using "1.prems" by (simp add: Cons_nth_drop_Suc [symmetric])
  show ?case
  proof (cases "buf ! p = 0 \<and> buf ! Suc p = 0")
    case True
    with "1.prems" show ?thesis by (subst next_loop.simps) (simp add: dr)
  next
    case False
    have step: "next_loop buf buf_end p = next_loop buf buf_end (Suc p)"
      using False "1.prems" by (subst next_loop.simps) auto
    have sk: "skip_strings (drop p (take buf_end buf)) =
        map_option Suc (skip_strings (drop (Suc p) (take buf_end buf)))"
      unfolding dr dr' by (simp only: skip_strings.simps False if_False)
    show ?thesis
    proof (cases "Suc p + 1 < buf_end")
      case True
      have "next_loop buf buf_end (Suc p) = Some (case skip_strings (drop (Suc p) (take buf_end buf))
          of None \<Rightarrow> Null | Some n \<Rightarrow> At (Suc p + n))"
        using "1.IH"(2) "1.IH"(1) False True "1.prems" by (cases "buf ! p = 0") (auto split: option.splits)
      then show ?thesis by (simp add: step sk split: option.splits)
    next
      case last: False
      with "1.prems" have e: "buf_end = Suc (Suc p)" by simp
      have "drop (Suc (Suc p)) (take buf_end buf) = []"
        using e by simp
      then have "skip_strings (drop p (take buf_end buf)) = None"
        by (simp add: sk dr')
      with "1.prems" False e show ?thesis
        by (subst step, subst next_loop.simps) auto
    qed
  qed
qed

text \<open>The search as one total function of the offset.\<close>

definition next_pos :: "bytes \<Rightarrow> nat \<Rightarrow> nat \<Rightarrow> nat option" where
  "next_pos buf e p =
     (if p + 1 < e then map_option (\<lambda>n. p + n) (skip_strings (drop p (take e buf)))
      else if p + 1 = e \<and> buf ! p = 0 \<and> buf ! (p - 1) = 0 then Some e else None)"

definition cptr_of :: "nat option \<Rightarrow> cptr" where
  "cptr_of x = (case x of None \<Rightarrow> Null | Some n \<Rightarrow> At n)"

lemma next_pos_bounds: "next_pos buf e p = Some n \<Longrightarrow> e \<le> length buf \<Longrightarrow> p < n \<and> n \<le> e"
  by (auto simp: next_pos_def split: if_splits dest!: skip_strings_bounds)

lemma next_pos_gt: "next_pos buf e p = Some n \<Longrightarrow> p < n"
  by (auto simp: next_pos_def split: if_splits dest!: skip_strings_bounds)

lemma next_loop_eq:
  assumes "0 < p" and "e \<le> length buf"
  shows "next_loop buf e p = Some (cptr_of (next_pos buf e p))"
proof (cases "p + 1 < e")
  case True
  with assms show ?thesis
    by (simp add: next_loop_skip next_pos_def cptr_of_def split: option.splits)
next
  case False
  with assms show ?thesis
    by (subst next_loop.simps) (auto simp: next_pos_def cptr_of_def)
qed

lemma smbios_next_structure_eq [safe_access]:
  "0 < hlen \<Longrightarrow> e \<le> length buf \<Longrightarrow>
     smbios_next_structure buf cur hlen e = Some (cptr_of (next_pos buf e (cur + hlen)))"
  by (simp add: smbios_next_structure_def next_loop_eq)

lemma next_structure_eq [safe_access]:
  "0 < hlen \<Longrightarrow> e \<le> length buf \<Longrightarrow>
     next_structure buf cur hlen e = Some (cptr_of (next_pos buf e (cur + hlen)))"
  by (simp add: next_structure_def next_loop_eq)

section \<open>The walk over the table\<close>

text \<open>
  The offsets of the structures a walk visits, and why it stops: the loop guard fails
  (\<open>TableEnd\<close>), the end-of-table structure (\<open>EndMarker\<close>), a header that cannot be right
  (\<open>BadHeader\<close>), a string table that does not end (\<open>BadStrings\<close>).
\<close>

datatype walk_end = TableEnd | EndMarker | BadHeader | BadStrings

function walk :: "bytes \<Rightarrow> nat \<Rightarrow> nat \<Rightarrow> nat list \<times> walk_end" where
  "walk buf e cur =
     (if cur + 4 \<le> e then
        (let hlen = unat (buf ! (cur + 1)) in
         if hlen < 4 \<or> e < cur + hlen then ([], BadHeader)
         else if buf ! cur = 127 then ([], EndMarker)
         else (case next_pos buf e (cur + hlen) of
                 None \<Rightarrow> ([cur], BadStrings)
               | Some n \<Rightarrow> (case walk buf e n of (ps, w) \<Rightarrow> (cur # ps, w))))
      else ([], TableEnd))"
  by pat_completeness auto
termination
  by (relation "measure (\<lambda>(buf, e, cur). e - cur)") (auto dest!: next_pos_gt)

declare walk.simps [simp del]

lemma walk_marker:
  "cur + 4 \<le> e \<Longrightarrow> 4 \<le> unat (buf ! Suc cur) \<Longrightarrow> cur + unat (buf ! Suc cur) \<le> e \<Longrightarrow> buf ! cur = 127 \<Longrightarrow>
     walk buf e cur = ([], EndMarker)"
  by (subst walk.simps) simp

lemma walk_step:
  "cur + 4 \<le> e \<Longrightarrow> 4 \<le> unat (buf ! Suc cur) \<Longrightarrow> cur + unat (buf ! Suc cur) \<le> e \<Longrightarrow> buf ! cur \<noteq> 127 \<Longrightarrow>
     next_pos buf e (cur + unat (buf ! Suc cur)) = Some n \<Longrightarrow>
     walk buf e cur = (cur # fst (walk buf e n), snd (walk buf e n))"
  by (subst walk.simps) (simp add: Let_def split: prod.splits)

lemma walk_positions:
  "p \<in> set (fst (walk buf e cur)) \<Longrightarrow>
     cur \<le> p \<and> 4 \<le> unat (buf ! (p + 1)) \<and> p + unat (buf ! (p + 1)) \<le> e \<and> buf ! p \<noteq> 127"
proof (induction buf e cur rule: walk.induct)
  case (1 buf e cur)
  then show ?case
    by (subst (asm) (2) walk.simps)
      (auto simp: Let_def split: if_splits option.splits prod.splits dest!: next_pos_gt, fastforce+)
qed

text \<open>Running a client over a list of structures, as long as it wants more.\<close>

fun visit_all :: "(nat \<Rightarrow> 's \<Rightarrow> 's option) \<Rightarrow> ('s \<Rightarrow> bool) \<Rightarrow> (walk_end \<Rightarrow> 's \<Rightarrow> 's) \<Rightarrow>
    nat list \<Rightarrow> walk_end \<Rightarrow> 's \<Rightarrow> 's option" where
  "visit_all v wanted stop [] w s = Some (if wanted s then stop w s else s)"
| "visit_all v wanted stop (p # ps) w s =
     (if wanted s then do { s' \<leftarrow> v p s;
                            if w = BadStrings \<and> ps = [] then Some (stop w s')
                            else visit_all v wanted stop ps w s' }
      else Some s)"

lemma walk_BadStrings: "snd (walk buf e cur) = BadStrings \<Longrightarrow> fst (walk buf e cur) \<noteq> []"
  by (subst walk.simps, subst (asm) walk.simps)
    (auto simp: Let_def split: if_splits option.splits prod.splits)

text \<open>
  The interface between the walk and its clients. A client provides the loop of the code, what
  that loop does with one structure (\<open>visit\<close>), the state part of its guard (\<open>wanted\<close>) and
  what it records when it stops (\<open>stop\<close>); it promises that the loop is the walk's loop around
  \<open>visit\<close>, and that visiting a structure whose formatted area lies inside the table stays
  inside the buffer and keeps the client's invariant.
\<close>

locale structure_client =
  fixes loop :: "bytes \<Rightarrow> nat \<Rightarrow> nat \<Rightarrow> 's \<Rightarrow> 's option"
    and visit :: "bytes \<Rightarrow> nat \<Rightarrow> nat \<Rightarrow> 's \<Rightarrow> 's option"
    and wanted :: "'s \<Rightarrow> bool"
    and stop :: "walk_end \<Rightarrow> 's \<Rightarrow> 's"
    and inv :: "'s \<Rightarrow> bool"
  assumes loop_unfold: "e \<le> length buf \<Longrightarrow> loop buf e cur s =
      (if cur + 4 \<le> e \<and> wanted s then
         (let hlen = unat (buf ! (cur + 1)) in
          if hlen < 4 \<or> e < cur + hlen then Some (stop BadHeader s)
          else if buf ! cur = 127 then Some (stop EndMarker s)
          else do { s' \<leftarrow> visit buf e cur s;
                    case next_pos buf e (cur + hlen) of
                      None \<Rightarrow> Some (stop BadStrings s')
                    | Some n \<Rightarrow> loop buf e n s' })
       else Some s)"
    and visit_in: "e \<le> length buf \<Longrightarrow> 4 \<le> unat (buf ! (cur + 1)) \<Longrightarrow>
      cur + unat (buf ! (cur + 1)) \<le> e \<Longrightarrow> wanted s \<Longrightarrow> inv s \<Longrightarrow>
      \<exists>s'. visit buf e cur s = Some s' \<and> inv s'"
    and stop_inv: "inv s \<Longrightarrow> inv (stop w s)"
    and stop_TableEnd: "stop TableEnd s = s"
begin

lemma loop_visit_all:
  "e \<le> length buf \<Longrightarrow> loop buf e cur s =
    visit_all (visit buf e) wanted stop (fst (walk buf e cur)) (snd (walk buf e cur)) s"
proof (induction buf e cur arbitrary: s rule: walk.induct)
  case (1 buf e cur)
  note unf = loop_unfold [OF "1.prems"]
  show ?case
  proof (cases "next_pos buf e (cur + unat (buf ! (cur + 1)))")
    case None
    then show ?thesis
      by (subst walk.simps, subst (2) walk.simps, subst unf)
        (auto simp: Let_def stop_TableEnd)
  next
    case (Some n)
    then have IH: "\<And>s. \<not> unat (buf ! (cur + 1)) < 4 \<Longrightarrow> \<not> e < cur + unat (buf ! (cur + 1)) \<Longrightarrow>
        buf ! cur \<noteq> 127 \<Longrightarrow> cur + 4 \<le> e \<Longrightarrow> loop buf e n s =
        visit_all (visit buf e) wanted stop (fst (walk buf e n)) (snd (walk buf e n)) s"
      using "1.IH" "1.prems" by simp
    show ?thesis
      using Some walk_BadStrings [of buf e n]
      by (subst walk.simps, subst (2) walk.simps, subst unf)
        (auto simp: Let_def stop_TableEnd IH split: prod.splits intro!: bind_option_cong)
  qed
qed

lemma visits_in:
  assumes "e \<le> length buf"
    and "\<forall>p \<in> set ps. 4 \<le> unat (buf ! (p + 1)) \<and> p + unat (buf ! (p + 1)) \<le> e"
    and "inv s"
  shows "\<exists>s'. visit_all (visit buf e) wanted stop ps w s = Some s' \<and> inv s'"
  using assms(2,3)
proof (induction ps arbitrary: s)
  case Nil
  then show ?case by (simp add: stop_inv)
next
  case (Cons p ps)
  show ?case
  proof (cases "wanted s")
    case True
    with Cons.prems obtain s' where "visit buf e p s = Some s'" and "inv s'"
      using visit_in [OF assms(1), of p s] by auto
    with Cons True show ?thesis by (auto simp: stop_inv)
  next
    case False
    with Cons.prems show ?thesis by simp
  qed
qed

theorem loop_safe:
  assumes "e \<le> length buf" and "inv s"
  shows "\<exists>s'. loop buf e cur s = Some s' \<and> inv s'"
  using visits_in [OF assms(1) _ assms(2), of "fst (walk buf e cur)" "snd (walk buf e cur)"]
    walk_positions loop_visit_all [OF assms(1)]
  by fastforce

end

section \<open>The wire format of a table\<close>

record smb_struct =
  st_formatted :: bytes
  st_strings :: "bytes list"

definition st_type :: "smb_struct \<Rightarrow> u8" where
  "st_type st = st_formatted st ! 0"

definition wf_struct :: "smb_struct \<Rightarrow> bool" where
  "wf_struct st \<longleftrightarrow> 4 \<le> length (st_formatted st) \<and> length (st_formatted st) < 256 \<and>
     st_formatted st ! 1 = of_nat (length (st_formatted st)) \<and>
     (\<forall>s \<in> set (st_strings st). s \<noteq> [] \<and> 0 \<notin> set s)"

definition encode_strings :: "bytes list \<Rightarrow> bytes" where
  "encode_strings ss = (if ss = [] then [0, 0] else concat (map (\<lambda>s. s @ [0]) ss) @ [0])"

definition encode_struct :: "smb_struct \<Rightarrow> bytes" where
  "encode_struct st = st_formatted st @ encode_strings (st_strings st)"

definition encode_table :: "smb_struct list \<Rightarrow> bytes" where
  "encode_table sts = concat (map encode_struct sts)"

fun positions :: "nat \<Rightarrow> smb_struct list \<Rightarrow> nat list" where
  "positions base [] = []"
| "positions base (st # sts) = base # positions (base + length (encode_struct st)) sts"

lemma skip_strings_nonzero:
  "0 \<notin> set s \<Longrightarrow> bs \<noteq> [] \<Longrightarrow> skip_strings (s @ bs) = map_option (\<lambda>n. length s + n) (skip_strings bs)"
proof (induction s)
  case Nil
  then show ?case by (simp add: option.map_id [unfolded id_def])
next
  case (Cons a s)
  then obtain b r where "s @ bs = b # r" by (cases "s @ bs") auto
  with Cons show ?case by (auto simp: option.map_comp comp_def)
qed

lemma skip_strings_zero: "a \<noteq> 0 \<Longrightarrow> skip_strings (0 # a # r) = map_option Suc (skip_strings (a # r))"
  by simp

lemma skip_strings_concat:
  "ss \<noteq> [] \<Longrightarrow> \<forall>s \<in> set ss. s \<noteq> [] \<and> 0 \<notin> set s \<Longrightarrow>
     skip_strings (concat (map (\<lambda>s. s @ [0]) ss) @ 0 # rest)
       = Some (length (concat (map (\<lambda>s. s @ [0]) ss)) + 1)"
proof (induction ss)
  case Nil
  then show ?case by simp
next
  case (Cons s ss)
  show ?case
  proof (cases ss)
    case Nil
    with Cons show ?thesis by (simp add: skip_strings_nonzero)
  next
    case (Cons t ts)
    with Cons.prems obtain a r where t: "t = a # r" and a: "a \<noteq> 0" by (cases t) auto
    have "skip_strings (concat (map (\<lambda>s. s @ [0]) ss) @ 0 # rest) =
        Some (length (concat (map (\<lambda>s. s @ [0]) ss)) + 1)"
      using Cons.IH Cons.prems Cons by simp
    then have "skip_strings (0 # concat (map (\<lambda>s. s @ [0]) ss) @ 0 # rest) =
        Some (length (concat (map (\<lambda>s. s @ [0]) ss)) + 2)"
      using Cons t a by (simp add: skip_strings_zero del: skip_strings.simps)
    with Cons.prems show ?thesis by (simp add: skip_strings_nonzero)
  qed
qed

lemma skip_encode_strings:
  "\<forall>s \<in> set ss. s \<noteq> [] \<and> 0 \<notin> set s \<Longrightarrow>
     skip_strings (encode_strings ss @ rest) = Some (length (encode_strings ss))"
  using skip_strings_concat [of ss rest] by (auto simp: encode_strings_def)

lemma length_encode_strings: "2 \<le> length (encode_strings ss) \<or> (\<exists>s \<in> set ss. s = [])"
  by (cases ss) (auto simp: encode_strings_def neq_Nil_conv Suc_le_eq)

lemma wf_struct_header:
  assumes "wf_struct st"
  shows "unat (st_formatted st ! 1) = length (st_formatted st)"
  using assms by (simp add: wf_struct_def unat_of_nat)

lemma struct_bytes:
  assumes "wf_struct st" and "buf = pre @ encode_struct st @ post"
  shows "buf ! length pre = st_type st" and "buf ! (length pre + 1) = st_formatted st ! 1"
    and "length pre + length (st_formatted st) \<le> length buf"
proof -
  have len: "4 \<le> length (st_formatted st)" using assms(1) by (simp add: wf_struct_def)
  have at: "buf ! (length pre + i) = st_formatted st ! i" if "i < length (st_formatted st)" for i
    using that by (simp add: assms(2) encode_struct_def nth_append)
  show "buf ! length pre = st_type st" using at [of 0] len by (cases "st_formatted st") (auto simp: st_type_def)
  show "buf ! (length pre + 1) = st_formatted st ! 1" using len by (intro at) simp
  show "length pre + length (st_formatted st) \<le> length buf"
    by (simp add: assms(2) encode_struct_def)
qed

lemma next_pos_struct:
  assumes "wf_struct st" and "buf = pre @ encode_struct st @ rest @ post"
    and "e = length pre + length (encode_struct st) + length rest"
  shows "next_pos buf e (length pre + length (st_formatted st)) =
    Some (length pre + length (encode_struct st))"
proof -
  have ss: "\<forall>s \<in> set (st_strings st). s \<noteq> [] \<and> 0 \<notin> set s"
    using assms(1) by (simp add: wf_struct_def)
  then have "2 \<le> length (encode_strings (st_strings st))"
    using length_encode_strings by blast
  with ss show ?thesis
    by (simp add: next_pos_def assms(2,3) encode_struct_def skip_encode_strings)
qed

theorem walk_encode:
  "\<forall>st \<in> set sts. wf_struct st \<Longrightarrow>
     walk (pre @ encode_table sts @ post) (length pre + length (encode_table sts)) (length pre) =
       (positions (length pre) (takeWhile (\<lambda>st. st_type st \<noteq> 127) sts),
        if \<exists>st \<in> set sts. st_type st = 127 then EndMarker else TableEnd)"
proof (induction sts arbitrary: pre)
  case Nil
  show ?case by (subst walk.simps) (simp add: encode_table_def)
next
  case (Cons st sts)
  let ?buf = "pre @ encode_table (st # sts) @ post"
  let ?e = "length pre + length (encode_table (st # sts))"
  have wf: "wf_struct st" using Cons.prems by simp
  have buf: "?buf = pre @ encode_struct st @ encode_table sts @ post"
    by (simp add: encode_table_def)
  have e: "?e = length pre + length (encode_struct st) + length (encode_table sts)"
    by (simp add: encode_table_def)
  have ty: "?buf ! length pre = st_type st"
    and hl: "unat (?buf ! Suc (length pre)) = length (st_formatted st)"
    using struct_bytes(1,2) [OF wf, of ?buf pre] wf_struct_header [OF wf] buf by auto
  have len: "4 \<le> length (st_formatted st)" "length pre + length (st_formatted st) \<le> ?e"
    using wf by (auto simp: e wf_struct_def encode_struct_def)
  have np: "next_pos ?buf ?e (length pre + length (st_formatted st)) =
      Some (length pre + length (encode_struct st))"
    by (rule next_pos_struct [OF wf buf e])
  have IH: "walk ?buf ?e (length pre + length (encode_struct st)) =
      (positions (length pre + length (encode_struct st)) (takeWhile (\<lambda>st. st_type st \<noteq> 127) sts),
       if \<exists>st \<in> set sts. st_type st = 127 then EndMarker else TableEnd)"
    using Cons.IH [of "pre @ encode_struct st"] Cons.prems buf e
    by (simp add: add.assoc)
  show ?case
  proof (cases "st_type st = 127")
    case True
    with len show ?thesis
      using walk_marker [of "length pre" ?e ?buf] by (simp only: ty hl) simp
  next
    case False
    with len have "walk ?buf ?e (length pre) =
        (length pre # fst (walk ?buf ?e (length pre + length (encode_struct st))),
         snd (walk ?buf ?e (length pre + length (encode_struct st))))"
      by (intro walk_step) (simp_all only: ty hl np, simp_all)
    with False show ?thesis by (simp only: IH) simp
  qed
qed

end
