(* ===== verification/Smbios.thy ===== *)
theory Smbios
  imports Smbios_Walk
begin

text \<open>
  \<open>src/firmware/smbios.c\<close> with its data from \<open>include/smbios.h\<close>: string lookup, the field
  parsers of the structure types the program reports, and the loop of \<open>smbios_collect\<close>.
  A \<open>char name[N]\<close> is a byte list of length N, so a short string leaves the bytes after its
  terminator as they were. Obtaining and releasing the raw table is in \<open>Firmware_Clients\<close>.
\<close>

section \<open>Data\<close>

definition SMBIOS_MAX_MEMORY_DEVICES :: nat where "SMBIOS_MAX_MEMORY_DEVICES = 64"
definition SMBIOS_STR_MAX :: nat where "SMBIOS_STR_MAX = 64"

record SmbiosBiosInfo =
  bios_available :: bool
  bios_vendor :: bytes
  bios_version :: bytes
  bios_release_date :: bytes

record SmbiosSystemInfo =
  sys_available :: bool
  sys_manufacturer :: bytes
  sys_product :: bytes
  sys_version :: bytes
  sys_serial :: bytes
  sys_uuid_available :: bool
  sys_uuid :: bytes

record SmbiosBaseboardInfo =
  bb_available :: bool
  bb_manufacturer :: bytes
  bb_product :: bytes
  bb_version :: bytes
  bb_serial :: bytes

record SmbiosChassisInfo =
  ch_available :: bool
  ch_chassis_type :: u8
  ch_manufacturer :: bytes
  ch_serial :: bytes

record SmbiosMemoryDevice =
  md_populated :: bool
  md_size_mb :: u32
  md_speed_mts :: u32
  md_configured_speed_mts :: u32
  md_memory_type :: u8
  md_manufacturer :: bytes
  md_part_number :: bytes
  md_serial :: bytes
  md_locator :: bytes

record SmbiosData =
  sm_available :: bool
  sm_major_version :: u8
  sm_minor_version :: u8
  sm_bios :: SmbiosBiosInfo
  sm_system :: SmbiosSystemInfo
  sm_baseboard :: SmbiosBaseboardInfo
  sm_chassis :: SmbiosChassisInfo
  sm_memory_devices :: "SmbiosMemoryDevice list"
  sm_structures_parsed :: u32
  sm_structures_malformed_skipped :: u32

text \<open>The state \<open>memset\<close> leaves.\<close>

abbreviation str0 :: bytes where "str0 \<equiv> zeros SMBIOS_STR_MAX"

definition memory_device0 :: SmbiosMemoryDevice where
  "memory_device0 = \<lparr>md_populated = False, md_size_mb = 0, md_speed_mts = 0,
     md_configured_speed_mts = 0, md_memory_type = 0, md_manufacturer = str0,
     md_part_number = str0, md_serial = str0, md_locator = str0\<rparr>"

definition smbios0 :: SmbiosData where
  "smbios0 = \<lparr>sm_available = False, sm_major_version = 0, sm_minor_version = 0,
     sm_bios = \<lparr>bios_available = False, bios_vendor = str0, bios_version = str0,
       bios_release_date = str0\<rparr>,
     sm_system = \<lparr>sys_available = False, sys_manufacturer = str0, sys_product = str0,
       sys_version = str0, sys_serial = str0, sys_uuid_available = False, sys_uuid = zeros 37\<rparr>,
     sm_baseboard = \<lparr>bb_available = False, bb_manufacturer = str0, bb_product = str0,
       bb_version = str0, bb_serial = str0\<rparr>,
     sm_chassis = \<lparr>ch_available = False, ch_chassis_type = 0, ch_manufacturer = str0,
       ch_serial = str0\<rparr>,
     sm_memory_devices = [], sm_structures_parsed = 0, sm_structures_malformed_skipped = 0\<rparr>"

section \<open>Strings\<close>

function get_string_loop :: "bytes \<Rightarrow> nat \<Rightarrow> u8 \<Rightarrow> nat \<Rightarrow> u8 \<Rightarrow> cptr option" where
  "get_string_loop buf buf_end index p current =
     (if p < buf_end then
        (let max_len = buf_end - p in
         case strnlen buf p max_len of
           None \<Rightarrow> None
         | Some slen \<Rightarrow>
             if slen = max_len then Some Null
             else if slen = 0 then Some Null
             else if current = index then Some (At p)
             else get_string_loop buf buf_end index (p + slen + 1) (current + 1))
      else Some Null)"
  by pat_completeness auto
termination
  by (relation "measure (\<lambda>(buf, e, i, p, c). e - p)") auto

declare get_string_loop.simps [simp del]

definition smbios_get_string :: "bytes \<Rightarrow> nat \<Rightarrow> nat \<Rightarrow> nat \<Rightarrow> u8 \<Rightarrow> cptr option" where
  "smbios_get_string buf struct_ptr formatted_len buf_end index =
     (if index = 0 then Some Null
      else get_string_loop buf buf_end index (struct_ptr + formatted_len) 1)"

definition copy_string_field ::
    "bytes \<Rightarrow> nat \<Rightarrow> nat \<Rightarrow> nat \<Rightarrow> u8 \<Rightarrow> bytes \<Rightarrow> nat \<Rightarrow> bytes option" where
  "copy_string_field buf struct_ptr formatted_len buf_end index out out_size =
     do { out \<leftarrow> wr8 out 0 0;
          s \<leftarrow> smbios_get_string buf struct_ptr formatted_len buf_end index;
          case s of
            Null \<Rightarrow> Some out
          | At p \<Rightarrow>
              do { slen \<leftarrow> strnlen buf p (buf_end - p);
                   let slen = (if out_size \<le> slen then out_size - 1 else slen);
                   src \<leftarrow> rd_bytes buf p slen;
                   out \<leftarrow> wr_bytes out 0 src;
                   wr8 out slen 0 } }"

text \<open>\<open>FIELD_OK\<close>, and the guarded string copy the parsers repeat for each string field.\<close>

definition FIELD_OK :: "u8 \<Rightarrow> nat \<Rightarrow> bool" where
  "FIELD_OK hlen off \<longleftrightarrow> off < unat hlen"

definition string_field :: "bytes \<Rightarrow> nat \<Rightarrow> u8 \<Rightarrow> nat \<Rightarrow> nat \<Rightarrow> bytes \<Rightarrow> bytes option" where
  "string_field buf s hlen e off out =
     (if FIELD_OK hlen off
      then do { i \<leftarrow> rd8 buf (s + off);
                copy_string_field buf s (unat hlen) e i out (length out) }
      else Some out)"

section \<open>The field parsers\<close>

definition parse_bios :: "bytes \<Rightarrow> nat \<Rightarrow> u8 \<Rightarrow> nat \<Rightarrow> SmbiosBiosInfo \<Rightarrow> SmbiosBiosInfo option" where
  "parse_bios buf s hlen e out =
     do { v \<leftarrow> string_field buf s hlen e 0x04 (bios_vendor out);
          w \<leftarrow> string_field buf s hlen e 0x05 (bios_version out);
          d \<leftarrow> string_field buf s hlen e 0x08 (bios_release_date out);
          Some (out\<lparr>bios_available := True, bios_vendor := v, bios_version := w,
                   bios_release_date := d\<rparr>) }"

text \<open>\<open>%02X\<close> of a byte, and the two orders in which \<open>format_uuid\<close> prints the 16 bytes.\<close>

definition hex_digit :: "u8 \<Rightarrow> u8" where
  "hex_digit n = (if n < 10 then 48 + n else 55 + n)"

definition hex2 :: "u8 \<Rightarrow> bytes" where
  "hex2 b = [hex_digit (drop_bit 4 b), hex_digit (b AND 15)]"

definition uuid_order :: "bool \<Rightarrow> nat list" where
  "uuid_order little_endian_layout =
     (if little_endian_layout then [3, 2, 1, 0, 5, 4, 7, 6] else [0, 1, 2, 3, 4, 5, 6, 7])
       @ [8, 9, 10, 11, 12, 13, 14, 15]"

definition format_uuid :: "bytes \<Rightarrow> u8 \<Rightarrow> u8 \<Rightarrow> bytes" where
  "format_uuid u major minor =
     (let little_endian_layout = (2 < major \<or> major = 2 \<and> 6 \<le> minor);
          h = (\<lambda>ks. concat (map (\<lambda>k. hex2 (u ! (uuid_order little_endian_layout ! k))) ks));
          dash = [45] in
      h [0, 1, 2, 3] @ dash @ h [4, 5] @ dash @ h [6, 7] @ dash @ h [8, 9] @ dash @
      h [10, 11, 12, 13, 14, 15] @ [0])"

definition parse_system ::
    "bytes \<Rightarrow> nat \<Rightarrow> u8 \<Rightarrow> nat \<Rightarrow> u8 \<Rightarrow> u8 \<Rightarrow> SmbiosSystemInfo \<Rightarrow> SmbiosSystemInfo option" where
  "parse_system buf s hlen e major minor out =
     do { m \<leftarrow> string_field buf s hlen e 0x04 (sys_manufacturer out);
          p \<leftarrow> string_field buf s hlen e 0x05 (sys_product out);
          v \<leftarrow> string_field buf s hlen e 0x06 (sys_version out);
          n \<leftarrow> string_field buf s hlen e 0x07 (sys_serial out);
          let out = out\<lparr>sys_available := True, sys_manufacturer := m, sys_product := p,
                       sys_version := v, sys_serial := n\<rparr>;
          if 0x18 \<le> hlen
          then do { u \<leftarrow> rd_bytes buf (s + 0x08) 16;
                    t \<leftarrow> wr_bytes (sys_uuid out) 0 (format_uuid u major minor);
                    Some (out\<lparr>sys_uuid := t, sys_uuid_available := True\<rparr>) }
          else Some out }"

definition parse_baseboard ::
    "bytes \<Rightarrow> nat \<Rightarrow> u8 \<Rightarrow> nat \<Rightarrow> SmbiosBaseboardInfo \<Rightarrow> SmbiosBaseboardInfo option" where
  "parse_baseboard buf s hlen e out =
     do { m \<leftarrow> string_field buf s hlen e 0x04 (bb_manufacturer out);
          p \<leftarrow> string_field buf s hlen e 0x05 (bb_product out);
          v \<leftarrow> string_field buf s hlen e 0x06 (bb_version out);
          n \<leftarrow> string_field buf s hlen e 0x07 (bb_serial out);
          Some (out\<lparr>bb_available := True, bb_manufacturer := m, bb_product := p,
                   bb_version := v, bb_serial := n\<rparr>) }"

definition parse_chassis ::
    "bytes \<Rightarrow> nat \<Rightarrow> u8 \<Rightarrow> nat \<Rightarrow> SmbiosChassisInfo \<Rightarrow> SmbiosChassisInfo option" where
  "parse_chassis buf s hlen e out =
     do { m \<leftarrow> string_field buf s hlen e 0x04 (ch_manufacturer out);
          t \<leftarrow> (if FIELD_OK hlen 0x05 then map_option (\<lambda>b. b AND 0x7F) (rd8 buf (s + 0x05))
                else Some (ch_chassis_type out));
          n \<leftarrow> string_field buf s hlen e 0x07 (ch_serial out);
          Some (out\<lparr>ch_available := True, ch_manufacturer := m, ch_chassis_type := t,
                   ch_serial := n\<rparr>) }"

text \<open>The size decision of \<open>parse_memory_device\<close>: populated, and the size in MB.\<close>

definition memory_device_size :: "bytes \<Rightarrow> nat \<Rightarrow> u8 \<Rightarrow> (bool \<times> u32) option" where
  "memory_device_size buf s hlen =
     do { size_word \<leftarrow> (if FIELD_OK hlen 0x0D then rd16 buf (s + 0x0C) else Some 0);
          if size_word = 0 then Some (False, 0)
          else if size_word = 0xFFFF then Some (True, 0)
          else do { let is_kb = (size_word AND 0x8000 \<noteq> 0);
                    let raw = (ucast (size_word AND 0x7FFF) :: u32);
                    if raw = 0x7FFF \<and> 0x20 \<le> hlen
                    then do { ext \<leftarrow> rd32 buf (s + 0x1C);
                              Some (True, ext AND 0x7FFFFFFF) }
                    else Some (True, if is_kb then raw div 1024 else raw) } }"

definition parse_memory_device :: "bytes \<Rightarrow> nat \<Rightarrow> u8 \<Rightarrow> nat \<Rightarrow> SmbiosData \<Rightarrow> SmbiosData option" where
  "parse_memory_device buf s hlen e data =
     (if SMBIOS_MAX_MEMORY_DEVICES \<le> length (sm_memory_devices data) then Some data
      else do {
        let m = memory_device0;
        ps \<leftarrow> memory_device_size buf s hlen;
        t \<leftarrow> (if FIELD_OK hlen 0x12 then rd8 buf (s + 0x12) else Some (md_memory_type m));
        sp \<leftarrow> (if 0x17 \<le> hlen then map_option ucast (rd16 buf (s + 0x15))
               else Some (md_speed_mts m));
        cs \<leftarrow> (if 0x26 \<le> hlen then map_option ucast (rd16 buf (s + 0x24))
               else Some (md_configured_speed_mts m));
        lo \<leftarrow> string_field buf s hlen e 0x10 (md_locator m);
        mf \<leftarrow> string_field buf s hlen e 0x17 (md_manufacturer m);
        sn \<leftarrow> string_field buf s hlen e 0x18 (md_serial m);
        pn \<leftarrow> string_field buf s hlen e 0x1A (md_part_number m);
        ds \<leftarrow> tbl_store SMBIOS_MAX_MEMORY_DEVICES (sm_memory_devices data)
                (m\<lparr>md_populated := fst ps, md_size_mb := snd ps, md_memory_type := t,
                   md_speed_mts := sp, md_configured_speed_mts := cs, md_locator := lo,
                   md_manufacturer := mf, md_serial := sn, md_part_number := pn\<rparr>);
        Some (data\<lparr>sm_memory_devices := ds\<rparr>) })"

text \<open>The \<open>switch\<close> on the structure type.\<close>

definition dispatch :: "bytes \<Rightarrow> u8 \<Rightarrow> nat \<Rightarrow> u8 \<Rightarrow> nat \<Rightarrow> SmbiosData \<Rightarrow> SmbiosData option" where
  "dispatch buf ty cur hlen e out =
     (if ty = 0 then map_option (\<lambda>b. out\<lparr>sm_bios := b\<rparr>) (parse_bios buf cur hlen e (sm_bios out))
      else if ty = 1 then map_option (\<lambda>b. out\<lparr>sm_system := b\<rparr>)
        (parse_system buf cur hlen e (sm_major_version out) (sm_minor_version out) (sm_system out))
      else if ty = 2 then map_option (\<lambda>b. out\<lparr>sm_baseboard := b\<rparr>)
        (parse_baseboard buf cur hlen e (sm_baseboard out))
      else if ty = 3 then map_option (\<lambda>b. out\<lparr>sm_chassis := b\<rparr>)
        (parse_chassis buf cur hlen e (sm_chassis out))
      else if ty = 17 then parse_memory_device buf cur hlen e out
      else Some out)"

section \<open>The structure loop\<close>

definition count_malformed :: "SmbiosData \<Rightarrow> SmbiosData" where
  "count_malformed out =
     out\<lparr>sm_structures_malformed_skipped := sm_structures_malformed_skipped out + 1\<rparr>"

definition count_parsed :: "SmbiosData \<Rightarrow> SmbiosData" where
  "count_parsed out = out\<lparr>sm_structures_parsed := sm_structures_parsed out + 1\<rparr>"

function smbios_loop :: "bytes \<Rightarrow> nat \<Rightarrow> nat \<Rightarrow> SmbiosData \<Rightarrow> SmbiosData option" where
  "smbios_loop buf e cur out =
     (if cur + 4 \<le> e then
        do { ty \<leftarrow> rd8 buf cur;
             hlen \<leftarrow> rd8 buf (cur + 1);
             if hlen < 4 \<or> e < cur + unat hlen then Some (count_malformed out)
             else if ty = 127 then Some out
             else do { out \<leftarrow> dispatch buf ty cur hlen e out;
                       let out = count_parsed out;
                       next \<leftarrow> smbios_next_structure buf cur (unat hlen) e;
                       case next of
                         Null \<Rightarrow> Some (count_malformed out)
                       | At n \<Rightarrow> if n \<le> cur then Some (count_malformed out)
                                 else smbios_loop buf e n out } }
      else Some out)"
  by pat_completeness auto
termination
  by (relation "measure (\<lambda>(buf, e, cur, out). e - cur)") auto

declare smbios_loop.simps [simp del]

text \<open>
  \<open>smbios_collect\<close> on the raw table: the header (\<open>RawSmbiosHeader\<close>, 8 bytes before the table
  data), the clamped table length, the loop and the final flag. \<open>None\<close> as a result value
  inside is the \<open>return false\<close> for a table shorter than its header.
\<close>

definition smbios_parse :: "bytes \<Rightarrow> nat \<Rightarrow> SmbiosData option option" where
  "smbios_parse raw raw_size =
     (if raw_size < 9 - 1 then Some None
      else do {
        major \<leftarrow> rd8 raw 1;
        minor \<leftarrow> rd8 raw 2;
        len \<leftarrow> rd32 raw 4;
        let table_len = (if raw_size < 8 + unat len then raw_size - 8 else unat len);
        out \<leftarrow> smbios_loop raw (8 + table_len) 8
                 (smbios0\<lparr>sm_major_version := major, sm_minor_version := minor\<rparr>);
        Some (Some (out\<lparr>sm_available := (0 < sm_structures_parsed out)\<rparr>)) })"

section \<open>What string lookup computes\<close>

text \<open>
  The specification: string number k of a string area is found by skipping k - 1 non-empty
  terminated strings; an empty or unterminated string ends the search.
\<close>

fun string_pos :: "bytes \<Rightarrow> nat \<Rightarrow> nat option" where
  "string_pos area 0 = None"
| "string_pos area (Suc k) =
     (let n = length (takeWhile (\<lambda>b. b \<noteq> 0) area) in
      if n = length area \<or> n = 0 then None
      else if k = 0 then Some 0
      else map_option (\<lambda>p. n + 1 + p) (string_pos (drop (n + 1) area) k))"

definition string_at :: "bytes \<Rightarrow> nat \<Rightarrow> bytes option" where
  "string_at area k = map_option (\<lambda>p. takeWhile (\<lambda>b. b \<noteq> 0) (drop p area)) (string_pos area k)"

definition ptr_at :: "nat \<Rightarrow> nat option \<Rightarrow> cptr" where
  "ptr_at base x = (case x of None \<Rightarrow> Null | Some n \<Rightarrow> At (base + n))"

lemma ptr_at_map: "ptr_at base (map_option (\<lambda>p. n + p) x) = ptr_at (base + n) x"
  by (simp add: ptr_at_def split: option.splits)

lemma string_pos_step:
  assumes "p < e" and "e \<le> length buf"
    and n: "n = length (takeWhile (\<lambda>b. b \<noteq> 0) (drop p (take e buf)))"
  shows "string_pos (drop p (take e buf)) (Suc k) =
    (if n = e - p \<or> n = 0 then None else if k = 0 then Some 0
     else map_option (\<lambda>i. n + 1 + i) (string_pos (drop (p + n + 1) (take e buf)) k))"
proof -
  have "length (drop p (take e buf)) = e - p" using assms(1,2) by simp
  moreover have "drop (n + 1) (drop p (take e buf)) = drop (p + n + 1) (take e buf)"
    by (simp only: drop_drop ac_simps)
  ultimately show ?thesis
    by (simp only: string_pos.simps Let_def n [symmetric])
qed

lemma get_string_loop_step:
  assumes "p < e" and "e \<le> length buf"
    and n: "n = length (takeWhile (\<lambda>b. b \<noteq> 0) (drop p (take e buf)))"
  shows "get_string_loop buf e index p current =
    (if n = e - p \<or> n = 0 then Some Null
     else if current = index then Some (At p)
     else get_string_loop buf e index (p + n + 1) (current + 1))"
proof -
  have "strnlen buf p (e - p) = Some n"
    using assms(1,2) by (simp add: n strnlen_in drop_take)
  with assms(1) show ?thesis
    by (subst get_string_loop.simps) (simp add: Let_def)
qed

lemma get_string_loop_eq:
  "e \<le> length buf \<Longrightarrow> current \<le> index \<Longrightarrow>
     get_string_loop buf e index p current =
       Some (ptr_at p (string_pos (drop p (take e buf)) (Suc (unat index - unat current))))"
proof (induction "e - p" arbitrary: p current rule: less_induct)
  case less
  show ?case
  proof (cases "p < e")
    case False
    then show ?thesis by (subst get_string_loop.simps) (simp add: ptr_at_def)
  next
    case True
    define n where "n = length (takeWhile (\<lambda>b. b \<noteq> 0) (drop p (take e buf)))"
    note steps = get_string_loop_step [OF True less.prems(1) n_def]
      string_pos_step [OF True less.prems(1) n_def]
    consider "n = e - p \<or> n = 0" | "\<not> (n = e - p \<or> n = 0)" "current = index"
      | "\<not> (n = e - p \<or> n = 0)" "current \<noteq> index" by blast
    then show ?thesis
    proof cases
      case 1
      then show ?thesis unfolding steps by (simp only: if_P ptr_at_def option.case)
    next
      case 2
      then have z: "unat index - unat current = 0" by simp
      show ?thesis
        unfolding steps if_not_P [OF 2(1)] if_P [OF 2(2)] if_P [OF z] by (simp add: ptr_at_def)
    next
      case 3
      have lt: "current < index"
        using 3(2) less.prems(2) by (rule order.not_eq_order_implies_strict)
      have le: "current + 1 \<le> index"
        by (rule inc_le [OF lt])
      have k: "unat index - unat current = Suc (unat index - unat (current + 1))"
        using lt unfolding unat_inc [OF lt] word_less_nat_alt by linarith
      have "get_string_loop buf e index (p + n + 1) (current + 1) = Some (ptr_at (p + n + 1)
          (string_pos (drop (p + n + 1) (take e buf)) (Suc (unat index - unat (current + 1)))))"
        using True less.prems(1) le by (intro less.hyps) simp_all
      then show ?thesis
        unfolding steps if_not_P [OF 3(1)] if_not_P [OF 3(2)] k
        by (simp only: if_False nat.distinct ptr_at_map add.assoc)
    qed
  qed
qed

lemma smbios_get_string_eq [safe_access]:
  assumes "e \<le> length buf"
  shows "smbios_get_string buf s fl e index =
     Some (ptr_at (s + fl) (string_pos (drop (s + fl) (take e buf)) (unat index)))"
proof (cases "index = 0")
  case True
  then show ?thesis by (simp add: smbios_get_string_def ptr_at_def)
next
  case False
  then have "(1 :: u8) \<le> index" "Suc (unat index - unat (1 :: u8)) = unat index"
    by (simp_all add: word_le_nat_alt unat_gt_0 Suc_le_eq)
  with False show ?thesis
    by (simp add: smbios_get_string_def get_string_loop_eq assms del: string_pos.simps)
qed

lemma string_pos_bound:
  "string_pos area k = Some p \<Longrightarrow> p + length (takeWhile (\<lambda>b. b \<noteq> 0) (drop p area)) < length area
     \<and> takeWhile (\<lambda>b. b \<noteq> 0) (drop p area) \<noteq> []"
proof (induction k arbitrary: area p)
  case 0
  then show ?case by simp
next
  case (Suc k)
  define n where "n = length (takeWhile (\<lambda>b. b \<noteq> 0) area)"
  have n: "n < length area" "n \<noteq> 0"
    using Suc.prems length_takeWhile_le [of "\<lambda>b. b \<noteq> 0" area]
    by (auto simp: Let_def n_def split: if_splits)
  show ?case
  proof (cases "k = 0")
    case True
    with Suc.prems n show ?thesis by (auto simp: Let_def n_def)
  next
    case False
    with Suc.prems n obtain q where q: "string_pos (drop (n + 1) area) k = Some q" "p = n + 1 + q"
      by (auto simp: Let_def n_def [symmetric] split: if_splits)
    with Suc.IH [OF q(1)] n show ?thesis by (simp add: add.commute add.left_commute) linarith
  qed
qed

section \<open>What a string field holds after a copy\<close>

text \<open>The characters string number \<open>index\<close> contributes to an array of \<open>out_size\<close> bytes.\<close>

definition field_chars :: "bytes \<Rightarrow> nat \<Rightarrow> nat \<Rightarrow> nat \<Rightarrow> u8 \<Rightarrow> nat \<Rightarrow> bytes" where
  "field_chars buf s fl e index out_size =
     (case string_at (drop (s + fl) (take e buf)) (unat index) of
        None \<Rightarrow> [] | Some str \<Rightarrow> take (out_size - 1) str)"

definition put_cstr :: "bytes \<Rightarrow> bytes \<Rightarrow> bytes" where
  "put_cstr out str = str @ 0 # drop (length str + 1) out"

definition carray :: "nat \<Rightarrow> bytes \<Rightarrow> bool" where
  "carray n a \<longleftrightarrow> length a = n \<and> nul_terminated a"

lemma carray_zeros [simp]: "0 < n \<Longrightarrow> carray n (zeros n)"
  by (simp add: carray_def nul_terminated_def zeros_def)

lemma carray_put_cstr [simp]: "length out = n \<Longrightarrow> length str < n \<Longrightarrow> carray n (put_cstr out str)"
  by (simp add: carray_def put_cstr_def nul_terminated_def)

lemma cstr_put_cstr [simp]: "0 \<notin> set str \<Longrightarrow> cstr (put_cstr out str) = str"
  by (simp add: put_cstr_def cstr_append)

lemma put_cstr_writes:
  assumes "length str < length out"
  shows "(str @ drop (length str) (out[0 := 0]))[length str := 0] = put_cstr out str"
proof -
  have "drop (length str) (out[0 := 0]) = out[0 := 0] ! length str # drop (Suc (length str)) out"
    using assms by (simp add: Cons_nth_drop_Suc [symmetric])
  then show ?thesis by (simp add: put_cstr_def)
qed

lemma field_chars_length: "0 < n \<Longrightarrow> length (field_chars buf s fl e index n) < n"
  by (auto simp: field_chars_def split: option.splits)

lemma field_chars_nonzero: "0 \<notin> set (field_chars buf s fl e index n)"
  by (auto simp: field_chars_def string_at_def split: option.splits
      dest!: in_set_takeD set_takeWhileD)

lemma copy_string_field_eq [safe_access]:
  assumes "e \<le> length buf" and "length out = n" and "0 < n"
  shows "copy_string_field buf s fl e index out n =
    Some (put_cstr out (field_chars buf s fl e index n))"
proof -
  let ?area = "drop (s + fl) (take e buf)"
  obtain x xs where out: "out = x # xs" using assms(2,3) by (cases out) auto
  show ?thesis
  proof (cases "string_pos ?area (unat index)")
    case None
    then show ?thesis
      using assms by (simp add: copy_string_field_def smbios_get_string_eq ptr_at_def
          field_chars_def string_at_def put_cstr_def out)
  next
    case (Some p)
    let ?q = "s + fl + p"
    define str where "str = takeWhile (\<lambda>b. b \<noteq> 0) (drop p ?area)"
    have len: "p + length str < e - (s + fl)"
      using string_pos_bound [OF Some] assms(1) by (simp add: str_def)
    have area: "drop p ?area = take (e - ?q) (drop ?q buf)"
      by (simp add: drop_take add.commute add.left_commute)
    have str: "?q + length str < e" "str = takeWhile (\<lambda>b. b \<noteq> 0) (take (e - ?q) (drop ?q buf))"
      using len by (simp_all only: str_def area)
    have nlen: "strnlen buf ?q (e - ?q) = Some (length str)"
      using str assms(1) by (simp add: strnlen_in)
    let ?k = "if n \<le> length str then n - 1 else length str"
    have cp: "take ?k (drop ?q buf) = take (n - 1) str"
    proof -
      have "take (length str) (drop ?q buf) = str"
        using str(1) takeWhile_eq_take [of "\<lambda>b. b \<noteq> 0" "take (e - ?q) (drop ?q buf)"]
        by (simp add: str(2) [symmetric])
      then have "take k (drop ?q buf) = take k str" if "k \<le> length str" for k
        using that by (metis min.absorb1 take_take)
      then show ?thesis by (cases "n \<le> length str") simp_all
    qed
    have lk: "length (take (n - 1) str) = ?k" "?k < n" "?q + ?k \<le> length buf"
      using assms str(1) by auto
    have "copy_string_field buf s fl e index out n = wr8 (take (n - 1) str @ drop ?k (out[0 := 0])) ?k 0"
      using assms lk cp
      by (simp add: copy_string_field_def smbios_get_string_eq ptr_at_def Some nlen)
    also have "\<dots> = Some (put_cstr out (take (n - 1) str))"
    proof -
      have "length (take (n - 1) str) < length out" using assms(2,3) by simp
      from put_cstr_writes [OF this] show ?thesis
        using lk(2) assms(2) unfolding lk(1) by simp
    qed
    finally show ?thesis
      by (simp add: field_chars_def string_at_def Some str_def)
  qed
qed

section \<open>The parsers stay inside the table and keep the arrays well formed\<close>

definition bios_ok :: "SmbiosBiosInfo \<Rightarrow> bool" where
  "bios_ok b \<longleftrightarrow> carray SMBIOS_STR_MAX (bios_vendor b) \<and> carray SMBIOS_STR_MAX (bios_version b) \<and>
     carray SMBIOS_STR_MAX (bios_release_date b)"

definition system_ok :: "SmbiosSystemInfo \<Rightarrow> bool" where
  "system_ok x \<longleftrightarrow> carray SMBIOS_STR_MAX (sys_manufacturer x) \<and> carray SMBIOS_STR_MAX (sys_product x) \<and>
     carray SMBIOS_STR_MAX (sys_version x) \<and> carray SMBIOS_STR_MAX (sys_serial x) \<and>
     carray 37 (sys_uuid x)"

definition baseboard_ok :: "SmbiosBaseboardInfo \<Rightarrow> bool" where
  "baseboard_ok x \<longleftrightarrow> carray SMBIOS_STR_MAX (bb_manufacturer x) \<and> carray SMBIOS_STR_MAX (bb_product x) \<and>
     carray SMBIOS_STR_MAX (bb_version x) \<and> carray SMBIOS_STR_MAX (bb_serial x)"

definition chassis_ok :: "SmbiosChassisInfo \<Rightarrow> bool" where
  "chassis_ok x \<longleftrightarrow> carray SMBIOS_STR_MAX (ch_manufacturer x) \<and> carray SMBIOS_STR_MAX (ch_serial x) \<and>
     ch_chassis_type x \<le> 0x7F"

definition memory_device_ok :: "SmbiosMemoryDevice \<Rightarrow> bool" where
  "memory_device_ok m \<longleftrightarrow> carray SMBIOS_STR_MAX (md_manufacturer m) \<and>
     carray SMBIOS_STR_MAX (md_part_number m) \<and> carray SMBIOS_STR_MAX (md_serial m) \<and>
     carray SMBIOS_STR_MAX (md_locator m) \<and> md_size_mb m \<le> 0x7FFFFFFF \<and>
     (\<not> md_populated m \<longrightarrow> md_size_mb m = 0)"

definition smbios_ok :: "SmbiosData \<Rightarrow> bool" where
  "smbios_ok d \<longleftrightarrow> bios_ok (sm_bios d) \<and> system_ok (sm_system d) \<and> baseboard_ok (sm_baseboard d) \<and>
     chassis_ok (sm_chassis d) \<and> length (sm_memory_devices d) \<le> SMBIOS_MAX_MEMORY_DEVICES \<and>
     (\<forall>m \<in> set (sm_memory_devices d). memory_device_ok m)"

lemmas ok_defs = bios_ok_def system_ok_def baseboard_ok_def chassis_ok_def memory_device_ok_def

text \<open>The value of a string field after the guarded copy.\<close>

definition field_val :: "bytes \<Rightarrow> nat \<Rightarrow> u8 \<Rightarrow> nat \<Rightarrow> nat \<Rightarrow> bytes \<Rightarrow> bytes" where
  "field_val buf s hlen e off out =
     (if FIELD_OK hlen off
      then put_cstr out (field_chars buf s (unat hlen) e (buf ! (s + off)) (length out)) else out)"

lemma string_field_eq [simp, safe_access]:
  assumes "e \<le> length buf" and "s + unat hlen \<le> e" and "out \<noteq> []"
  shows "string_field buf s hlen e off out = Some (field_val buf s hlen e off out)"
proof (cases "FIELD_OK hlen off")
  case True
  with assms have "s + off < length buf" by (simp add: FIELD_OK_def)
  with True assms show ?thesis
    by (simp add: string_field_def field_val_def copy_string_field_eq)
next
  case False
  then show ?thesis by (simp add: string_field_def field_val_def)
qed

lemma carray_field_val [simp]: "carray n out \<Longrightarrow> 0 < n \<Longrightarrow> carray n (field_val buf s hlen e off out)"
  by (auto simp: field_val_def carray_def [of n out] field_chars_length)

lemma carray_nonempty: "carray n out \<Longrightarrow> 0 < n \<Longrightarrow> out \<noteq> []"
  by (auto simp: carray_def)

lemma STR_MAX_pos [simp]: "0 < SMBIOS_STR_MAX"
  by (simp add: SMBIOS_STR_MAX_def)

lemmas carray_str_nonempty [simp] = carray_nonempty [OF _ STR_MAX_pos]

lemma parse_bios_in:
  "e \<le> length buf \<Longrightarrow> s + unat hlen \<le> e \<Longrightarrow> bios_ok out \<Longrightarrow>
     \<exists>b. parse_bios buf s hlen e out = Some b \<and> bios_ok b"
  by (simp add: parse_bios_def bios_ok_def)

lemma parse_baseboard_in:
  "e \<le> length buf \<Longrightarrow> s + unat hlen \<le> e \<Longrightarrow> baseboard_ok out \<Longrightarrow>
     \<exists>b. parse_baseboard buf s hlen e out = Some b \<and> baseboard_ok b"
  by (simp add: parse_baseboard_def baseboard_ok_def)

lemma parse_chassis_in:
  "e \<le> length buf \<Longrightarrow> s + unat hlen \<le> e \<Longrightarrow> chassis_ok out \<Longrightarrow>
     \<exists>b. parse_chassis buf s hlen e out = Some b \<and> chassis_ok b"
  by (auto simp: parse_chassis_def chassis_ok_def FIELD_OK_def word_and_le1)

lemma length_format_uuid [simp]: "length (format_uuid u major minor) = 37"
  by (simp add: format_uuid_def hex2_def Let_def)

lemma parse_system_in:
  assumes "e \<le> length buf" and "s + unat hlen \<le> e" and "system_ok out"
  shows "\<exists>x. parse_system buf s hlen e major minor out = Some x \<and> system_ok x"
proof -
  have uuid: "nul_terminated (format_uuid u major minor)" for u
    by (simp add: nul_terminated_def format_uuid_def Let_def)
  have "0x18 \<le> hlen \<Longrightarrow> s + 0x08 + 16 \<le> length buf"
    using assms(1,2) by (simp add: word_le_nat_alt)
  with assms show ?thesis
    by (auto simp: parse_system_def system_ok_def carray_def [of 37] uuid Let_def)
qed

text \<open>
  The meaning of the size fields, on numbers: 0 is an empty slot, 0xFFFF a module of unknown
  size, bit 15 selects kilobytes, and 0x7FFF refers to the extended size when there is one.
\<close>

definition size_spec :: "nat \<Rightarrow> nat option \<Rightarrow> bool \<times> nat" where
  "size_spec w ext =
     (if w = 0 then (False, 0) else if w = 0xFFFF then (True, 0)
      else if w < 0x8000
        then (True, case ext of None \<Rightarrow> w | Some x \<Rightarrow> if w = 0x7FFF then x mod 2 ^ 31 else w)
      else (True, (w - 0x8000) div 1024))"

definition size_word :: "bytes \<Rightarrow> nat \<Rightarrow> u8 \<Rightarrow> u16" where
  "size_word buf s hlen = (if FIELD_OK hlen 0x0D then le_word (take 2 (drop (s + 0x0C) buf)) else 0)"

definition size_ext :: "bytes \<Rightarrow> nat \<Rightarrow> u8 \<Rightarrow> u32 option" where
  "size_ext buf s hlen = (if 0x20 \<le> hlen then Some (le_word (take 4 (drop (s + 0x1C) buf))) else None)"

text \<open>The code's size decision is that specification.\<close>

lemma size_words:
  fixes w :: u16 and x :: u32
  defines "raw \<equiv> ucast (w AND 0x7FFF) :: u32"
  shows "(if w = 0 then (False, 0) else if w = 0xFFFF then (True, 0)
      else if raw = 0x7FFF \<and> has then (True, x AND 0x7FFFFFFF)
      else (True, if w AND 0x8000 \<noteq> 0 then raw div 1024 else raw)) =
    (let z = size_spec (unat w) (if has then Some (unat x) else None) in (fst z, of_nat (snd z)))"
proof -
  define n where "n = unat w"
  have n: "n < 65536" using unsigned_less [where 'a = nat, of w] by (simp add: n_def)
  have z: "w = 0 \<longleftrightarrow> n = 0" by (simp add: n_def unat_eq_zero)
  have f: "w = 0xFFFF \<longleftrightarrow> n = 65535" by (simp add: n_def word_unat_eq_iff)
  have hi: "(w AND 0x8000 \<noteq> 0) \<longleftrightarrow> 32768 \<le> n" using bit15 [of w] by (simp add: n_def not_less)
  have raw: "unat raw = n mod 32768"
    by (simp add: raw_def unat_ucast_16_32 mask15 n_def)
  have raw_eq: "raw = of_nat (n mod 32768)" using raw by (simp flip: raw)
  have sat: "raw = 0x7FFF \<longleftrightarrow> n mod 32768 = 32767" by (simp add: word_unat_eq_iff raw)
  have kb: "raw div 1024 = of_nat ((n mod 32768) div 1024)" by (simp add: word_arith_nat_div raw)
  have x: "x AND 0x7FFFFFFF = of_nat (unat x mod 2 ^ 31)" proof -
    have "x AND 0x7FFFFFFF = of_nat (unat (x AND 0x7FFFFFFF))" by simp
    then show ?thesis by (simp only: mask31)
  qed
  have m: "n mod 32768 = (if n < 32768 then n else n - 32768)" using n by (simp add: mod_if)
  show ?thesis
    unfolding z f hi sat kb x n_def [symmetric]
    using n by (auto simp: size_spec_def m raw_eq Let_def)
qed

lemma memory_device_size_eq:
  assumes "e \<le> length buf" and "s + unat hlen \<le> e"
  shows "memory_device_size buf s hlen =
    (let z = size_spec (unat (size_word buf s hlen)) (map_option unat (size_ext buf s hlen)) in
     Some (fst z, of_nat (snd z)))"
proof -
  have w: "(if FIELD_OK hlen 0x0D then rd16 buf (s + 0x0C) else Some 0) = Some (size_word buf s hlen)"
    using assms by (auto simp: FIELD_OK_def size_word_def)
  have x: "0x20 \<le> hlen \<Longrightarrow> rd32 buf (s + 0x1C) = Some (le_word (take 4 (drop (s + 0x1C) buf)))"
    using assms by (simp add: word_le_nat_alt)
  show ?thesis
    using size_words [of "size_word buf s hlen" "0x20 \<le> hlen" "le_word (take 4 (drop (s + 0x1C) buf))"]
    unfolding memory_device_size_def w
    by (auto simp: Let_def x size_ext_def split: if_splits)
qed

lemma size_spec_bounds:
  "snd (size_spec (unat (w :: u16)) x) < 2 ^ 31 \<and> (\<not> fst (size_spec (unat w) x) \<longrightarrow> snd (size_spec (unat w) x) = 0)"
proof -
  have "unat w < 65536" using unsigned_less [where 'a = nat, of w] by simp
  then show ?thesis by (auto simp: size_spec_def split: option.splits)
qed

lemma memory_device_size_in:
  assumes "e \<le> length buf" and "s + unat hlen \<le> e"
  shows "\<exists>r. memory_device_size buf s hlen = Some r \<and> snd r \<le> 0x7FFFFFFF \<and> (\<not> fst r \<longrightarrow> snd r = 0)"
proof -
  let ?z = "size_spec (unat (size_word buf s hlen)) (map_option unat (size_ext buf s hlen))"
  have "(of_nat (snd ?z) :: u32) \<le> 0x7FFFFFFF"
    using size_spec_bounds [of "size_word buf s hlen" "map_option unat (size_ext buf s hlen)"]
    by (simp add: word_le_nat_alt unat_of_nat order.trans [OF mod_less_eq_dividend])
  with size_spec_bounds [of "size_word buf s hlen" "map_option unat (size_ext buf s hlen)"]
  show ?thesis by (simp add: memory_device_size_eq [OF assms] Let_def)
qed

lemma memory_device0_ok: "memory_device_ok memory_device0"
  by (simp add: memory_device_ok_def memory_device0_def)

lemma parse_memory_device_in:
  assumes "e \<le> length buf" and "s + unat hlen \<le> e" and "smbios_ok out"
  shows "\<exists>d. parse_memory_device buf s hlen e out = Some d \<and> smbios_ok d"
proof (cases "SMBIOS_MAX_MEMORY_DEVICES \<le> length (sm_memory_devices out)")
  case True
  with assms(3) show ?thesis by (simp add: parse_memory_device_def)
next
  case False
  obtain r where pz: "memory_device_size buf s hlen = Some r" "snd r \<le> 0x7FFFFFFF"
      "\<not> fst r \<longrightarrow> snd r = 0"
    using memory_device_size_in [OF assms(1,2)] by blast
  obtain t where t: "(if FIELD_OK hlen 0x12 then rd8 buf (s + 0x12)
      else Some (md_memory_type memory_device0)) = Some t"
    using assms(1,2) by (cases "FIELD_OK hlen 0x12") (auto simp: FIELD_OK_def)
  obtain sp where sp: "(if 0x17 \<le> hlen then map_option ucast (rd16 buf (s + 0x15))
      else Some (md_speed_mts memory_device0)) = Some (sp :: u32)"
    using assms(1,2) by (cases "0x17 \<le> hlen") (auto simp: word_le_nat_alt)
  obtain cs where cs: "(if 0x26 \<le> hlen then map_option ucast (rd16 buf (s + 0x24))
      else Some (md_configured_speed_mts memory_device0)) = Some (cs :: u32)"
    using assms(1,2) by (cases "0x26 \<le> hlen") (auto simp: word_le_nat_alt)
  show ?thesis
    using False assms memory_device0_ok pz
    by (simp add: parse_memory_device_def pz t sp cs memory_device_ok_def smbios_ok_def)
qed

lemma dispatch_in:
  assumes "e \<le> length buf" and "s + unat hlen \<le> e" and "smbios_ok out"
  shows "\<exists>d. dispatch buf ty s hlen e out = Some d \<and> smbios_ok d"
proof -
  have ok: "bios_ok (sm_bios out)" "system_ok (sm_system out)" "baseboard_ok (sm_baseboard out)"
      "chassis_ok (sm_chassis out)"
    using assms(3) by (simp_all add: smbios_ok_def)
  consider "ty = 0" | "ty = 1" | "ty = 2" | "ty = 3" | "ty = 17" | "ty \<notin> {0, 1, 2, 3, 17}"
    by blast
  then show ?thesis
  proof cases
    case 1
    then show ?thesis
      using parse_bios_in [OF assms(1,2) ok(1)] assms(3) by (auto simp: dispatch_def smbios_ok_def)
  next
    case 2
    then show ?thesis
      using parse_system_in [OF assms(1,2) ok(2)] assms(3)
      by (fastforce simp: dispatch_def smbios_ok_def)
  next
    case 3
    then show ?thesis
      using parse_baseboard_in [OF assms(1,2) ok(3)] assms(3)
      by (auto simp: dispatch_def smbios_ok_def)
  next
    case 4
    then show ?thesis
      using parse_chassis_in [OF assms(1,2) ok(4)] assms(3)
      by (auto simp: dispatch_def smbios_ok_def)
  next
    case 5
    then show ?thesis
      using parse_memory_device_in [OF assms] by (simp add: dispatch_def)
  next
    case 6
    then show ?thesis
      using assms(3) by (simp add: dispatch_def)
  qed
qed

end
