(* ===== verification/Smbios_Correct.thy ===== *)
theory Smbios_Correct
  imports Smbios
begin

text \<open>
  Correctness of \<open>smbios.c\<close>: its loop as a client of the structure walk, memory safety of the
  whole parse, the counters, and the functional result on a well-formed table.
\<close>

section \<open>The loop is a client of the walk\<close>

definition smbios_visit :: "bytes \<Rightarrow> nat \<Rightarrow> nat \<Rightarrow> SmbiosData \<Rightarrow> SmbiosData option" where
  "smbios_visit buf e cur out =
     map_option count_parsed (dispatch buf (buf ! cur) cur (buf ! (cur + 1)) e out)"

definition smbios_stop :: "walk_end \<Rightarrow> SmbiosData \<Rightarrow> SmbiosData" where
  "smbios_stop w out = (if w = BadHeader \<or> w = BadStrings then count_malformed out else out)"

lemma smbios_ok_counts [simp]:
  "smbios_ok (count_parsed d) = smbios_ok d" "smbios_ok (count_malformed d) = smbios_ok d"
  by (simp_all add: smbios_ok_def count_parsed_def count_malformed_def)

lemma smbios_loop_unfold:
  assumes "e \<le> length buf"
  shows "smbios_loop buf e cur s =
    (if cur + 4 \<le> e \<and> True then
       (let hlen = unat (buf ! (cur + 1)) in
        if hlen < 4 \<or> e < cur + hlen then Some (smbios_stop BadHeader s)
        else if buf ! cur = 127 then Some (smbios_stop EndMarker s)
        else do { s' \<leftarrow> smbios_visit buf e cur s;
                  case next_pos buf e (cur + hlen) of
                    None \<Rightarrow> Some (smbios_stop BadStrings s')
                  | Some n \<Rightarrow> smbios_loop buf e n s' })
     else Some s)"
proof (cases "cur + 4 \<le> e")
  case False
  then show ?thesis by (subst smbios_loop.simps) simp
next
  case True
  define hlen where "hlen = buf ! Suc cur"
  have rd: "rd8 buf cur = Some (buf ! cur)" "rd8 buf (Suc cur) = Some hlen"
    using True assms by (simp_all add: hlen_def)
  show ?thesis
  proof (cases "unat hlen < 4 \<or> e < cur + unat hlen \<or> buf ! cur = 127")
    case stop: True
    then show ?thesis
      using True by (subst smbios_loop.simps)
        (auto simp: rd smbios_stop_def Let_def word_less_nat_alt simp flip: hlen_def)
  next
    case False
    then have nx: "smbios_next_structure buf cur (unat hlen) e =
        Some (cptr_of (next_pos buf e (cur + unat hlen)))"
      using assms by (intro smbios_next_structure_eq) simp_all
    have gt: "\<not> n \<le> cur" if "next_pos buf e (cur + unat hlen) = Some n" for n
      using next_pos_gt [OF that] by simp
    have "\<not> (hlen < 4 \<or> e < cur + unat hlen)" "buf ! cur \<noteq> 127"
      using False by (simp_all add: word_less_nat_alt)
    then show ?thesis
      using True False
      by (subst smbios_loop.simps)
        (auto simp: rd nx smbios_visit_def smbios_stop_def Let_def cptr_of_def gt
            bind_map_then simp flip: hlen_def split: option.splits)
  qed
qed

interpretation sb: structure_client smbios_loop smbios_visit "\<lambda>_. True" smbios_stop smbios_ok
proof unfold_locales
  fix e :: nat and buf :: bytes and cur :: nat and s :: SmbiosData
  assume "e \<le> length buf"
  then show "smbios_loop buf e cur s =
      (if cur + 4 \<le> e \<and> True then
         (let hlen = unat (buf ! (cur + 1)) in
          if hlen < 4 \<or> e < cur + hlen then Some (smbios_stop BadHeader s)
          else if buf ! cur = 127 then Some (smbios_stop EndMarker s)
          else do { s' \<leftarrow> smbios_visit buf e cur s;
                    case next_pos buf e (cur + hlen) of
                      None \<Rightarrow> Some (smbios_stop BadStrings s')
                    | Some n \<Rightarrow> smbios_loop buf e n s' })
       else Some s)"
    by (rule smbios_loop_unfold)
next
  fix e :: nat and buf :: bytes and cur :: nat and s :: SmbiosData
  assume "e \<le> length buf" "cur + unat (buf ! (cur + 1)) \<le> e" "smbios_ok s"
  from dispatch_in [OF this, of "buf ! cur"]
  show "\<exists>s'. smbios_visit buf e cur s = Some s' \<and> smbios_ok s'"
    by (auto simp: smbios_visit_def)
qed (simp_all add: smbios_stop_def)

section \<open>Memory safety\<close>

lemma smbios0_ok: "smbios_ok (smbios0\<lparr>sm_major_version := a, sm_minor_version := b\<rparr>)"
  by (simp add: smbios_ok_def smbios0_def ok_defs)

text \<open>The end of the table the code works with lies inside the buffer.\<close>

definition table_end :: "bytes \<Rightarrow> nat \<Rightarrow> nat" where
  "table_end raw raw_size = min raw_size (8 + unat (le_word (take 4 (drop 4 raw)) :: u32))"

definition smbios_init :: "bytes \<Rightarrow> SmbiosData" where
  "smbios_init raw = smbios0\<lparr>sm_major_version := raw ! 1, sm_minor_version := raw ! 2\<rparr>"

lemma smbios_parse_eq:
  assumes "8 \<le> raw_size" and "raw_size \<le> length raw"
  shows "smbios_parse raw raw_size =
    map_option (\<lambda>out. Some (out\<lparr>sm_available := (0 < sm_structures_parsed out)\<rparr>))
      (smbios_loop raw (table_end raw raw_size) 8 (smbios_init raw))"
proof -
  have te: "8 + (if raw_size < 8 + n then raw_size - 8 else n) = min raw_size (8 + n)" for n
    using assms by auto
  have len: "2 < length raw" "4 + 4 \<le> length raw" using assms by simp_all
  show ?thesis
    using assms(1) len
    by (simp add: smbios_parse_def smbios_init_def Let_def table_end_def te)
      (rule option.exhaust [of "smbios_loop raw (min raw_size (8 + unat (le_word (take 4 (drop 4 raw)) :: u32)))
        8 (smbios0\<lparr>sm_major_version := raw ! Suc 0, sm_minor_version := raw ! 2\<rparr>)"], simp_all)
qed

lemma smbios_parse_in:
  assumes "raw_size \<le> length raw"
  shows "\<exists>r. smbios_parse raw raw_size = Some r \<and>
    (case r of None \<Rightarrow> raw_size < 8 | Some d \<Rightarrow> 8 \<le> raw_size \<and> smbios_ok d)"
proof (cases "raw_size < 8")
  case True
  then show ?thesis by (simp add: smbios_parse_def)
next
  case False
  have "table_end raw raw_size \<le> length raw" using assms by (simp add: table_end_def)
  from sb.loop_safe [OF this, of "smbios_init raw" 8]
  obtain d where d: "smbios_loop raw (table_end raw raw_size) 8 (smbios_init raw) = Some d" "smbios_ok d"
    using smbios0_ok by (auto simp: smbios_init_def)
  moreover from d(2) have "smbios_ok (d\<lparr>sm_available := (0 < sm_structures_parsed d)\<rparr>)"
    by (simp add: smbios_ok_def)
  ultimately show ?thesis
    using False assms by (simp add: smbios_parse_eq)
qed

text \<open>
  C2. Memory safety of the SMBIOS parser. For every buffer and every size up to the
  buffer's length, whatever the bytes are, \<open>smbios_collect\<close>'s parse makes no read outside the
  buffer and no write outside an array of its result; it ends, and either refuses a table
  shorter than its header or returns data whose string arrays are all NUL-terminated, with at
  most 64 memory devices.
\<close>

theorem smbios_parse_safe:
  assumes "raw_size \<le> length raw"
  shows "\<exists>r. smbios_parse raw raw_size = Some r \<and>
    (case r of None \<Rightarrow> raw_size < 8 | Some d \<Rightarrow> 8 \<le> raw_size \<and> smbios_ok d)"
  by (rule smbios_parse_in [OF assms])

theorem smbios_parse_safe_witness:
  "\<exists>r. smbios_parse [0, 3, 2, 0, 4, 0, 0, 0, 0, 200, 1, 2] 12 = Some r \<and>
    (case r of None \<Rightarrow> (12::nat) < 8 | Some d \<Rightarrow> 8 \<le> (12::nat) \<and> smbios_ok d)"
  by (rule smbios_parse_safe) simp

section \<open>Structures, counters and strings\<close>

text \<open>
  C24. The structure loop is the walk: \<open>smbios_collect\<close>'s loop handles exactly the structures of
  \<open>walk\<close>, in order, and counts one malformed structure when the walk stopped at a bad header
  or at an unterminated string table. The test \<open>next <= cur\<close> of the code never fires.
\<close>

theorem smbios_loop_walk:
  "e \<le> length buf \<Longrightarrow> smbios_loop buf e cur out =
     visit_all (smbios_visit buf e) (\<lambda>_. True) smbios_stop (fst (walk buf e cur)) (snd (walk buf e cur)) out"
  by (rule sb.loop_visit_all)

theorem smbios_loop_walk_witness:
  "smbios_loop [2, 4, 0, 0, 0, 0, 5, 1] 8 0 smbios0 =
     visit_all (smbios_visit [2, 4, 0, 0, 0, 0, 5, 1] 8) (\<lambda>_. True) smbios_stop
       (fst (walk [2, 4, 0, 0, 0, 0, 5, 1] 8 0)) (snd (walk [2, 4, 0, 0, 0, 0, 5, 1] 8 0)) smbios0"
  by (rule smbios_loop_walk) simp

lemma dispatch_counts:
  "dispatch buf ty s hlen e out = Some d \<Longrightarrow>
     sm_structures_parsed d = sm_structures_parsed out \<and>
     sm_structures_malformed_skipped d = sm_structures_malformed_skipped out"
  by (auto simp: dispatch_def parse_memory_device_def Let_def bind_eq_Some_conv split: if_splits)

lemma visit_counts:
  "smbios_visit buf e p out = Some d \<Longrightarrow>
     sm_structures_parsed d = sm_structures_parsed out + 1 \<and>
     sm_structures_malformed_skipped d = sm_structures_malformed_skipped out"
  by (auto simp: smbios_visit_def count_parsed_def dest!: dispatch_counts)

lemma visits_counts:
  "visit_all (smbios_visit buf e) (\<lambda>_. True) smbios_stop ps w out = Some d \<Longrightarrow> (w = BadStrings \<longrightarrow> ps \<noteq> []) \<Longrightarrow>
     sm_structures_parsed d = sm_structures_parsed out + of_nat (length ps) \<and>
     sm_structures_malformed_skipped d =
       sm_structures_malformed_skipped out + (if w = BadHeader \<or> w = BadStrings then 1 else 0)"
proof (induction ps arbitrary: out)
  case Nil
  then show ?case by (auto simp: smbios_stop_def count_malformed_def)
next
  case (Cons p ps)
  from Cons.prems(1) obtain o1 where v: "smbios_visit buf e p out = Some o1"
    and r: "(if w = BadStrings \<and> ps = [] then Some (smbios_stop w o1)
             else visit_all (smbios_visit buf e) (\<lambda>_. True) smbios_stop ps w o1) = Some d"
    by (auto simp: bind_eq_Some_conv)
  show ?case
  proof (cases "w = BadStrings \<and> ps = []")
    case True
    with r visit_counts [OF v] show ?thesis
      by (auto simp: smbios_stop_def count_malformed_def)
  next
    case False
    with r have "visit_all (smbios_visit buf e) (\<lambda>_. True) smbios_stop ps w o1 = Some d"
      by (simp only: if_False)
    from Cons.IH [OF this] False visit_counts [OF v] show ?thesis
      by (simp add: add.assoc)
  qed
qed

text \<open>
  The counters of the report are truthful: \<open>structures_parsed\<close> is the number of structures
  the walk visits, \<open>structures_malformed_skipped\<close> is 1 when the walk stopped at a malformed
  structure and 0 otherwise, and the data is available exactly when a structure was parsed.
\<close>

theorem smbios_counters:
  assumes "raw_size \<le> length raw" and "smbios_parse raw raw_size = Some (Some d)"
  shows "sm_structures_parsed d = of_nat (length (fst (walk raw (table_end raw raw_size) 8))) \<and>
    sm_structures_malformed_skipped d =
      (if snd (walk raw (table_end raw raw_size) 8) \<in> {BadHeader, BadStrings} then 1 else 0) \<and>
    (sm_available d \<longleftrightarrow> 0 < sm_structures_parsed d)"
proof -
  have ge: "8 \<le> raw_size" using assms(2) by (rule contrapos_pp) (simp add: smbios_parse_def)
  have te: "table_end raw raw_size \<le> length raw" using assms(1) by (simp add: table_end_def)
  from assms(2) obtain d0 where
    l: "smbios_loop raw (table_end raw raw_size) 8 (smbios_init raw) = Some d0"
    and d: "d = d0\<lparr>sm_available := (0 < sm_structures_parsed d0)\<rparr>"
    by (auto simp: smbios_parse_eq [OF ge assms(1)])
  from visits_counts [OF l [unfolded sb.loop_visit_all [OF te]]] walk_BadStrings
  show ?thesis by (auto simp: d smbios_init_def smbios0_def)
qed

theorem smbios_counters_witness:
  "\<exists>d. smbios_parse [0, 3, 2, 0, 6, 0, 0, 0, 9, 4, 0, 0, 0, 0] 14 = Some (Some d) \<and>
     sm_structures_parsed d = 1 \<and> sm_available d"
proof -
  let ?raw = "[0, 3, 2, 0, 6, 0, 0, 0, 9, 4, 0, 0, 0, 0] :: bytes"
  have w: "walk ?raw (table_end ?raw 14) 8 = ([8], TableEnd)"
    by (simp add: table_end_def walk.simps next_pos_def)
  from smbios_parse_in [of 14 ?raw] obtain d where d: "smbios_parse ?raw 14 = Some (Some d)"
    by (auto split: option.splits)
  have "(14 :: nat) \<le> length ?raw" by simp
  from smbios_counters [OF this d] have "sm_structures_parsed d = 1" "sm_available d"
    by (simp_all add: w)
  with d show ?thesis by blast
qed

lemma string_at_Suc:
  "string_at area (Suc k) =
     (let n = length (takeWhile (\<lambda>b. b \<noteq> 0) area) in
      if n = length area \<or> n = 0 then None
      else if k = 0 then Some (takeWhile (\<lambda>b. b \<noteq> 0) area)
      else string_at (drop (n + 1) area) k)"
  by (auto simp: string_at_def Let_def option.map_comp comp_def add.commute add.left_commute)

lemma string_at_concat:
  "\<forall>s \<in> set ss. s \<noteq> [] \<and> 0 \<notin> set s \<Longrightarrow>
     string_at (concat (map (\<lambda>s. s @ [0]) ss) @ 0 # rest) (Suc k) = (if k < length ss then Some (ss ! k) else None)"
proof (induction ss arbitrary: k)
  case Nil
  show ?case by (simp add: string_at_Suc)
next
  case (Cons s ss)
  let ?tail = "concat (map (\<lambda>s. s @ [0]) ss) @ 0 # rest"
  have s: "s \<noteq> []" "takeWhile (\<lambda>b. b \<noteq> 0) (s @ 0 # ?tail) = s"
    using Cons.prems cstr_append [of s ?tail] by (simp_all add: cstr_def)
  have d: "drop (length s + 1) (s @ 0 # ?tail) = ?tail" by simp
  have "string_at (s @ 0 # ?tail) (Suc k) = (if k = 0 then Some s else string_at ?tail k)"
    unfolding string_at_Suc s(2) Let_def d using s(1) by simp
  then show ?case
    using Cons.IH [of "k - 1"] Cons.prems by (cases k) simp_all
qed

lemma string_at_encode:
  "\<forall>s \<in> set ss. s \<noteq> [] \<and> 0 \<notin> set s \<Longrightarrow>
     string_at (encode_strings ss @ rest) k = (if 1 \<le> k \<and> k \<le> length ss then Some (ss ! (k - 1)) else None)"
  using string_at_concat [of ss rest "k - 1"] string_at_concat [of "[]" "0 # rest" "k - 1"]
  by (cases k) (auto simp: encode_strings_def string_at_def [of _ 0])

text \<open>A structure in place: its bytes and its string area inside a table that may continue.\<close>

definition placed :: "smb_struct \<Rightarrow> bytes \<Rightarrow> nat \<Rightarrow> nat \<Rightarrow> bool" where
  "placed st buf p e \<longleftrightarrow> wf_struct st \<and> p + length (encode_struct st) \<le> e \<and> e \<le> length buf \<and>
     take (length (encode_struct st)) (drop p buf) = encode_struct st"

lemma placed_append:
  "wf_struct st \<Longrightarrow> buf = pre @ encode_struct st @ post \<Longrightarrow> length pre + length (encode_struct st) \<le> e \<Longrightarrow>
     e \<le> length buf \<Longrightarrow> placed st buf (length pre) e"
  by (simp add: placed_def)

lemma placed_bytes:
  assumes "placed st buf p e" and "off + n \<le> length (st_formatted st)"
  shows "take n (drop (p + off) buf) = take n (drop off (st_formatted st))"
proof -
  let ?m = "length (encode_struct st)"
  have "n \<le> ?m - off" using assms(2) by (simp add: encode_struct_def)
  then have "take n (drop (p + off) buf) = take n (drop off (take ?m (drop p buf)))"
    by (simp add: drop_take min.absorb1 add.commute)
  also have "\<dots> = take n (drop off (encode_struct st))"
    using assms(1) by (simp add: placed_def)
  also have "\<dots> = take n (drop off (st_formatted st))"
    using assms(2) by (simp add: encode_struct_def)
  finally show ?thesis .
qed

lemma placed_nth:
  assumes "placed st buf p e" and "off < length (st_formatted st)"
  shows "buf ! (p + off) = st_formatted st ! off"
proof -
  have "p + off < length buf" using assms by (auto simp: placed_def encode_struct_def)
  then have "[buf ! (p + off)] = take 1 (drop (p + off) buf)"
    by (simp add: Cons_nth_drop_Suc [symmetric])
  also have "\<dots> = [st_formatted st ! off]"
    using placed_bytes [OF assms(1), of off 1] assms(2) by (simp add: Cons_nth_drop_Suc [symmetric])
  finally show ?thesis by simp
qed

lemma placed_header:
  assumes "placed st buf p e"
  shows "buf ! p = st_type st" and "buf ! Suc p = st_formatted st ! Suc 0"
    and "unat (st_formatted st ! Suc 0) = length (st_formatted st)" and "p + length (st_formatted st) \<le> e"
    and "e \<le> length buf" and "4 \<le> length (st_formatted st)"
proof -
  have wf: "wf_struct st" and len: "4 \<le> length (st_formatted st)"
    using assms by (simp_all add: placed_def wf_struct_def)
  then have ne: "0 < length (st_formatted st)" by linarith
  then show "buf ! p = st_type st" "buf ! Suc p = st_formatted st ! Suc 0"
    using placed_nth [OF assms, of 0] placed_nth [OF assms, of 1] len
    by (auto simp: st_type_def Suc_le_eq)
  show "unat (st_formatted st ! Suc 0) = length (st_formatted st)"
    using wf_struct_header [OF wf] by simp
  show "p + length (st_formatted st) \<le> e" "e \<le> length buf"
    using assms by (simp_all add: placed_def encode_struct_def)
  show "4 \<le> length (st_formatted st)" by (rule len)
qed

definition struct_string :: "smb_struct \<Rightarrow> nat \<Rightarrow> bytes" where
  "struct_string st k =
     (if 1 \<le> k \<and> k \<le> length (st_strings st) then st_strings st ! (k - 1) else [])"

lemma placed_area:
  assumes "placed st buf p e"
  shows "\<exists>rest. drop (p + length (st_formatted st)) (take e buf) = encode_strings (st_strings st) @ rest"
proof -
  let ?m = "length (encode_struct st)" and ?f = "length (st_formatted st)"
  have m: "p + ?m \<le> e" and t: "take ?m (drop p buf) = encode_struct st"
    using assms by (simp_all add: placed_def)
  have "drop p (take e buf) = take ?m (drop p buf) @ drop ?m (take (e - p) (drop p buf))"
  proof -
    have "take ?m (take (e - p) (drop p buf)) = take ?m (drop p buf)"
      using m by (simp add: min.absorb1)
    then show ?thesis
      using append_take_drop_id [of ?m "take (e - p) (drop p buf)"] by (simp add: drop_take)
  qed
  then have "drop ?f (drop p (take e buf)) =
      drop ?f (encode_struct st @ drop ?m (take (e - p) (drop p buf)))"
    by (simp only: t)
  then show ?thesis
    by (auto simp: encode_struct_def add.commute)
qed

lemma placed_string_at:
  assumes "placed st buf p e"
  shows "string_at (drop (p + length (st_formatted st)) (take e buf)) k =
    (if 1 \<le> k \<and> k \<le> length (st_strings st) then Some (st_strings st ! (k - 1)) else None)"
proof -
  obtain rest where "drop (p + length (st_formatted st)) (take e buf) = encode_strings (st_strings st) @ rest"
    using placed_area [OF assms] by blast
  moreover have "\<forall>s \<in> set (st_strings st). s \<noteq> [] \<and> 0 \<notin> set s"
    using assms by (simp add: placed_def wf_struct_def)
  ultimately show ?thesis by (simp only: string_at_encode)
qed

text \<open>
  String lookup is exact: on a well-formed structure anywhere in a table,
  \<open>smbios_get_string\<close> of a number between 1 and the number of strings returns a pointer to
  exactly that string, and of any other number (0 included) returns NULL, without a fault.
\<close>

theorem smbios_get_string_exact:
  assumes "placed st buf p e"
  shows "if 1 \<le> unat i \<and> unat i \<le> length (st_strings st)
    then \<exists>q. smbios_get_string buf p (length (st_formatted st)) e i = Some (At q) \<and>
             takeWhile (\<lambda>b. b \<noteq> 0) (drop q (take e buf)) = st_strings st ! (unat i - 1)
    else smbios_get_string buf p (length (st_formatted st)) e i = Some Null"
proof -
  have e: "e \<le> length buf" using assms by (simp add: placed_def)
  show ?thesis
    using placed_string_at [OF assms, of "unat i"]
    by (auto simp: smbios_get_string_eq [OF e] string_at_def ptr_at_def add.commute
        split: if_splits option.splits)
qed

theorem smbios_get_string_exact_witness:
  "\<exists>q. smbios_get_string [0, 5, 0, 0, 2, 65, 0, 66, 67, 0, 0, 9] 0 5 12 2 = Some (At q) \<and>
     takeWhile (\<lambda>b. b \<noteq> 0) (drop q (take 12 [0, 5, 0, 0, 2, 65, 0, 66, 67, 0, 0, 9])) = ([66, 67] :: bytes)"
proof -
  let ?st = "\<lparr>st_formatted = [0, 5, 0, 0, 2], st_strings = [[65], [66, 67]]\<rparr>"
  have pl: "placed ?st [0, 5, 0, 0, 2, 65, 0, 66, 67, 0, 0, 9] 0 12"
    by (simp add: placed_def wf_struct_def encode_struct_def encode_strings_def)
  have len: "length (st_formatted ?st) = 5" by simp
  have c: "1 \<le> unat (2 :: u8) \<and> unat (2 :: u8) \<le> length (st_strings ?st)" by simp
  have s: "st_strings ?st ! (unat (2 :: u8) - 1) = [66, 67]" by simp
  show ?thesis
    using smbios_get_string_exact [OF pl, of 2] by (simp only: len s if_P [OF c])
qed

section \<open>The abstract meaning of a structure\<close>

text \<open>
  What the report should say of one structure, stated on the structure itself: a text field is
  the named string cut to the array, a number is present exactly when it fits in the formatted
  area, the size is \<open>size_spec\<close>.
\<close>

definition spec_text :: "smb_struct \<Rightarrow> nat \<Rightarrow> bytes \<Rightarrow> bytes" where
  "spec_text st off out =
     (if off < length (st_formatted st)
      then put_cstr out (take (length out - 1) (struct_string st (unat (st_formatted st ! off))))
      else out)"

definition spec_num :: "nat \<Rightarrow> smb_struct \<Rightarrow> nat \<Rightarrow> 'a::len word option" where
  "spec_num n st off =
     (if off + n \<le> length (st_formatted st) then Some (le_word (take n (drop off (st_formatted st)))) else None)"

definition or_zero :: "'a::len word option \<Rightarrow> 'a word" where
  "or_zero x = (case x of None \<Rightarrow> 0 | Some w \<Rightarrow> w)"

definition spec_bios :: "smb_struct \<Rightarrow> SmbiosBiosInfo \<Rightarrow> SmbiosBiosInfo" where
  "spec_bios st b = b\<lparr>bios_available := True, bios_vendor := spec_text st 0x04 (bios_vendor b),
     bios_version := spec_text st 0x05 (bios_version b),
     bios_release_date := spec_text st 0x08 (bios_release_date b)\<rparr>"

definition spec_system :: "u8 \<Rightarrow> u8 \<Rightarrow> smb_struct \<Rightarrow> SmbiosSystemInfo \<Rightarrow> SmbiosSystemInfo" where
  "spec_system major minor st x =
     (let x = x\<lparr>sys_available := True, sys_manufacturer := spec_text st 0x04 (sys_manufacturer x),
            sys_product := spec_text st 0x05 (sys_product x),
            sys_version := spec_text st 0x06 (sys_version x),
            sys_serial := spec_text st 0x07 (sys_serial x)\<rparr> in
      if 0x08 + 16 \<le> length (st_formatted st)
      then x\<lparr>sys_uuid := format_uuid (take 16 (drop 0x08 (st_formatted st))) major minor,
             sys_uuid_available := True\<rparr> else x)"

definition spec_baseboard :: "smb_struct \<Rightarrow> SmbiosBaseboardInfo \<Rightarrow> SmbiosBaseboardInfo" where
  "spec_baseboard st x = x\<lparr>bb_available := True,
     bb_manufacturer := spec_text st 0x04 (bb_manufacturer x),
     bb_product := spec_text st 0x05 (bb_product x), bb_version := spec_text st 0x06 (bb_version x),
     bb_serial := spec_text st 0x07 (bb_serial x)\<rparr>"

definition spec_chassis :: "smb_struct \<Rightarrow> SmbiosChassisInfo \<Rightarrow> SmbiosChassisInfo" where
  "spec_chassis st x = x\<lparr>ch_available := True,
     ch_manufacturer := spec_text st 0x04 (ch_manufacturer x),
     ch_chassis_type := (if 0x05 < length (st_formatted st) then st_formatted st ! 0x05 AND 0x7F
                         else ch_chassis_type x),
     ch_serial := spec_text st 0x07 (ch_serial x)\<rparr>"

definition spec_memory_device :: "smb_struct \<Rightarrow> SmbiosMemoryDevice" where
  "spec_memory_device st =
     (let z = size_spec (unat (or_zero (spec_num 2 st 0x0C :: u16 option)))
                (map_option unat (spec_num 4 st 0x1C :: u32 option)) in
      \<lparr>md_populated = fst z, md_size_mb = of_nat (snd z),
       md_speed_mts = ucast (or_zero (spec_num 2 st 0x15 :: u16 option)),
       md_configured_speed_mts = ucast (or_zero (spec_num 2 st 0x24 :: u16 option)),
       md_memory_type = (if 0x12 < length (st_formatted st) then st_formatted st ! 0x12 else 0),
       md_manufacturer = spec_text st 0x17 str0, md_part_number = spec_text st 0x1A str0,
       md_serial = spec_text st 0x18 str0, md_locator = spec_text st 0x10 str0\<rparr>)"

definition spec_struct :: "smb_struct \<Rightarrow> SmbiosData \<Rightarrow> SmbiosData" where
  "spec_struct st d =
     (if st_type st = 0 then d\<lparr>sm_bios := spec_bios st (sm_bios d)\<rparr>
      else if st_type st = 1 then d\<lparr>sm_system :=
        spec_system (sm_major_version d) (sm_minor_version d) st (sm_system d)\<rparr>
      else if st_type st = 2 then d\<lparr>sm_baseboard := spec_baseboard st (sm_baseboard d)\<rparr>
      else if st_type st = 3 then d\<lparr>sm_chassis := spec_chassis st (sm_chassis d)\<rparr>
      else if st_type st = 17 \<and> length (sm_memory_devices d) < SMBIOS_MAX_MEMORY_DEVICES
        then d\<lparr>sm_memory_devices := sm_memory_devices d @ [spec_memory_device st]\<rparr>
      else d)"

lemma field_val_spec:
  assumes "placed st buf p e"
  shows "field_val buf p (st_formatted st ! Suc 0) e off out = spec_text st off out"
proof (cases "off < length (st_formatted st)")
  case True
  then have "buf ! (p + off) = st_formatted st ! off" by (rule placed_nth [OF assms])
  with True show ?thesis
    by (simp add: field_val_def spec_text_def FIELD_OK_def placed_header(3) [OF assms]
        field_chars_def placed_string_at [OF assms] struct_string_def)
next
  case False
  then show ?thesis
    by (simp add: field_val_def spec_text_def FIELD_OK_def placed_header(3) [OF assms])
qed

lemma string_field_spec:
  assumes "placed st buf p e" and "out \<noteq> []"
  shows "string_field buf p (st_formatted st ! Suc 0) e off out = Some (spec_text st off out)"
  using string_field_eq [of e buf p "st_formatted st ! Suc 0" out off] assms
    placed_header(3,4,5) [OF assms(1)] by (simp add: field_val_spec)

lemma parse_bios_spec:
  "placed st buf p e \<Longrightarrow> bios_ok b \<Longrightarrow>
     parse_bios buf p (st_formatted st ! Suc 0) e b = Some (spec_bios st b)"
  by (simp add: parse_bios_def spec_bios_def string_field_spec bios_ok_def)

lemma parse_baseboard_spec:
  "placed st buf p e \<Longrightarrow> baseboard_ok x \<Longrightarrow>
     parse_baseboard buf p (st_formatted st ! Suc 0) e x = Some (spec_baseboard st x)"
  by (simp add: parse_baseboard_def spec_baseboard_def string_field_spec baseboard_ok_def)

lemma parse_chassis_spec:
  assumes "placed st buf p e" and "chassis_ok x"
  shows "parse_chassis buf p (st_formatted st ! Suc 0) e x = Some (spec_chassis st x)"
proof -
  have "p + 5 < length buf" "buf ! (p + 5) = st_formatted st ! 5" if "5 < length (st_formatted st)"
    using placed_header(4,5) [OF assms(1)] placed_nth [OF assms(1) that] that by simp_all
  with assms show ?thesis
    by (simp add: parse_chassis_def spec_chassis_def string_field_spec chassis_ok_def FIELD_OK_def
        placed_header(3) [OF assms(1)])
qed

lemma parse_system_spec:
  assumes "placed st buf p e" and "system_ok x"
  shows "parse_system buf p (st_formatted st ! Suc 0) e major minor x = Some (spec_system major minor st x)"
proof -
  have "rd_bytes buf (p + 8) 16 = Some (take 16 (drop 8 (st_formatted st)))"
    if "24 \<le> length (st_formatted st)"
    using placed_header(4,5) [OF assms(1)] placed_bytes [OF assms(1), of 8 16] that by simp
  moreover have "24 \<le> st_formatted st ! Suc 0 \<longleftrightarrow> 24 \<le> length (st_formatted st)"
    using placed_header(3) [OF assms(1)] by (simp add: word_le_nat_alt)
  ultimately show ?thesis
    using assms
    by (auto simp: parse_system_def spec_system_def string_field_spec system_ok_def Let_def carray_def [of 37])
qed

lemma parse_memory_device_spec:
  assumes "placed st buf p e" and "length (sm_memory_devices d) < SMBIOS_MAX_MEMORY_DEVICES"
  shows "parse_memory_device buf p (st_formatted st ! Suc 0) e d =
    Some (d\<lparr>sm_memory_devices := sm_memory_devices d @ [spec_memory_device st]\<rparr>)"
proof -
  let ?h = "st_formatted st ! Suc 0" and ?f = "length (st_formatted st)"
  note hd = placed_header [OF assms(1)]
  have in_buf: "off + n \<le> ?f \<Longrightarrow> p + off + n \<le> length buf" for off n using hd(4,5) by simp
  have fok: "FIELD_OK ?h off \<longleftrightarrow> off < ?f" for off by (simp add: FIELD_OK_def hd(3))
  have le: "w \<le> ?h \<longleftrightarrow> unat w \<le> ?f" for w by (simp add: word_le_nat_alt hd(3))
  have size: "memory_device_size buf p ?h =
      (let z = size_spec (unat (or_zero (spec_num 2 st 0x0C :: u16 option)))
               (map_option unat (spec_num 4 st 0x1C :: u32 option)) in Some (fst z, of_nat (snd z)))"
  proof -
    have "size_word buf p ?h = or_zero (spec_num 2 st 0x0C)"
      using placed_bytes [OF assms(1), of 12 2] by (simp add: size_word_def or_zero_def spec_num_def fok)
    moreover have "size_ext buf p ?h = spec_num 4 st 0x1C"
      using placed_bytes [OF assms(1), of 28 4] by (simp add: size_ext_def spec_num_def le)
    ultimately show ?thesis
      using memory_device_size_eq [of e buf p ?h] hd(3,4,5) by simp
  qed
  have ty: "(if FIELD_OK ?h 0x12 then rd8 buf (p + 0x12) else Some (md_memory_type memory_device0))
      = Some (if 0x12 < ?f then st_formatted st ! 0x12 else 0)"
  proof -
    have "18 < ?f \<Longrightarrow> p + 18 < length buf" using hd(4,5) by simp
    then show ?thesis
      using placed_nth [OF assms(1), of 18] by (simp add: fok memory_device0_def)
  qed
  have sp: "(if 0x17 \<le> ?h then map_option ucast (rd16 buf (p + 0x15)) else Some (md_speed_mts memory_device0))
      = Some (ucast (or_zero (spec_num 2 st 0x15 :: u16 option)))"
    using in_buf [of 21 2] placed_bytes [OF assms(1), of 21 2]
    by (simp add: le or_zero_def spec_num_def memory_device0_def)
  have cs: "(if 0x26 \<le> ?h then map_option ucast (rd16 buf (p + 0x24))
      else Some (md_configured_speed_mts memory_device0))
      = Some (ucast (or_zero (spec_num 2 st 0x24 :: u16 option)))"
    using in_buf [of 36 2] placed_bytes [OF assms(1), of 36 2]
    by (simp add: le or_zero_def spec_num_def memory_device0_def)
  have s0: "md_locator memory_device0 = str0" "md_manufacturer memory_device0 = str0"
      "md_serial memory_device0 = str0" "md_part_number memory_device0 = str0" "str0 \<noteq> []"
    by (simp_all add: memory_device0_def zeros_def SMBIOS_STR_MAX_def)
  show ?thesis
    using assms
    by (simp add: parse_memory_device_def size ty sp cs string_field_spec s0 Let_def)
      (simp add: spec_memory_device_def memory_device0_def Let_def)
qed

lemma dispatch_spec:
  assumes "placed st buf p e" and "smbios_ok d"
  shows "dispatch buf (st_type st) p (st_formatted st ! Suc 0) e d = Some (spec_struct st d)"
proof -
  have ok: "bios_ok (sm_bios d)" "system_ok (sm_system d)" "baseboard_ok (sm_baseboard d)"
      "chassis_ok (sm_chassis d)"
    using assms(2) by (simp_all add: smbios_ok_def)
  have full: "\<not> length (sm_memory_devices d) < SMBIOS_MAX_MEMORY_DEVICES \<Longrightarrow>
      parse_memory_device buf p (st_formatted st ! Suc 0) e d = Some d"
    by (simp add: parse_memory_device_def)
  show ?thesis
    using assms(1) ok full
    by (auto simp: dispatch_def spec_struct_def parse_bios_spec parse_system_spec
        parse_baseboard_spec parse_chassis_spec parse_memory_device_spec)
qed

definition spec_visit :: "SmbiosData \<Rightarrow> smb_struct \<Rightarrow> SmbiosData" where
  "spec_visit d st = count_parsed (spec_struct st d)"

lemma visits_spec:
  assumes "\<forall>st \<in> set sts. wf_struct st" and "length pre + length (encode_table sts) \<le> e"
    and "e \<le> length buf" and "buf = pre @ encode_table sts @ post" and "smbios_ok d"
    and "w \<noteq> BadStrings"
  shows "visit_all (smbios_visit buf e) (\<lambda>_. True) smbios_stop (positions (length pre) sts) w d =
    Some (smbios_stop w (foldl spec_visit d sts))"
  using assms
proof (induction sts arbitrary: pre d)
  case Nil
  then show ?case by simp
next
  case (Cons st sts)
  have buf: "buf = pre @ encode_struct st @ (encode_table sts @ post)"
    using Cons.prems(4) by (simp add: encode_table_def)
  have pl: "placed st buf (length pre) e"
    using Cons.prems(1,2,3) by (intro placed_append [OF _ buf]) (simp_all add: encode_table_def)
  have v: "smbios_visit buf e (length pre) d = Some (spec_visit d st)"
    using placed_header(1,2) [OF pl] dispatch_spec [OF pl Cons.prems(5)]
    by (simp add: smbios_visit_def spec_visit_def)
  have "smbios_ok (spec_visit d st)"
    using dispatch_in [of e buf "length pre" "st_formatted st ! Suc 0" d "st_type st"]
      placed_header(3,4,5) [OF pl] dispatch_spec [OF pl Cons.prems(5)] Cons.prems(5)
    by (simp add: spec_visit_def)
  then have "visit_all (smbios_visit buf e) (\<lambda>_. True) smbios_stop
      (positions (length (pre @ encode_struct st)) sts) w (spec_visit d st) =
      Some (smbios_stop w (foldl spec_visit (spec_visit d st) sts))"
    using Cons.prems buf by (intro Cons.IH) (simp_all add: encode_table_def add.assoc)
  with v Cons.prems(6) show ?case by simp
qed

text \<open>A raw table as the platform hands it over: the 8-byte header, then the structures.\<close>

definition raw_table :: "u8 \<Rightarrow> u8 \<Rightarrow> smb_struct list \<Rightarrow> bytes" where
  "raw_table major minor sts =
     [0, major, minor, 0] @ le_bytes 4 (of_nat (length (encode_table sts)) :: u32) @ encode_table sts"

definition spec_report :: "u8 \<Rightarrow> u8 \<Rightarrow> smb_struct list \<Rightarrow> SmbiosData" where
  "spec_report major minor sts =
     (let d = foldl spec_visit (smbios0\<lparr>sm_major_version := major, sm_minor_version := minor\<rparr>)
                (takeWhile (\<lambda>st. st_type st \<noteq> 127) sts)
      in d\<lparr>sm_available := (0 < sm_structures_parsed d)\<rparr>)"

lemma encode_table_takeWhile:
  "encode_table sts = encode_table (takeWhile P sts) @ encode_table (dropWhile P sts)"
  by (metis concat_append encode_table_def map_append takeWhile_dropWhile_id)

text \<open>
  C1. The parser is functionally correct: on the encoding of any list of well-formed SMBIOS
  structures (of any types, with any strings), \<open>smbios_collect\<close> reports exactly what the
  structures say, up to the first end-of-table structure: every string field holds the string
  the structure names, cut to the array, every number is the structure's, and no structure
  leaks into another.
\<close>

theorem smbios_parse_correct:
  assumes "\<forall>st \<in> set sts. wf_struct st" and "length (encode_table sts) < 2 ^ 32"
  shows "smbios_parse (raw_table major minor sts) (length (raw_table major minor sts)) =
    Some (Some (spec_report major minor sts))"
proof -
  let ?raw = "raw_table major minor sts" and ?P = "\<lambda>st. st_type st \<noteq> 127"
  let ?pre = "[0, major, minor, 0] @ le_bytes 4 (of_nat (length (encode_table sts)) :: u32)"
  have raw: "?raw = ?pre @ encode_table sts @ []" by (simp add: raw_table_def)
  have pre: "length ?pre = 8" by simp
  have len: "length ?raw = 8 + length (encode_table sts)" by (simp add: raw_table_def)
  have "(le_word (take 4 (drop 4 ?raw)) :: u32) = of_nat (length (encode_table sts))"
    using le_word_le_bytes_full [of 4 "of_nat (length (encode_table sts)) :: u32"]
    by (simp add: raw_table_def)
  then have te: "table_end ?raw (length ?raw) = 8 + length (encode_table sts)"
    using assms(2) by (simp add: table_end_def len unat_of_nat)
  have init: "smbios_init ?raw = smbios0\<lparr>sm_major_version := major, sm_minor_version := minor\<rparr>"
    by (simp add: smbios_init_def raw_table_def)
  have wf: "\<forall>st \<in> set (takeWhile ?P sts). wf_struct st"
    using assms(1) by (auto dest: set_takeWhileD)
  have buf: "?raw = ?pre @ encode_table (takeWhile ?P sts) @ encode_table (dropWhile ?P sts)"
    using encode_table_takeWhile [of sts ?P] by (simp add: raw_table_def)
  define w where "w = (if \<exists>st \<in> set sts. st_type st = 127 then EndMarker else TableEnd)"
  have walk: "walk ?raw (8 + length (encode_table sts)) 8 = (positions 8 (takeWhile ?P sts), w)"
    using walk_encode [OF assms(1), of ?pre "[]"] unfolding raw [symmetric] pre w_def by simp
  have "smbios_loop ?raw (8 + length (encode_table sts)) 8 (smbios_init ?raw) =
      visit_all (smbios_visit ?raw (8 + length (encode_table sts))) (\<lambda>_. True) smbios_stop
        (positions (length ?pre) (takeWhile ?P sts)) w (smbios_init ?raw)"
    using sb.loop_visit_all [of "8 + length (encode_table sts)" ?raw 8 "smbios_init ?raw"] len
    unfolding walk pre by simp
  also have "\<dots> = Some (smbios_stop w (foldl spec_visit (smbios_init ?raw) (takeWhile ?P sts)))"
    using encode_table_takeWhile [of sts ?P] smbios0_ok len
    by (intro visits_spec [OF wf _ _ buf]) (simp_all add: init w_def)
  finally have loop: "smbios_loop ?raw (8 + length (encode_table sts)) 8 (smbios_init ?raw) =
      Some (foldl spec_visit (smbios_init ?raw) (takeWhile ?P sts))"
    by (simp add: smbios_stop_def w_def)
  have "8 \<le> length ?raw" by (simp add: len)
  from smbios_parse_eq [OF this order.refl, unfolded te loop] show ?thesis
    by (simp add: init spec_report_def Let_def)
qed

theorem smbios_parse_correct_witness:
  "smbios_parse
     (raw_table 3 2 [\<lparr>st_formatted = [0, 6, 0, 0, 2, 1], st_strings = [[49, 46, 48], [65, 77]]\<rparr>,
                     \<lparr>st_formatted = [127, 4, 0, 0], st_strings = []\<rparr>])
     (length (raw_table 3 2 [\<lparr>st_formatted = [0, 6, 0, 0, 2, 1], st_strings = [[49, 46, 48], [65, 77]]\<rparr>,
                     \<lparr>st_formatted = [127, 4, 0, 0], st_strings = []\<rparr>])) =
   Some (Some (spec_report 3 2
     [\<lparr>st_formatted = [0, 6, 0, 0, 2, 1], st_strings = [[49, 46, 48], [65, 77]]\<rparr>,
      \<lparr>st_formatted = [127, 4, 0, 0], st_strings = []\<rparr>])) \<and>
   cstr (bios_vendor (sm_bios (spec_report 3 2
     [\<lparr>st_formatted = [0, 6, 0, 0, 2, 1], st_strings = [[49, 46, 48], [65, 77]]\<rparr>,
      \<lparr>st_formatted = [127, 4, 0, 0], st_strings = []\<rparr>]))) = [65, 77]"
proof
  let ?sts = "[\<lparr>st_formatted = [0, 6, 0, 0, 2, 1], st_strings = [[49, 46, 48], [65, 77]]\<rparr>,
      \<lparr>st_formatted = [127, 4, 0, 0], st_strings = []\<rparr>]"
  show "smbios_parse (raw_table 3 2 ?sts) (length (raw_table 3 2 ?sts)) = Some (Some (spec_report 3 2 ?sts))"
    by (rule smbios_parse_correct)
      (simp_all add: wf_struct_def encode_table_def encode_struct_def encode_strings_def)
  show "cstr (bios_vendor (sm_bios (spec_report 3 2 ?sts))) = [65, 77]"
    by (simp add: spec_report_def spec_visit_def spec_struct_def spec_bios_def spec_text_def
        struct_string_def st_type_def count_parsed_def smbios0_def Let_def SMBIOS_STR_MAX_def)
qed

section \<open>Memory module sizes and UUIDs\<close>

text \<open>
  The size of a memory device is decided as the numbers say (\<open>size_spec\<close>): 0 is an empty
  slot, 0xFFFF an unknown size, a value below 0x8000 megabytes (0x7FFF the extended size when
  the structure has one), anything else kilobytes; no case is lost to the widths of the fields.
\<close>

theorem memory_device_size_meaning:
  assumes "e \<le> length buf" and "s + unat hlen \<le> e"
  shows "map_option (\<lambda>(p, z). (p, unat z)) (memory_device_size buf s hlen) =
    Some (size_spec (unat (size_word buf s hlen)) (map_option unat (size_ext buf s hlen)))"
proof -
  let ?z = "size_spec (unat (size_word buf s hlen)) (map_option unat (size_ext buf s hlen))"
  have "snd ?z < 2 ^ 32"
    using size_spec_bounds [of "size_word buf s hlen" "map_option unat (size_ext buf s hlen)"] by simp
  then have "unat (of_nat (snd ?z) :: u32) = snd ?z" by (simp add: unat_of_nat)
  then show ?thesis
    by (simp add: memory_device_size_eq [OF assms] Let_def)
qed

theorem memory_device_size_meaning_witness:
  "map_option (\<lambda>(p, z). (p, unat z)) (memory_device_size
     [17, 14, 0, 0, 0, 0, 0, 0, 0, 0, 0, 0, 0, 0x40, 0, 0] 0 14) = Some (True, 0x4000)"
  using memory_device_size_meaning
    [of 16 "[17, 14, 0, 0, 0, 0, 0, 0, 0, 0, 0, 0, 0, 0x40, 0, 0]" 0 14]
  by (simp add: size_spec_def size_word_def size_ext_def FIELD_OK_def)

lemma hex_digit_inj: "n < 16 \<Longrightarrow> m < 16 \<Longrightarrow> hex_digit n = hex_digit m \<Longrightarrow> n = m"
  unfolding hex_digit_def by (auto split: if_splits) (unat_arith, auto)+

lemma hex2_inj: "hex2 a = hex2 b \<Longrightarrow> a = b"
proof -
  have nib: "drop_bit 4 x < 16" "x AND 15 < 16" "unat x = 16 * unat (drop_bit 4 x) + unat (x AND 15)"
    for x :: u8
  proof -
    have m: "unat (x AND 15) = unat x mod 16"
      using unat_and_mask [of x 4] by (simp add: mask_eq_exp_minus_1)
    have d: "unat (drop_bit 4 x) = unat x div 16"
      by (simp only: unat_drop_bit_eq) (simp add: drop_bit_eq_div)
    show "drop_bit 4 x < 16" "x AND 15 < 16"
      using unsigned_less [where 'a = nat, of x] by (simp_all add: word_less_nat_alt m d)
    show "unat x = 16 * unat (drop_bit 4 x) + unat (x AND 15)"
      by (simp add: m d)
  qed
  assume "hex2 a = hex2 b"
  then have "hex_digit (drop_bit 4 a) = hex_digit (drop_bit 4 b)" "hex_digit (a AND 15) = hex_digit (b AND 15)"
    by (simp_all add: hex2_def)
  then have "drop_bit 4 a = drop_bit 4 b" "a AND 15 = b AND 15"
    using nib(1,2) by (blast intro: hex_digit_inj)+
  then show "a = b" using nib(3) [of a] nib(3) [of b] by (simp add: word_unat_eq_iff)
qed

lemma hex2_eq_iff [simp]: "hex2 a = hex2 b \<longleftrightarrow> a = b"
  using hex2_inj by blast

lemma hex2_append [simp]: "hex2 a @ xs = hex2 b @ ys \<longleftrightarrow> a = b \<and> xs = ys"
proof -
  have "length (hex2 a) = length (hex2 b)" by (simp add: hex2_def)
  then show ?thesis by simp
qed

text \<open>
  The printed UUID identifies the device: for one SMBIOS version, two 16-byte values give
  the same text only when they are equal. The text is 36 characters with dashes after 8, 12,
  16 and 20 digits, and fills its 37-byte array with the terminator last.
\<close>

theorem format_uuid_faithful:
  assumes "length u = 16" and "length v = 16"
  shows "(format_uuid u major minor = format_uuid v major minor \<longleftrightarrow> u = v) \<and>
    length (format_uuid u major minor) = 37 \<and> format_uuid u major minor ! 36 = 0 \<and>
    (\<forall>k \<in> {8, 13, 18, 23}. format_uuid u major minor ! k = 45)"
proof -
  have "format_uuid u major minor = format_uuid v major minor \<Longrightarrow> \<forall>k < 16. u ! k = v ! k"
    by (cases "2 < major \<or> major = 2 \<and> 6 \<le> minor")
      (auto simp: format_uuid_def uuid_order_def Let_def less_Suc_eq numeral_eq_Suc)
  then have "format_uuid u major minor = format_uuid v major minor \<Longrightarrow> u = v"
    using assms by (intro nth_equalityI) simp_all
  moreover have "format_uuid u major minor ! 36 = 0 \<and>
      (\<forall>k \<in> {8, 13, 18, 23}. format_uuid u major minor ! k = 45)"
    by (simp add: format_uuid_def hex2_def Let_def)
  ultimately show ?thesis by auto
qed

theorem format_uuid_faithful_witness:
  "format_uuid [1, 2, 3, 4, 5, 6, 7, 8, 9, 10, 11, 12, 13, 14, 15, 16] 2 6 ! 8 = 45 \<and>
   format_uuid [1, 2, 3, 4, 5, 6, 7, 8, 9, 10, 11, 12, 13, 14, 15, 16] 2 6 \<noteq>
   format_uuid [1, 2, 3, 4, 5, 6, 7, 8, 9, 10, 11, 12, 13, 14, 15, 17] 2 6"
  using format_uuid_faithful [of "[1, 2, 3, 4, 5, 6, 7, 8, 9, 10, 11, 12, 13, 14, 15, 16]"
      "[1, 2, 3, 4, 5, 6, 7, 8, 9, 10, 11, 12, 13, 14, 15, 17]" 2 6] by simp

section \<open>Where the next structure starts\<close>

text \<open>
  The search for the next structure is exact inside the string area: it returns the offset
  after the first two consecutive NUL bytes. The special case after the loop applies only when
  a single byte of string area is left, and then pairs it with the last byte of the formatted
  area, which is not part of the string table.
\<close>

theorem smbios_next_structure_exact:
  assumes "0 < hlen" and "e \<le> length buf" and "smbios_next_structure buf s hlen e = Some (At n)"
  shows "s + hlen + 2 \<le> n \<and> n \<le> e \<and> buf ! (n - 2) = 0 \<and> buf ! (n - 1) = 0 \<and>
      (\<forall>k. s + hlen \<le> k \<and> k + 2 < n \<longrightarrow> buf ! k \<noteq> 0 \<or> buf ! (k + 1) \<noteq> 0)
    \<or> n = e \<and> s + hlen + 1 = e \<and> buf ! (s + hlen) = 0 \<and> buf ! (s + hlen - 1) = 0"
proof -
  let ?p = "s + hlen"
  have np: "next_pos buf e ?p = Some n"
    using assms by (simp add: smbios_next_structure_eq cptr_of_def split: option.splits)
  show ?thesis
  proof (cases "?p + 1 < e")
    case False
    with np show ?thesis by (auto simp: next_pos_def split: if_splits)
  next
    case True
    with np obtain m where m: "skip_strings (drop ?p (take e buf)) = Some m" "n = ?p + m"
      by (auto simp: next_pos_def)
    have b: "2 \<le> m" "m \<le> e - ?p" using skip_strings_bounds [OF m(1)] assms(2) by simp_all
    have at: "drop ?p (take e buf) ! k = buf ! (?p + k)" if "k < e - ?p" for k
      using that assms(2) by simp
    have "buf ! (n - 2) = 0" "buf ! (n - 1) = 0"
      using skip_strings_sound [OF m(1)] at [of "m - 2"] at [of "m - 1"] b by (simp_all add: m(2))
    moreover have "buf ! k \<noteq> 0 \<or> buf ! (k + 1) \<noteq> 0" if "?p \<le> k" "k + 2 < n" for k
      using skip_strings_sound [OF m(1), THEN conjunct2, THEN conjunct2, rule_format, of "k - ?p"]
        at [of "k - ?p"] at [of "k - ?p + 1"] that b by (auto simp: m(2))
    ultimately show ?thesis using b by (auto simp: m(2))
  qed
qed

theorem smbios_next_structure_exact_witness:
  "(0::nat) + 4 + 2 \<le> 8 \<and> (8::nat) \<le> 9 \<and> [2, 4, 0, 0, 65, 66, 0, 0, 7 :: u8] ! (8 - 2) = 0 \<or>
   (8::nat) = 9"
  using smbios_next_structure_exact [of 4 9 "[2, 4, 0, 0, 65, 66, 0, 0, 7]" 0 8]
  by (simp add: smbios_next_structure_eq next_pos_def cptr_of_def)

text \<open>
  The special case accepts a string table of one byte: a structure whose formatted area ends
  in a zero byte, followed by one zero byte at the end of the table, is taken as terminated,
  although no two NUL bytes follow its formatted area; with any other last byte it is refused.
\<close>

theorem special_case_accepts_one_byte:
  "smbios_next_structure [2, 4, 0, 0, 0] 0 4 5 = Some (At 5) \<and>
   smbios_next_structure [2, 4, 0, 1, 0] 0 4 5 = Some Null"
  by (simp add: smbios_next_structure_eq next_pos_def cptr_of_def)

end
