(* ===== verification/Firmware_Table.thy ===== *)
theory Firmware_Table
  imports HW_Prelude
begin

text \<open>
  \<open>src/platform/windows/firmware_table.c\<close>: fetching raw firmware tables from the operating
  system into allocated buffers, and the contract its callers rely on (\<open>table_provider\<close>).

  The operating system is a parameter (\<open>os_firmware\<close>): what \<open>GetSystemFirmwareTable\<close> and
  \<open>EnumSystemFirmwareTables\<close> answer to the size query and to the fill call, and which
  allocations succeed. The two calls need not agree. A filled buffer holds the bytes the call
  stored, at most as many as it was given room for; the rest of the allocation is unspecified
  and never part of the reported size (the model puts zeros there).
\<close>

record os_firmware =
  fw_size :: "u32 \<Rightarrow> u32 \<Rightarrow> u32"
  fw_fill :: "u32 \<Rightarrow> u32 \<Rightarrow> u32 \<Rightarrow> u32 \<times> bytes"
  en_size :: "u32 \<Rightarrow> u32"
  en_fill :: "u32 \<Rightarrow> u32 \<Rightarrow> u32 \<times> bytes"
  alloc_ok :: "nat \<Rightarrow> bool"

text \<open>A table handed to a caller: the block that holds it, its bytes, the reported size.\<close>

type_synonym table_block = "nat \<times> bytes \<times> nat"

definition fill_block :: "nat \<Rightarrow> bytes \<Rightarrow> bytes" where
  "fill_block n data = take n (data @ zeros n)"

lemma length_fill_block [simp]: "length (fill_block n data) = n"
  by (simp add: fill_block_def)

text \<open>The multi-character constants 'RSMB' and 'ACPI'.\<close>

definition RSMB :: u32 where "RSMB = 0x52534D42"
definition ACPI :: u32 where "ACPI = 0x41435049"

definition platform_get_smbios_table ::
    "os_firmware \<Rightarrow> heap \<Rightarrow> (table_block option \<times> heap) option" where
  "platform_get_smbios_table os h =
     (let needed = fw_size os RSMB 0 in
      if needed = 0 then Some (None, h)
      else case h_malloc (alloc_ok os) h of
        (None, h) \<Rightarrow> Some (None, h)
      | (Some buf, h) \<Rightarrow>
          (case fw_fill os RSMB 0 needed of (written, data) \<Rightarrow>
             if written = 0 \<or> needed < written
             then do { h \<leftarrow> h_free buf h; Some (None, h) }
             else Some (Some (buf, fill_block (unat needed) data, unat written), h)))"

definition platform_get_acpi_table ::
    "os_firmware \<Rightarrow> u32 \<Rightarrow> heap \<Rightarrow> (table_block option \<times> heap) option" where
  "platform_get_acpi_table os signature h =
     (let needed = fw_size os ACPI signature in
      if needed = 0 then Some (None, h)
      else case h_malloc (alloc_ok os) h of
        (None, h) \<Rightarrow> Some (None, h)
      | (Some buf, h) \<Rightarrow>
          (case fw_fill os ACPI signature needed of (written, data) \<Rightarrow>
             if written = 0 \<or> needed < written
             then do { h \<leftarrow> h_free buf h; Some (None, h) }
             else Some (Some (buf, fill_block (unat needed) data, unat written), h)))"

text \<open>
  The signature list: the packed DWORDs are copied into a second allocation and the first is
  freed. The result carries the block of the copy and the signatures in it.
\<close>

fun dwords :: "nat \<Rightarrow> bytes \<Rightarrow> u32 list" where
  "dwords 0 bs = []"
| "dwords (Suc n) bs = le_word (take 4 bs) # dwords n (drop 4 bs)"

definition platform_enum_acpi_signatures ::
    "os_firmware \<Rightarrow> heap \<Rightarrow> ((nat \<times> u32 list) option \<times> heap) option" where
  "platform_enum_acpi_signatures os h =
     (let needed = en_size os ACPI in
      if needed = 0 then Some (None, h)
      else case h_malloc (alloc_ok os) h of
        (None, h) \<Rightarrow> Some (None, h)
      | (Some buf, h) \<Rightarrow>
          (case en_fill os ACPI needed of (written, data) \<Rightarrow>
             if written = 0 \<or> needed < written
             then do { h \<leftarrow> h_free buf h; Some (None, h) }
             else
               let count = unat written div 4 in
               case h_malloc (alloc_ok os) h of
                 (None, h) \<Rightarrow> do { h \<leftarrow> h_free buf h; Some (None, h) }
               | (Some sigs, h) \<Rightarrow>
                   do { src \<leftarrow> rd_bytes (fill_block (unat needed) data) 0 (count * 4);
                        h \<leftarrow> h_free buf h;
                        Some (Some (sigs, dwords count src), h) }))"

section \<open>The contract\<close>

text \<open>
  What a caller of a table fetch relies on: the call ends without a double free; when it
  refuses, nothing is left allocated; when it succeeds, the caller owns one new block whose
  allocation covers the reported, non-zero size.
\<close>

locale table_provider =
  fixes get :: "heap \<Rightarrow> (table_block option \<times> heap) option"
  assumes get_cases: "\<exists>r h'. get h = Some (r, h') \<and>
    (case r of None \<Rightarrow> balanced h h'
     | Some (b, raw, n) \<Rightarrow> owns b h h' \<and> 0 < n \<and> n \<le> length raw)"
begin

text \<open>The pattern every caller follows: fetch, use the bytes, free, return.\<close>

lemma use_table:
  assumes use: "\<And>raw n. n \<le> length raw \<Longrightarrow> \<exists>x. use raw n = Some x \<and> good x"
    and refused: "good none"
  shows "\<exists>x h'. (do { (r, h) \<leftarrow> get h;
      case r of None \<Rightarrow> Some (none, h)
      | Some (b, raw, n) \<Rightarrow> do { x \<leftarrow> use raw n; h \<leftarrow> h_free b h; Some (x, h) } }) = Some (x, h')
    \<and> good x \<and> balanced h h'"
proof -
  obtain r h1 where g: "get h = Some (r, h1)" and
    c: "case r of None \<Rightarrow> balanced h h1 | Some (b, raw, n) \<Rightarrow> owns b h h1 \<and> 0 < n \<and> n \<le> length raw"
    using get_cases [of h] by blast
  show ?thesis
  proof (cases r)
    case None
    with g c refused show ?thesis by auto
  next
    case (Some t)
    obtain b raw n where t: "t = (b, raw, n)" by (cases t)
    with c Some have own: "owns b h h1" and n: "n \<le> length raw" by auto
    obtain x where x: "use raw n = Some x" "good x" using use [OF n] by blast
    obtain h2 where h2: "h_free b h1 = Some h2" "balanced h h2" using owns_free [OF own] by blast
    from g Some t x h2 show ?thesis by auto
  qed
qed

end

text \<open>Both fetches have one shape: size query, allocation, fill, and a check of what was filled.\<close>

lemma fetch_contract:
  "\<exists>r h'. (if needed = 0 then Some (None, h)
      else case h_malloc ok h of
        (None, h) \<Rightarrow> Some (None, h)
      | (Some buf, h) \<Rightarrow>
          (case filled of (written, data) \<Rightarrow>
             if written = 0 \<or> needed < written
             then do { h \<leftarrow> h_free buf h; Some (None, h) }
             else Some (Some (buf, fill_block (unat needed) data, unat written), h))) = Some (r, h') \<and>
    (case r of None \<Rightarrow> balanced h h'
     | Some (b, raw, n) \<Rightarrow> owns b h h' \<and> 0 < n \<and> n \<le> length raw)"
proof (cases "h_malloc ok h")
  case (Pair r h1)
  show ?thesis
  proof (cases r)
    case None
    with Pair h_malloc_none [of ok h h1] show ?thesis by auto
  next
    case (Some b)
    have own: "owns b h h1" using Pair Some by (simp add: h_malloc_owns)
    obtain h2 where "h_free b h1 = Some h2" "balanced h h2" using owns_free [OF own] by blast
    with Pair Some own show ?thesis
      by (cases filled) (auto simp: unat_gt_0 word_le_nat_alt not_less)
  qed
qed

interpretation smbios_table: table_provider "platform_get_smbios_table os" for os
  by unfold_locales
    (simp only: platform_get_smbios_table_def Let_def fetch_contract)

interpretation acpi_table: table_provider "platform_get_acpi_table os sig" for os sig
  by unfold_locales
    (simp only: platform_get_acpi_table_def Let_def fetch_contract)

text \<open>The signature list: nothing is left allocated but the list handed out.\<close>

lemma length_dwords [simp]: "length (dwords n bs) = n"
  by (induction n bs rule: dwords.induct) auto

lemma enum_contract:
  "\<exists>r h'. platform_enum_acpi_signatures os h = Some (r, h') \<and>
    (case r of None \<Rightarrow> balanced h h'
     | Some (b, sigs) \<Rightarrow> owns b h h' \<and> length sigs \<le> unat (en_size os ACPI) div 4)"
proof (cases "h_malloc (alloc_ok os) h")
  case (Pair r h1)
  obtain w d where f: "en_fill os ACPI (en_size os ACPI) = (w, d)" by fastforce
  show ?thesis
  proof (cases r)
    case None
    with Pair h_malloc_none [of "alloc_ok os" h h1] show ?thesis
      by (auto simp: platform_enum_acpi_signatures_def Let_def)
  next
    case (Some b)
    have own: "owns b h h1" using Pair Some by (simp add: h_malloc_owns)
    obtain h2 where h2: "h_free b h1 = Some h2" "balanced h h2" using owns_free [OF own] by blast
    obtain r2 h3 where m2: "h_malloc (alloc_ok os) h1 = (r2, h3)" by fastforce
    show ?thesis
    proof (cases r2)
      case None
      then have "owns b h h3" using m2 own by (auto intro: owns_balanced h_malloc_none)
      then obtain h4 where "h_free b h3 = Some h4" "balanced h h4" using owns_free by blast
      with None Pair Some m2 f h2 show ?thesis
        by (auto simp: platform_enum_acpi_signatures_def Let_def)
    next
      case s: (Some c)
      have "owns c h1 h3" using m2 s by (simp add: h_malloc_owns)
      then obtain h4 where "h_free b h3 = Some h4" "owns c h h4"
        using own by (auto simp: owns_def h_free_def)
      moreover have "unat w \<le> unat (en_size os ACPI) \<Longrightarrow>
          unat w div 4 * 4 \<le> unat (en_size os ACPI)"
        using div_times_less_eq_dividend [of "unat w" 4] by linarith
      ultimately show ?thesis using s Pair Some m2 f h2
        by (auto simp: platform_enum_acpi_signatures_def Let_def word_le_nat_alt not_less div_le_mono)
    qed
  qed
qed

end
