(* ===== verification/Smbios_Collect.thy ===== *)
theory Smbios_Collect
  imports Smbios_Correct Firmware_Table
begin

text \<open>
  \<open>smbios_collect\<close> of \<open>src/firmware/smbios.c\<close> as a client of the table fetch: the raw table is
  obtained from the platform, parsed and released on every path.
\<close>

definition smbios_collect :: "os_firmware \<Rightarrow> heap \<Rightarrow> (SmbiosData option \<times> heap) option" where
  "smbios_collect os h =
     do { (r, h) \<leftarrow> platform_get_smbios_table os h;
          case r of
            None \<Rightarrow> Some (None, h)
          | Some (b, raw, raw_size) \<Rightarrow>
              do { out \<leftarrow> smbios_parse raw raw_size; h \<leftarrow> h_free b h; Some (out, h) } }"

text \<open>
  \<open>smbios_collect\<close> ends on every operating-system answer and every table: it reads nothing
  outside the table it was given, frees exactly the block it obtained (no leak and no double
  free on any path), and what it returns is either nothing or well-formed data.
\<close>

theorem smbios_collect_safe:
  "\<exists>out h'. smbios_collect os h = Some (out, h') \<and> balanced h h' \<and>
     (case out of None \<Rightarrow> True | Some d \<Rightarrow> smbios_ok d)"
proof -
  have "\<exists>out. smbios_parse raw n = Some out \<and> (case out of None \<Rightarrow> True | Some d \<Rightarrow> smbios_ok d)"
    if "n \<le> length raw" for raw n
    using smbios_parse_in [OF that] by (auto split: option.splits)
  from smbios_table.use_table [of smbios_parse "\<lambda>out. case out of None \<Rightarrow> True | Some d \<Rightarrow> smbios_ok d",
      OF this, of None os h]
  show ?thesis by (auto simp: smbios_collect_def)
qed

end
