(* ===== verification/Memory_Info.thy ===== *)
theory Memory_Info
  imports Smbios_Walk Firmware_Table
begin

text \<open>
  \<open>src/memory/memory_info.c\<close>: the operating system's memory totals and the physical address
  ranges of the SMBIOS Type 19 structures (the second client of the structure walk).
\<close>

section \<open>Data\<close>

record MemoryRegion =
  mr_base :: u64
  mr_length :: u64
  mr_type :: u32

definition MEMORY_MAX_REGIONS :: nat where "MEMORY_MAX_REGIONS = 32"

text \<open>The used prefix of \<open>regions[32]\<close>; its length is \<open>region_count\<close>.\<close>

record MemoryInfo =
  mi_available :: bool
  mi_total_physical_bytes :: u64
  mi_available_physical_bytes :: u64
  mi_memory_load_percent :: u32
  mi_regions :: "MemoryRegion list"

text \<open>What \<open>GlobalMemoryStatusEx\<close> reports, when it succeeds.\<close>

record memory_status =
  ms_ullTotalPhys :: u64
  ms_ullAvailPhys :: u64
  ms_dwMemoryLoad :: u32

definition memory0 :: MemoryInfo where
  "memory0 = \<lparr>mi_available = False, mi_total_physical_bytes = 0, mi_available_physical_bytes = 0,
     mi_memory_load_percent = 0, mi_regions = []\<rparr>"

section \<open>The Type 19 reader\<close>

text \<open>The three branches that compute base and length, at the code's widths.\<close>

definition region_extent :: "bytes \<Rightarrow> nat \<Rightarrow> u8 \<Rightarrow> (u64 \<times> u64) option" where
  "region_extent buf cur hlen =
     do { start_kb \<leftarrow> rd32 buf (cur + 0x04);
          end_kb \<leftarrow> rd32 buf (cur + 0x08);
          if start_kb = 0xFFFFFFFF \<and> 0x1F \<le> hlen then
            do { ext_start \<leftarrow> rd64 buf (cur + 0x0F);
                 ext_end \<leftarrow> rd64 buf (cur + 0x17);
                 Some (ext_start, if ext_start \<le> ext_end then ext_end - ext_start + 1 else 0) }
          else if start_kb \<noteq> 0xFFFFFFFF then
            (let base = ucast start_kb * 1024;
                 end_bytes = ucast end_kb * 1024 in
             Some (base, if base \<le> end_bytes then end_bytes - base + 1024 else 0))
          else Some (0, 0) }"

definition visit_region :: "bytes \<Rightarrow> u8 \<Rightarrow> nat \<Rightarrow> u8 \<Rightarrow> MemoryInfo \<Rightarrow> MemoryInfo option" where
  "visit_region buf ty cur hlen out =
     (if ty = 19 \<and> 0x0F \<le> hlen then
        do { (base, len) \<leftarrow> region_extent buf cur hlen;
             if 0 < len then
               do { handle \<leftarrow> rd16 buf (cur + 0x0C);
                    rs \<leftarrow> tbl_store MEMORY_MAX_REGIONS (mi_regions out)
                      \<lparr>mr_base = base, mr_length = len, mr_type = ucast handle\<rparr>;
                    Some (out\<lparr>mi_regions := rs\<rparr>) }
             else Some out }
      else Some out)"

function region_loop :: "bytes \<Rightarrow> nat \<Rightarrow> nat \<Rightarrow> MemoryInfo \<Rightarrow> MemoryInfo option" where
  "region_loop buf e cur out =
     (if cur + 4 \<le> e \<and> length (mi_regions out) < MEMORY_MAX_REGIONS then
        do { ty \<leftarrow> rd8 buf cur;
             hlen \<leftarrow> rd8 buf (cur + 1);
             if hlen < 4 \<or> e < cur + unat hlen then Some out
             else if ty = 127 then Some out
             else do { out \<leftarrow> visit_region buf ty cur hlen out;
                       nxt \<leftarrow> next_structure buf cur (unat hlen) e;
                       case nxt of
                         Null \<Rightarrow> Some out
                       | At n \<Rightarrow> if n \<le> cur then Some out else region_loop buf e n out } }
      else Some out)"
  by pat_completeness auto
termination
  by (relation "measure (\<lambda>(buf, e, cur, out). e - cur)") auto

declare region_loop.simps [simp del]

text \<open>\<open>collect_regions_from_smbios\<close>: its work on the raw bytes, and around it the fetch.\<close>

definition collect_regions :: "bytes \<Rightarrow> nat \<Rightarrow> MemoryInfo \<Rightarrow> MemoryInfo option" where
  "collect_regions raw raw_size out =
     (if raw_size < 9 - 1 then Some out
      else do { len \<leftarrow> rd32 raw 4;
                let table_len = (if raw_size < 8 + unat len then raw_size - 8 else unat len);
                region_loop raw (8 + table_len) 8 out })"

definition collect_regions_from_smbios ::
    "os_firmware \<Rightarrow> MemoryInfo \<Rightarrow> heap \<Rightarrow> (MemoryInfo \<times> heap) option" where
  "collect_regions_from_smbios os out h =
     do { (r, h) \<leftarrow> platform_get_smbios_table os h;
          case r of
            None \<Rightarrow> Some (out, h)
          | Some (b, raw, raw_size) \<Rightarrow>
              do { out \<leftarrow> collect_regions raw raw_size out; h \<leftarrow> h_free b h; Some (out, h) } }"

definition memory_info_collect ::
    "memory_status option \<Rightarrow> os_firmware \<Rightarrow> heap \<Rightarrow> (bool \<times> MemoryInfo \<times> heap) option" where
  "memory_info_collect status os h =
     (let out = (case status of
          None \<Rightarrow> memory0
        | Some ms \<Rightarrow> memory0\<lparr>mi_available := True,
            mi_total_physical_bytes := ms_ullTotalPhys ms,
            mi_available_physical_bytes := ms_ullAvailPhys ms,
            mi_memory_load_percent := ms_dwMemoryLoad ms\<rparr>) in
      do { (out, h) \<leftarrow> collect_regions_from_smbios os out h;
           Some (mi_available out \<or> 0 < length (mi_regions out), out, h) })"

section \<open>What a region means\<close>

text \<open>
  The specification on numbers: the byte range a Type 19 structure describes, as a half-open
  interval, from its two kilobyte fields or, when the start holds the escape value, from its
  two 64-bit fields. Both end addresses are inclusive.
\<close>

definition extent_spec :: "nat \<Rightarrow> nat \<Rightarrow> nat \<Rightarrow> nat \<Rightarrow> nat \<Rightarrow> (nat \<times> nat) option" where
  "extent_spec hlen start_kb end_kb ext_start ext_end =
     (if start_kb \<noteq> 2 ^ 32 - 1 then
        (if start_kb \<le> end_kb then Some (start_kb * 1024, (end_kb + 1) * 1024) else None)
      else if 31 \<le> hlen \<and> ext_start \<le> ext_end \<and> ext_end + 1 - ext_start < 2 ^ 64
      then Some (ext_start, ext_end + 1) else None)"

definition extent_at :: "bytes \<Rightarrow> nat \<Rightarrow> (nat \<times> nat) option" where
  "extent_at buf p = extent_spec (unat (buf ! (p + 1)))
     (unat (le_word (take 4 (drop (p + 4) buf)) :: u32)) (unat (le_word (take 4 (drop (p + 8) buf)) :: u32))
     (unat (le_word (take 8 (drop (p + 15) buf)) :: u64)) (unat (le_word (take 8 (drop (p + 23) buf)) :: u64))"

text \<open>The base-and-length pair the code keeps for a half-open interval; a length of 0 is none.\<close>

definition extent_pair :: "(nat \<times> nat) option \<Rightarrow> u64 \<times> u64 \<Rightarrow> bool" where
  "extent_pair spec x = (case x of (base, len) \<Rightarrow>
     (if len = 0 then spec = None else spec = Some (unat base, unat base + unat len)))"

lemma kb_extent:
  fixes s e :: u32
  assumes "s \<noteq> 0xFFFFFFFF"
  shows "extent_pair (extent_spec hlen (unat s) (unat e) x y)
    (ucast s * 1024, if (ucast s * 1024 :: u64) \<le> ucast e * 1024 then ucast e * 1024 - ucast s * 1024 + 1024 else 0)"
proof -
  have b: "unat v < 2 ^ 32" for v :: u32 using unsigned_less [where 'a = nat, of v] by simp
  have u: "unat (ucast v * 1024 :: u64) = unat v * 1024" for v :: u32
  proof -
    have "unat (ucast v :: u64) = unat v"
      using b [of v] by (simp add: unsigned_ucast_eq take_bit_nat_eq_self)
    then show ?thesis using b [of v] by (simp add: unat_word_ariths)
  qed
  have ne: "unat s \<noteq> 2 ^ 32 - 1"
    using assms by (simp add: word_unat_eq_iff)
  have le: "(ucast s * 1024 :: u64) \<le> ucast e * 1024 \<longleftrightarrow> unat s \<le> unat e"
    by (simp add: word_le_nat_alt u)
  have len: "unat (ucast e * 1024 - ucast s * 1024 + 1024 :: u64) = (unat e + 1) * 1024 - unat s * 1024"
    if "unat s \<le> unat e"
  proof -
    have "unat (ucast e * 1024 - ucast s * 1024 :: u64) = unat e * 1024 - unat s * 1024"
      using that by (simp add: unat_sub le u)
    then show ?thesis using b [of e] that by (simp add: unat_word_ariths)
  qed
  show ?thesis
  proof (cases "unat s \<le> unat e")
    case True
    then have "ucast e * 1024 - ucast s * 1024 + 1024 \<noteq> (0 :: u64)"
      using len by (auto simp: unat_eq_0 [symmetric] simp del: unat_eq_0)
    with True ne show ?thesis by (simp add: extent_pair_def extent_spec_def le len u)
  next
    case False
    with ne show ?thesis by (simp add: extent_pair_def extent_spec_def le)
  qed
qed

lemma ext_extent:
  fixes x y :: u64
  shows "extent_pair (extent_spec hlen (2 ^ 32 - 1) e (unat x) (unat y))
    (if 31 \<le> hlen then (x, if x \<le> y then y - x + 1 else 0) else (0, 0))"
proof (cases "31 \<le> hlen \<and> x \<le> y")
  case True
  have lt: "unat y < 2 ^ 64" using unsigned_less [where 'a = nat, of y] by simp
  have d: "unat (y - x) = unat y - unat x" using True by (simp add: unat_sub)
  have xy: "unat x \<le> unat y" using True by (simp add: word_le_nat_alt)
  have len: "unat (y - x + 1) = (unat y + 1 - unat x) mod 2 ^ 64"
    using xy by (simp add: unat_word_ariths d Suc_diff_le)
  have z: "y - x + 1 = 0 \<longleftrightarrow> \<not> unat y + 1 - unat x < 2 ^ 64"
  proof -
    have "unat (y - x + 1) = 0 \<longleftrightarrow> \<not> unat y + 1 - unat x < 2 ^ 64"
      unfolding len using lt xy mod_if [of "unat y + 1 - unat x" "2 ^ 64"] by auto
    then show ?thesis by (simp add: unat_eq_0)
  qed
  show ?thesis
  proof (cases "unat y + 1 - unat x < 2 ^ 64")
    case small: True
    then have "unat (y - x + 1) = unat y + 1 - unat x" by (simp add: len)
    with small True xy z show ?thesis by (simp add: extent_pair_def extent_spec_def)
  next
    case False
    with True z show ?thesis by (simp add: extent_pair_def extent_spec_def)
  qed
next
  case False
  then show ?thesis by (auto simp: extent_pair_def extent_spec_def word_le_nat_alt)
qed

lemma region_extent_exact:
  assumes "cur + unat hlen \<le> length buf" and "0x0F \<le> hlen" and "buf ! (cur + 1) = hlen"
  shows "\<exists>x. region_extent buf cur hlen = Some x \<and> extent_pair (extent_at buf cur) x"
proof -
  have h: "15 \<le> unat hlen" using assms(2) by (simp add: word_le_nat_alt)
  define s e where "s = (le_word (take 4 (drop (cur + 4) buf)) :: u32)"
    and "e = (le_word (take 4 (drop (cur + 8) buf)) :: u32)"
  have rd: "rd32 buf (cur + 4) = Some s" "rd32 buf (cur + 8) = Some e"
    using h assms(1) by (simp_all add: s_def e_def)
  show ?thesis
  proof (cases "s = 0xFFFFFFFF")
    case False
    from kb_extent [OF False, of "unat hlen" e] show ?thesis
      using False assms(3)
      by (simp add: region_extent_def rd extent_at_def Let_def flip: s_def e_def)
  next
    case True
    have l: "(0x1F \<le> hlen) = (31 \<le> unat hlen)" by (simp add: word_le_nat_alt)
    have x: "rd64 buf (cur + 15) = Some (le_word (take 8 (drop (cur + 15) buf)))"
      "rd64 buf (cur + 23) = Some (le_word (take 8 (drop (cur + 23) buf)))" if "31 \<le> unat hlen"
      using that assms(1) by simp_all
    define xs ys where "xs = (le_word (take 8 (drop (cur + 15) buf)) :: u64)"
      and "ys = (le_word (take 8 (drop (cur + 23) buf)) :: u64)"
    have "extent_at buf cur = extent_spec (unat hlen) (2 ^ 32 - 1) (unat e) (unat xs) (unat ys)"
      using True by (simp add: extent_at_def assms(3) [symmetric] xs_def ys_def flip: s_def e_def)
    moreover have "region_extent buf cur hlen =
        Some (if 31 \<le> unat hlen then (xs, if xs \<le> ys then ys - xs + 1 else 0) else (0, 0))"
      using True x by (auto simp: region_extent_def rd l xs_def ys_def)
    ultimately show ?thesis using ext_extent [of "unat hlen" "unat e" xs ys] by simp
  qed
qed

text \<open>The region a structure contributes, if any.\<close>

definition region_at :: "bytes \<Rightarrow> nat \<Rightarrow> MemoryRegion option" where
  "region_at buf p =
     (if buf ! p = 19 \<and> 15 \<le> unat (buf ! (p + 1)) then
        map_option (\<lambda>(lo, hi). \<lparr>mr_base = of_nat lo, mr_length = of_nat (hi - lo),
            mr_type = ucast (le_word (take 2 (drop (p + 12) buf)) :: u16)\<rparr>) (extent_at buf p)
      else None)"

definition add_region :: "bytes \<Rightarrow> nat \<Rightarrow> MemoryInfo \<Rightarrow> MemoryInfo" where
  "add_region buf p out =
     (case region_at buf p of None \<Rightarrow> out | Some r \<Rightarrow> out\<lparr>mi_regions := mi_regions out @ [r]\<rparr>)"

definition region_ok :: "MemoryRegion \<Rightarrow> bool" where
  "region_ok r \<longleftrightarrow> 0 < unat (mr_length r) \<and> unat (mr_base r) + unat (mr_length r) \<le> 2 ^ 64"

definition memory_ok :: "MemoryInfo \<Rightarrow> bool" where
  "memory_ok out \<longleftrightarrow> length (mi_regions out) \<le> MEMORY_MAX_REGIONS \<and> (\<forall>r \<in> set (mi_regions out). region_ok r)"

lemma extent_at_bound:
  "extent_at buf p = Some (lo, hi) \<Longrightarrow> lo < hi \<and> hi \<le> 2 ^ 64 \<and> hi - lo < 2 ^ 64"
proof -
  assume a: "extent_at buf p = Some (lo, hi)"
  have b: "unat v < 2 ^ 32" for v :: u32 using unsigned_less [where 'a = nat, of v] by simp
  have c: "unat v < 2 ^ 64" for v :: u64 using unsigned_less [where 'a = nat, of v] by simp
  show ?thesis
    using a b [of "le_word (take 4 (drop (p + 8) buf))"] b [of "le_word (take 4 (drop (p + 4) buf))"]
      c [of "le_word (take 8 (drop (p + 23) buf))"]
    by (auto simp: extent_at_def extent_spec_def split: if_splits)
qed

lemma unat_diff_of_nat:
  "a < b \<Longrightarrow> b - a < 2 ^ 64 \<Longrightarrow> unat (of_nat (b - a) :: u64) = b - a"
  by (simp add: unat_of_nat del: of_nat_diff)

lemma region_at_ok: "region_at buf p = Some r \<Longrightarrow> region_ok r"
proof -
  assume r: "region_at buf p = Some r"
  then obtain lo hi where x: "extent_at buf p = Some (lo, hi)"
    and f: "mr_base r = of_nat lo" "mr_length r = of_nat (hi - lo)"
    by (auto simp: region_at_def simp del: of_nat_diff split: if_splits)
  from extent_at_bound [OF x] have b: "lo < hi" "hi \<le> 2 ^ 64" "hi - lo < 2 ^ 64" by auto
  from b have "unat (of_nat lo :: u64) = lo" by (simp add: unat_of_nat)
  with b show ?thesis
    by (simp only: region_ok_def f unat_diff_of_nat [OF b(1,3)]) simp
qed

lemma extent_region:
  "extent_pair (Some (lo, hi)) (base, len) \<Longrightarrow> of_nat lo = base \<and> of_nat (hi - lo) = len"
  by (auto simp: extent_pair_def split: if_splits)

lemma visit_region_exact:
  assumes "p + unat (buf ! (p + 1)) \<le> length buf"
    and "length (mi_regions out) < MEMORY_MAX_REGIONS"
  shows "visit_region buf (buf ! p) p (buf ! (p + 1)) out = Some (add_region buf p out)"
proof (cases "buf ! p = 19 \<and> 0x0F \<le> buf ! (p + 1)")
  case False
  then show ?thesis by (auto simp: visit_region_def add_region_def region_at_def word_le_nat_alt)
next
  case True
  then have h: "15 \<le> unat (buf ! (p + 1))" by (simp add: word_le_nat_alt)
  have rd: "rd16 buf (p + 12) = Some (le_word (take 2 (drop (p + 12) buf)))"
    using h assms(1) by simp
  obtain base len where r: "region_extent buf p (buf ! (p + 1)) = Some (base, len)"
    and x: "extent_pair (extent_at buf p) (base, len)"
    using region_extent_exact [OF assms(1) conjunct2 [OF True] refl] by (metis surj_pair)
  show ?thesis
  proof (cases "len = 0")
    case True
    with x have "extent_at buf p = None" by (simp add: extent_pair_def)
    with True r show ?thesis
      by (simp add: visit_region_def add_region_def region_at_def)
  next
    case False
    with x obtain lo hi where e: "extent_at buf p = Some (lo, hi)"
      by (cases "extent_at buf p") (auto simp: extent_pair_def)
    from extent_region [OF x [unfolded e]] have "region_at buf p =
        Some \<lparr>mr_base = base, mr_length = len, mr_type = ucast (le_word (take 2 (drop (p + 12) buf)) :: u16)\<rparr>"
      using True h e by (simp add: region_at_def del: of_nat_diff)
    with False True r rd assms(2) show ?thesis
      by (simp add: visit_region_def add_region_def word_gt_0)
  qed
qed

section \<open>The loop is a client of the walk\<close>

definition region_visit :: "bytes \<Rightarrow> nat \<Rightarrow> nat \<Rightarrow> MemoryInfo \<Rightarrow> MemoryInfo option" where
  "region_visit buf e cur out = visit_region buf (buf ! cur) cur (buf ! (cur + 1)) out"

definition wants_region :: "MemoryInfo \<Rightarrow> bool" where
  "wants_region out \<longleftrightarrow> length (mi_regions out) < MEMORY_MAX_REGIONS"

lemma region_loop_unfold:
  assumes "e \<le> length buf"
  shows "region_loop buf e cur s =
    (if cur + 4 \<le> e \<and> wants_region s then
       (let hlen = unat (buf ! (cur + 1)) in
        if hlen < 4 \<or> e < cur + hlen then Some s
        else if buf ! cur = 127 then Some s
        else do { s' \<leftarrow> region_visit buf e cur s;
                  case next_pos buf e (cur + hlen) of
                    None \<Rightarrow> Some s'
                  | Some n \<Rightarrow> region_loop buf e n s' })
     else Some s)"
proof (cases "cur + 4 \<le> e \<and> wants_region s")
  case False
  then show ?thesis by (subst region_loop.simps) (auto simp: wants_region_def)
next
  case True
  then have w: "length (mi_regions s) < MEMORY_MAX_REGIONS" by (simp add: wants_region_def)
  have rd: "rd8 buf cur = Some (buf ! cur)" "rd8 buf (Suc cur) = Some (buf ! Suc cur)"
    using True assms by simp_all
  show ?thesis
  proof (cases "unat (buf ! Suc cur) < 4 \<or> e < cur + unat (buf ! Suc cur) \<or> buf ! cur = 127")
    case stop: True
    then show ?thesis
      using True w by (subst region_loop.simps) (auto simp: rd Let_def word_less_nat_alt)
  next
    case False
    then have nx: "next_structure buf cur (unat (buf ! Suc cur)) e =
        Some (cptr_of (next_pos buf e (cur + unat (buf ! Suc cur))))"
      using assms by (intro next_structure_eq) simp_all
    have gt: "\<not> n \<le> cur" if "next_pos buf e (cur + unat (buf ! Suc cur)) = Some n" for n
      using next_pos_gt [OF that] by simp
    have "\<not> (buf ! Suc cur < 4 \<or> e < cur + unat (buf ! Suc cur))" "buf ! cur \<noteq> 127"
      using False by (simp_all add: word_less_nat_alt)
    then show ?thesis
      using True False w
      by (subst region_loop.simps)
        (auto simp: rd nx region_visit_def Let_def cptr_of_def gt split: option.splits)
  qed
qed

lemma region_visit_exact:
  "e \<le> length buf \<Longrightarrow> p + unat (buf ! (p + 1)) \<le> e \<Longrightarrow> wants_region s \<Longrightarrow>
     region_visit buf e p s = Some (add_region buf p s)"
  by (simp add: region_visit_def wants_region_def visit_region_exact del: One_nat_def add_Suc_right)

lemma add_region_ok: "wants_region s \<Longrightarrow> memory_ok s \<Longrightarrow> memory_ok (add_region buf p s)"
  by (auto simp: add_region_def memory_ok_def wants_region_def region_at_ok split: option.splits)

interpretation rg: structure_client region_loop region_visit wants_region "\<lambda>_ s. s" memory_ok
proof unfold_locales
  fix e :: nat and buf :: bytes and cur :: nat and s :: MemoryInfo
  assume e: "e \<le> length buf"
  show "region_loop buf e cur s =
      (if cur + 4 \<le> e \<and> wants_region s then
         (let hlen = unat (buf ! (cur + 1)) in
          if hlen < 4 \<or> e < cur + hlen then Some s
          else if buf ! cur = 127 then Some s
          else do { s' \<leftarrow> region_visit buf e cur s;
                    case next_pos buf e (cur + hlen) of
                      None \<Rightarrow> Some s'
                    | Some n \<Rightarrow> region_loop buf e n s' })
       else Some s)"
    by (rule region_loop_unfold [OF e])
  assume "cur + unat (buf ! (cur + 1)) \<le> e" "wants_region s" "memory_ok s"
  with e show "\<exists>s'. region_visit buf e cur s = Some s' \<and> memory_ok s'"
    by (simp add: region_visit_exact add_region_ok del: One_nat_def add_Suc_right)
qed simp_all

section \<open>The regions the report contains\<close>

definition regions_end :: "bytes \<Rightarrow> nat \<Rightarrow> nat" where
  "regions_end raw raw_size = min raw_size (8 + unat (le_word (take 4 (drop 4 raw)) :: u32))"

lemma collect_regions_eq:
  assumes "8 \<le> raw_size" and "raw_size \<le> length raw"
  shows "collect_regions raw raw_size out = region_loop raw (regions_end raw raw_size) 8 out"
proof -
  have te: "8 + (if raw_size < 8 + n then raw_size - 8 else n) = min raw_size (8 + n)" for n
    using assms by auto
  show ?thesis
    using assms by (simp add: collect_regions_def regions_end_def te Let_def)
qed

lemma collect_regions_in:
  assumes "raw_size \<le> length raw" and "memory_ok out"
  shows "\<exists>out'. collect_regions raw raw_size out = Some out' \<and> memory_ok out'"
proof (cases "raw_size < 8")
  case True
  with assms(2) show ?thesis by (simp add: collect_regions_def)
next
  case False
  with rg.loop_safe [OF _ assms(2), of "regions_end raw raw_size" raw 8] assms(1)
  show ?thesis by (simp add: collect_regions_eq regions_end_def)
qed

lemma visit_all_regions:
  assumes "e \<le> length buf"
    and "\<forall>p \<in> set ps. 4 \<le> unat (buf ! (p + 1)) \<and> p + unat (buf ! (p + 1)) \<le> e"
    and "memory_ok s"
  shows "visit_all (region_visit buf e) wants_region (\<lambda>_ s. s) ps w s =
    Some (s\<lparr>mi_regions := take MEMORY_MAX_REGIONS (mi_regions s @ List.map_filter (region_at buf) ps)\<rparr>)"
  using assms(2,3)
proof (induction ps arbitrary: s)
  case Nil
  then show ?case by (simp add: memory_ok_def map_filter_simps)
next
  case (Cons p ps)
  show ?case
  proof (cases "wants_region s")
    case False
    with Cons.prems(2) have "length (mi_regions s) = MEMORY_MAX_REGIONS"
      by (simp add: memory_ok_def wants_region_def)
    with False show ?thesis by (simp add: memory_ok_def)
  next
    case True
    have v: "region_visit buf e p s = Some (add_region buf p s)"
      using True Cons.prems(1) assms(1) by (intro region_visit_exact) auto
    have ok: "memory_ok (add_region buf p s)" using True Cons.prems(2) by (rule add_region_ok)
    have app: "mi_regions (add_region buf p s) @ List.map_filter (region_at buf) ps =
        mi_regions s @ List.map_filter (region_at buf) (p # ps)"
      by (simp add: add_region_def map_filter_simps split: option.splits)
    have rest: "(add_region buf p s)\<lparr>mi_regions := x\<rparr> = s\<lparr>mi_regions := x\<rparr>" for x
      by (simp add: add_region_def split: option.splits)
    have "ps = [] \<Longrightarrow> add_region buf p s =
        s\<lparr>mi_regions := take MEMORY_MAX_REGIONS (mi_regions s @ List.map_filter (region_at buf) [p])\<rparr>"
      using True by (cases "region_at buf p") (simp_all add: add_region_def map_filter_simps wants_region_def)
    with True v Cons.IH [OF _ ok] Cons.prems(1) show ?thesis
      by (auto simp: app rest)
  qed
qed

lemma collect_regions_take:
  assumes "8 \<le> raw_size" and "raw_size \<le> length raw" and "mi_regions out = []"
  shows "collect_regions raw raw_size out =
    Some (out\<lparr>mi_regions := take MEMORY_MAX_REGIONS
      (List.map_filter (region_at raw) (fst (walk raw (regions_end raw raw_size) 8)))\<rparr>)"
proof -
  have te: "regions_end raw raw_size \<le> length raw" using assms(2) by (simp add: regions_end_def)
  have ok: "memory_ok out" using assms(3) by (simp add: memory_ok_def)
  have "\<forall>p \<in> set (fst (walk raw (regions_end raw raw_size) 8)).
      4 \<le> unat (raw ! (p + 1)) \<and> p + unat (raw ! (p + 1)) \<le> regions_end raw raw_size"
    using walk_positions by blast
  from visit_all_regions [OF te this ok] show ?thesis
    by (simp add: collect_regions_eq [OF assms(1,2)] rg.loop_visit_all [OF te] assms(3))
qed

text \<open>
  C18. The regions of the memory report are exact. For every raw table, the code collects, in
  table order and up to the capacity of 32, the region of each Type 19 structure the walk
  visits: the byte interval that structure's kilobyte fields (inclusive, scaled by 1024) or its
  64-bit fields (when the kilobyte start is the escape value) denote, and nothing else.
\<close>

theorem collect_regions_exact:
  assumes "8 \<le> raw_size" and "raw_size \<le> length raw" and "mi_regions out = []"
  shows "collect_regions raw raw_size out =
    Some (out\<lparr>mi_regions := take MEMORY_MAX_REGIONS
      (List.map_filter (region_at raw) (fst (walk raw (regions_end raw raw_size) 8)))\<rparr>)"
  by (rule collect_regions_take [OF assms])

theorem collect_regions_exact_witness:
  "collect_regions ([0, 3, 2, 0, 17, 0, 0, 0] @ [19, 15, 0, 0, 4, 0, 0, 0, 7, 0, 0, 0, 9, 0, 1, 0, 0]) 25 memory0
    = Some (memory0\<lparr>mi_regions := [\<lparr>mr_base = 4096, mr_length = 4096, mr_type = 9\<rparr>]\<rparr>)"
proof -
  let ?raw = "[0, 3, 2, 0, 17, 0, 0, 0] @ [19, 15, 0, 0, 4, 0, 0, 0, 7, 0, 0, 0, 9, 0, 1, 0, 0] :: bytes"
  have "walk ?raw (regions_end ?raw 25) 8 = ([8], TableEnd)"
    by (simp add: regions_end_def walk.simps next_pos_def)
  moreover have "region_at ?raw 8 = Some \<lparr>mr_base = 4096, mr_length = 4096, mr_type = 9\<rparr>"
    by (simp add: region_at_def extent_at_def extent_spec_def)
  ultimately show ?thesis
    using collect_regions_exact [of 25 ?raw memory0]
    by (simp add: memory0_def map_filter_simps MEMORY_MAX_REGIONS_def)
qed

lemma memory_info_collect_result:
  "\<exists>ok out h'. memory_info_collect status os h = Some (ok, out, h') \<and> balanced h h' \<and> memory_ok out \<and>
     (\<not> ok \<longleftrightarrow> status = None \<and> mi_regions out = [])"
proof -
  define out where "out = (case status of None \<Rightarrow> memory0
    | Some ms \<Rightarrow> memory0\<lparr>mi_available := True, mi_total_physical_bytes := ms_ullTotalPhys ms,
        mi_available_physical_bytes := ms_ullAvailPhys ms, mi_memory_load_percent := ms_dwMemoryLoad ms\<rparr>)"
  have ok: "memory_ok out" and av: "mi_available out \<longleftrightarrow> status \<noteq> None" and re: "mi_regions out = []"
    by (simp_all add: out_def memory_ok_def memory0_def split: option.splits)
  have use: "\<exists>x. collect_regions raw n out = Some x \<and> (memory_ok x \<and> (mi_available x \<longleftrightarrow> status \<noteq> None))"
    if "n \<le> length raw" for raw n
  proof (cases "n < 8")
    case True
    with ok av show ?thesis by (simp add: collect_regions_def)
  next
    case False
    from collect_regions_in [OF that ok] collect_regions_take [OF _ that re] False av
    show ?thesis by auto
  qed
  from smbios_table.use_table [of "\<lambda>raw n. collect_regions raw n out", OF use, of out os h] ok av
  obtain x h' where "collect_regions_from_smbios os out h = Some (x, h')" "memory_ok x"
    "mi_available x \<longleftrightarrow> status \<noteq> None" "balanced h h'"
    by (auto simp: collect_regions_from_smbios_def)
  then show ?thesis by (auto simp: memory_info_collect_def out_def)
qed

text \<open>
  C19. The memory report is always well formed. Whatever the operating system answers and
  whatever bytes the table holds, collecting it ends, reads nothing outside the table, leaves
  the heap as it was, keeps at most 32 regions, and every region is non-empty and ends at or
  below 2 ^ 64, so that no consumer's base + length - 1 can wrap; the function reports
  success exactly when totals or a region were obtained.
\<close>

theorem memory_info_collect_safe:
  "\<exists>ok out h'. memory_info_collect status os h = Some (ok, out, h') \<and> balanced h h' \<and> memory_ok out \<and>
     (\<not> ok \<longleftrightarrow> status = None \<and> mi_regions out = [])"
  by (rule memory_info_collect_result)

end
