(* ===== verification/Acpi.thy ===== *)
theory Acpi
  imports Firmware_Table
begin

text \<open>
  \<open>src/firmware/acpi.c\<close>: validation of the ACPI tables the platform hands out and the parsers
  of FADT, MADT, MCFG and HPET. Safety and functional results are in \<open>Acpi_Correct\<close>.

  A table is a buffer \<open>buf\<close>, of which the first \<open>len\<close> bytes are the ones the checksum covers.
\<close>

section \<open>Data\<close>

record AcpiTableSummary =
  ts_signature :: bytes
  ts_oem_id :: bytes
  ts_oem_table_id :: bytes
  ts_length :: u32
  ts_revision :: u8
  ts_checksum_valid :: bool

record AcpiProcessorEntry =
  pe_apic_id :: u8
  pe_acpi_processor_id :: u8
  pe_x2apic_id :: u32
  pe_is_x2apic :: bool
  pe_enabled :: bool
  pe_online_capable :: bool

definition ACPI_MAX_PROCESSORS :: nat where "ACPI_MAX_PROCESSORS = 512"
definition ACPI_MAX_MCFG_ENTRIES :: nat where "ACPI_MAX_MCFG_ENTRIES = 16"
definition ACPI_MAX_DISCOVERED_TABLES :: nat where "ACPI_MAX_DISCOVERED_TABLES = 64"

text \<open>Arrays with a counter beside them are lists: the used prefix.\<close>

record AcpiMadtInfo =
  madt_available :: bool
  madt_summary :: AcpiTableSummary
  madt_local_apic_address :: u32
  madt_processors :: "AcpiProcessorEntry list"

record AcpiMcfgEntry =
  me_base_address :: u64
  me_pci_segment_group :: u16
  me_start_bus :: u8
  me_end_bus :: u8

record AcpiMcfgInfo =
  mcfg_available :: bool
  mcfg_summary :: AcpiTableSummary
  mcfg_entries :: "AcpiMcfgEntry list"

record AcpiFadtInfo =
  fadt_available :: bool
  fadt_summary :: AcpiTableSummary
  fadt_sci_interrupt :: u32
  fadt_preferred_pm_profile :: u8

record AcpiHpetInfo =
  hpet_available :: bool
  hpet_summary :: AcpiTableSummary
  hpet_number :: u8
  hpet_base_address :: u64

record AcpiData =
  ad_discovered :: "AcpiTableSummary list"
  ad_fadt :: AcpiFadtInfo
  ad_madt :: AcpiMadtInfo
  ad_mcfg :: AcpiMcfgInfo
  ad_hpet :: AcpiHpetInfo

text \<open>The results of \<open>memset(..., 0, ...)\<close>.\<close>

definition summary0 :: AcpiTableSummary where
  "summary0 = \<lparr>ts_signature = zeros 5, ts_oem_id = zeros 7, ts_oem_table_id = zeros 9,
     ts_length = 0, ts_revision = 0, ts_checksum_valid = False\<rparr>"

definition processor0 :: AcpiProcessorEntry where
  "processor0 = \<lparr>pe_apic_id = 0, pe_acpi_processor_id = 0, pe_x2apic_id = 0,
     pe_is_x2apic = False, pe_enabled = False, pe_online_capable = False\<rparr>"

definition madt0 :: AcpiMadtInfo where
  "madt0 = \<lparr>madt_available = False, madt_summary = summary0, madt_local_apic_address = 0,
     madt_processors = []\<rparr>"

definition mcfg0 :: AcpiMcfgInfo where
  "mcfg0 = \<lparr>mcfg_available = False, mcfg_summary = summary0, mcfg_entries = []\<rparr>"

definition fadt0 :: AcpiFadtInfo where
  "fadt0 = \<lparr>fadt_available = False, fadt_summary = summary0, fadt_sci_interrupt = 0,
     fadt_preferred_pm_profile = 0\<rparr>"

definition hpet0 :: AcpiHpetInfo where
  "hpet0 = \<lparr>hpet_available = False, hpet_summary = summary0, hpet_number = 0,
     hpet_base_address = 0\<rparr>"

definition acpi0 :: AcpiData where
  "acpi0 = \<lparr>ad_discovered = [], ad_fadt = fadt0, ad_madt = madt0, ad_mcfg = mcfg0, ad_hpet = hpet0\<rparr>"

section \<open>The table header\<close>

text \<open>\<open>AcpiRawHeader\<close> is packed: its fields are at fixed offsets of the buffer.\<close>

definition sizeof_AcpiRawHeader :: nat where "sizeof_AcpiRawHeader = 36"

definition checksum_ok :: "bytes \<Rightarrow> nat \<Rightarrow> bool option" where
  "checksum_ok table len = map_option (\<lambda>sum. sum = 0) (sum8_loop table 0 len 0)"

definition fill_summary :: "bytes \<Rightarrow> nat \<Rightarrow> bool \<Rightarrow> AcpiTableSummary option" where
  "fill_summary h actual_len checksum_valid =
     do { sg \<leftarrow> rd_bytes h 0 4;
          sg \<leftarrow> wr_bytes (ts_signature summary0) 0 sg;
          sg \<leftarrow> wr8 sg 4 0;
          oem \<leftarrow> rd_bytes h 10 6;
          oem \<leftarrow> wr_bytes (ts_oem_id summary0) 0 oem;
          oem \<leftarrow> wr8 oem 6 0;
          tab \<leftarrow> rd_bytes h 16 8;
          tab \<leftarrow> wr_bytes (ts_oem_table_id summary0) 0 tab;
          tab \<leftarrow> wr8 tab 8 0;
          revision \<leftarrow> rd8 h 8;
          Some \<lparr>ts_signature = sg, ts_oem_id = oem, ts_oem_table_id = tab,
            ts_length = of_nat actual_len, ts_revision = revision,
            ts_checksum_valid = checksum_valid\<rparr> }"

definition sig_is :: "bytes \<Rightarrow> string \<Rightarrow> bool option" where
  "sig_is h sig4 = map_option (\<lambda>sg. sg = ascii sig4) (rd_bytes h 0 4)"

section \<open>The four parsers\<close>

definition madt_entry :: "bytes \<Rightarrow> nat \<Rightarrow> u8 \<Rightarrow> u8 \<Rightarrow> AcpiMadtInfo \<Rightarrow> AcpiMadtInfo option" where
  "madt_entry buf p entry_type entry_len out =
     (if entry_type = 0 \<and> 8 \<le> entry_len then
        if length (madt_processors out) < ACPI_MAX_PROCESSORS then
          do { acpi_id \<leftarrow> rd8 buf (p + 2);
               apic \<leftarrow> rd8 buf (p + 3);
               flags \<leftarrow> rd32 buf (p + 4);
               ps \<leftarrow> tbl_store ACPI_MAX_PROCESSORS (madt_processors out)
                 (processor0\<lparr>pe_acpi_processor_id := acpi_id, pe_apic_id := apic,
                    pe_enabled := (flags AND 1 \<noteq> 0), pe_online_capable := (flags AND 2 \<noteq> 0),
                    pe_is_x2apic := False\<rparr>);
               Some (out\<lparr>madt_processors := ps\<rparr>) }
        else Some out
      else if entry_type = 9 \<and> 16 \<le> entry_len then
        if length (madt_processors out) < ACPI_MAX_PROCESSORS then
          do { x2apic \<leftarrow> rd32 buf (p + 4);
               flags \<leftarrow> rd32 buf (p + 8);
               ps \<leftarrow> tbl_store ACPI_MAX_PROCESSORS (madt_processors out)
                 (processor0\<lparr>pe_x2apic_id := x2apic,
                    pe_enabled := (flags AND 1 \<noteq> 0), pe_online_capable := (flags AND 2 \<noteq> 0),
                    pe_is_x2apic := True\<rparr>);
               Some (out\<lparr>madt_processors := ps\<rparr>) }
        else Some out
      else Some out)"

function madt_loop :: "bytes \<Rightarrow> nat \<Rightarrow> nat \<Rightarrow> AcpiMadtInfo \<Rightarrow> AcpiMadtInfo option" where
  "madt_loop buf e p out =
     (if p + 2 \<le> e then
        do { entry_type \<leftarrow> rd8 buf p;
             entry_len \<leftarrow> rd8 buf (p + 1);
             if entry_len < 2 \<or> e < p + unat entry_len then Some out
             else do { out \<leftarrow> madt_entry buf p entry_type entry_len out;
                       madt_loop buf e (p + unat entry_len) out } }
      else Some out)"
  by pat_completeness auto
termination
  by (relation "measure (\<lambda>(buf, e, p, out). e - p)") (auto simp: word_less_nat_alt)

declare madt_loop.simps [simp del]

definition parse_madt :: "bytes \<Rightarrow> nat \<Rightarrow> AcpiMadtInfo option" where
  "parse_madt table len =
     (if len < sizeof_AcpiRawHeader + 8 then Some madt0
      else do { a \<leftarrow> rd32 table sizeof_AcpiRawHeader;
                out \<leftarrow> madt_loop table len (sizeof_AcpiRawHeader + 8)
                  (madt0\<lparr>madt_local_apic_address := a\<rparr>);
                Some (out\<lparr>madt_available := True\<rparr>) })"

function mcfg_loop :: "bytes \<Rightarrow> nat \<Rightarrow> nat \<Rightarrow> AcpiMcfgInfo \<Rightarrow> AcpiMcfgInfo option" where
  "mcfg_loop buf e p out =
     (if p + 16 \<le> e \<and> length (mcfg_entries out) < ACPI_MAX_MCFG_ENTRIES then
        do { base \<leftarrow> rd64 buf (p + 0);
             seg \<leftarrow> rd16 buf (p + 8);
             start \<leftarrow> rd8 buf (p + 10);
             last_bus \<leftarrow> rd8 buf (p + 11);
             es \<leftarrow> tbl_store ACPI_MAX_MCFG_ENTRIES (mcfg_entries out)
               \<lparr>me_base_address = base, me_pci_segment_group = seg,
                me_start_bus = start, me_end_bus = last_bus\<rparr>;
             mcfg_loop buf e (p + 16) (out\<lparr>mcfg_entries := es\<rparr>) }
      else Some out)"
  by pat_completeness auto
termination
  by (relation "measure (\<lambda>(buf, e, p, out). e - p)") auto

declare mcfg_loop.simps [simp del]

definition parse_mcfg :: "bytes \<Rightarrow> nat \<Rightarrow> AcpiMcfgInfo option" where
  "parse_mcfg table len =
     (let off = sizeof_AcpiRawHeader + 8 in
      if len < off then Some mcfg0
      else do { out \<leftarrow> mcfg_loop table len off mcfg0;
                Some (out\<lparr>mcfg_available := True\<rparr>) })"

definition parse_fadt :: "bytes \<Rightarrow> nat \<Rightarrow> AcpiFadtInfo option" where
  "parse_fadt table len =
     (if len < 48 then Some fadt0
      else do { profile \<leftarrow> rd8 table 45;
                sci \<leftarrow> rd16 table 46;
                Some (fadt0\<lparr>fadt_preferred_pm_profile := profile,
                  fadt_sci_interrupt := ucast sci, fadt_available := True\<rparr>) })"

definition parse_hpet :: "bytes \<Rightarrow> nat \<Rightarrow> AcpiHpetInfo option" where
  "parse_hpet table len =
     (if len < 53 then Some hpet0
      else do { address \<leftarrow> rd64 table 44;
                number \<leftarrow> rd8 table 52;
                Some (hpet0\<lparr>hpet_base_address := address, hpet_number := number,
                  hpet_available := True\<rparr>) })"

section \<open>The collection loop\<close>

text \<open>
  \<open>acpi_collect\<close>, in three layers: the parser chosen by the signature, the work on one fetched
  table (the body of the loop between the fetch and the \<open>free\<close>), and the loop over the
  enumerated signatures.
\<close>

definition parse_known :: "bytes \<Rightarrow> nat \<Rightarrow> AcpiTableSummary \<Rightarrow> AcpiData \<Rightarrow> AcpiData option" where
  "parse_known raw effective_len summary out =
     do { facp \<leftarrow> sig_is raw ''FACP'';
          apic \<leftarrow> sig_is raw ''APIC'';
          mcfg \<leftarrow> sig_is raw ''MCFG'';
          hpet \<leftarrow> sig_is raw ''HPET'';
          if facp then
            do { f \<leftarrow> parse_fadt raw effective_len; Some (out\<lparr>ad_fadt := f\<lparr>fadt_summary := summary\<rparr>\<rparr>) }
          else if apic then
            do { m \<leftarrow> parse_madt raw effective_len; Some (out\<lparr>ad_madt := m\<lparr>madt_summary := summary\<rparr>\<rparr>) }
          else if mcfg then
            do { m \<leftarrow> parse_mcfg raw effective_len; Some (out\<lparr>ad_mcfg := m\<lparr>mcfg_summary := summary\<rparr>\<rparr>) }
          else if hpet then
            do { p \<leftarrow> parse_hpet raw effective_len; Some (out\<lparr>ad_hpet := p\<lparr>hpet_summary := summary\<rparr>\<rparr>) }
          else Some out }"

definition effective_length :: "bytes \<Rightarrow> nat \<Rightarrow> nat option" where
  "effective_length raw raw_size =
     map_option (\<lambda>len. if 0 < len \<and> unat len \<le> raw_size then unat len else raw_size) (rd32 raw 4)"

definition acpi_table_body :: "bytes \<Rightarrow> nat \<Rightarrow> AcpiData \<Rightarrow> AcpiData option" where
  "acpi_table_body raw raw_size out =
     (if raw_size < sizeof_AcpiRawHeader then Some out
      else do { effective_len \<leftarrow> effective_length raw raw_size;
                valid \<leftarrow> checksum_ok raw effective_len;
                summary \<leftarrow> fill_summary raw effective_len valid;
                ds \<leftarrow> tbl_store ACPI_MAX_DISCOVERED_TABLES (ad_discovered out) summary;
                let out = out\<lparr>ad_discovered := ds\<rparr>;
                if valid then parse_known raw effective_len summary out else Some out })"

fun acpi_loop :: "os_firmware \<Rightarrow> u32 list \<Rightarrow> AcpiData \<Rightarrow> heap \<Rightarrow> (AcpiData \<times> heap) option" where
  "acpi_loop os [] out h = Some (out, h)"
| "acpi_loop os (s # sigs) out h =
     (if length (ad_discovered out) < ACPI_MAX_DISCOVERED_TABLES then
        do { (r, h) \<leftarrow> platform_get_acpi_table os s h;
             case r of
               None \<Rightarrow> acpi_loop os sigs out h
             | Some (b, raw, raw_size) \<Rightarrow>
                 do { out \<leftarrow> acpi_table_body raw raw_size out;
                      h \<leftarrow> h_free b h;
                      acpi_loop os sigs out h } }
      else Some (out, h))"

definition acpi_collect :: "os_firmware \<Rightarrow> heap \<Rightarrow> (bool \<times> AcpiData \<times> heap) option" where
  "acpi_collect os h =
     do { (r, h) \<leftarrow> platform_enum_acpi_signatures os h;
          case r of
            None \<Rightarrow> Some (False, acpi0, h)
          | Some (b, sigs) \<Rightarrow>
              do { (out, h) \<leftarrow> acpi_loop os sigs acpi0 h;
                   h \<leftarrow> h_free b h;
                   Some (True, out, h) } }"

end
