(* ===== verification/Acpi_Correct.thy ===== *)
theory Acpi_Correct
  imports Acpi
begin

text \<open>
  Correctness of \<open>acpi.c\<close>: the contract of a table parser and its four interpretations, safety
  of the collection, what is trusted and when, and the functional results on MADT and MCFG.
\<close>

section \<open>The contract of a table parser\<close>

text \<open>
  A parser given a table and a length inside it succeeds with a well-formed result, and it has
  looked at nothing beyond that length: it agrees with its run on the prefix.
\<close>

locale table_parser =
  fixes parse :: "bytes \<Rightarrow> nat \<Rightarrow> 'a option"
    and good :: "'a \<Rightarrow> bool"
  assumes parse_in: "len \<le> length buf \<Longrightarrow> \<exists>x. parse buf len = Some x \<and> good x"
    and parse_prefix: "agrees (parse buf len) (parse (buf @ rest) len)"
begin

lemma parse_local:
  assumes "len \<le> length buf"
  shows "parse buf len = parse (take len buf) len"
proof -
  obtain x where x: "parse (take len buf) len = Some x"
    using parse_in [of len "take len buf"] assms by auto
  have "parse (take len buf @ drop len buf) len = Some x"
    by (rule agrees_Some [OF parse_prefix x])
  with x show ?thesis by simp
qed

lemma parse_same:
  "len \<le> length a \<Longrightarrow> len \<le> length b \<Longrightarrow> take len a = take len b \<Longrightarrow> parse a len = parse b len"
  using parse_local [of len a] parse_local [of len b] by simp

end

definition madt_ok :: "AcpiMadtInfo \<Rightarrow> bool" where
  "madt_ok m \<longleftrightarrow> length (madt_processors m) \<le> ACPI_MAX_PROCESSORS"

definition mcfg_ok :: "AcpiMcfgInfo \<Rightarrow> bool" where
  "mcfg_ok m \<longleftrightarrow> length (mcfg_entries m) \<le> ACPI_MAX_MCFG_ENTRIES"

lemma madt_entry_in:
  assumes "p + unat n \<le> length buf" and "madt_ok out"
  shows "\<exists>out'. madt_entry buf p ty n out = Some out' \<and> madt_ok out'"
  using assms by (auto simp: madt_entry_def madt_ok_def word_le_nat_alt)

lemma madt_loop_in:
  "e \<le> length buf \<Longrightarrow> madt_ok out \<Longrightarrow> \<exists>out'. madt_loop buf e p out = Some out' \<and> madt_ok out'"
proof (induction buf e p out rule: madt_loop.induct)
  case (1 buf e p out)
  show ?case
  proof (cases "p + 2 \<le> e \<and> \<not> (buf ! (p + 1) < 2 \<or> e < p + unat (buf ! (p + 1)))")
    case False
    with "1.prems" show ?thesis by (subst madt_loop.simps) auto
  next
    case True
    with "1.prems" obtain o1 where o1: "madt_entry buf p (buf ! p) (buf ! (p + 1)) out = Some o1" "madt_ok o1"
      using madt_entry_in [of p "buf ! (p + 1)" buf out "buf ! p"] by auto
    from True "1.prems" o1 "1.IH" [of "buf ! p" "buf ! (p + 1)" o1] show ?thesis
      by (subst madt_loop.simps) auto
  qed
qed

lemma agrees_madt_loop [prefix_agree]: "agrees (madt_loop buf e p out) (madt_loop (buf @ rest) e p out)"
proof (induction buf e p out rule: madt_loop.induct)
  case (1 buf e p out)
  have step: "agrees (madt_entry buf p ty n o1) (madt_entry (buf @ rest) p ty n o1)" for ty n o1
    unfolding madt_entry_def by (intro prefix_agree)
  show ?case
    by (subst madt_loop.simps [of buf e p out], subst madt_loop.simps [of "buf @ rest" e p out])
      (intro prefix_agree step "1.IH"; assumption)
qed

lemma mcfg_loop_in:
  "e \<le> length buf \<Longrightarrow> mcfg_ok out \<Longrightarrow> \<exists>out'. mcfg_loop buf e p out = Some out' \<and> mcfg_ok out'"
proof (induction buf e p out rule: mcfg_loop.induct)
  case (1 buf e p out)
  show ?case
  proof (cases "p + 16 \<le> e \<and> length (mcfg_entries out) < ACPI_MAX_MCFG_ENTRIES")
    case False
    with "1.prems" show ?thesis by (subst mcfg_loop.simps) auto
  next
    case True
    with "1.prems" "1.IH" [OF True, of "le_word (take 8 (drop p buf))" "le_word (take 2 (drop (p + 8) buf))"
        "buf ! (p + 10)" "buf ! (p + 11)"]
    show ?thesis by (subst mcfg_loop.simps) (auto simp: mcfg_ok_def)
  qed
qed

lemma agrees_mcfg_loop [prefix_agree]: "agrees (mcfg_loop buf e p out) (mcfg_loop (buf @ rest) e p out)"
proof (induction buf e p out rule: mcfg_loop.induct)
  case (1 buf e p out)
  show ?case
    by (subst mcfg_loop.simps [of buf e p out], subst mcfg_loop.simps [of "buf @ rest" e p out])
      (intro prefix_agree "1.IH"; assumption)
qed

section \<open>The four parsers fulfil it\<close>

interpretation madt: table_parser parse_madt madt_ok
proof unfold_locales
  fix len and buf rest :: bytes
  show "agrees (parse_madt buf len) (parse_madt (buf @ rest) len)"
    unfolding parse_madt_def by (intro prefix_agree)
  assume "len \<le> length buf"
  moreover from this obtain out where
    "madt_loop buf len 44 (madt0\<lparr>madt_local_apic_address := le_word (take 4 (drop 36 buf))\<rparr>) = Some out"
    "madt_ok out"
    using madt_loop_in [of len buf "madt0\<lparr>madt_local_apic_address := le_word (take 4 (drop 36 buf))\<rparr>" 44]
    by (auto simp: madt_ok_def madt0_def)
  ultimately show "\<exists>x. parse_madt buf len = Some x \<and> madt_ok x"
    by (cases "len < 44") (auto simp: parse_madt_def sizeof_AcpiRawHeader_def madt_ok_def madt0_def)
qed

interpretation mcfg: table_parser parse_mcfg mcfg_ok
proof unfold_locales
  fix len and buf rest :: bytes
  show "agrees (parse_mcfg buf len) (parse_mcfg (buf @ rest) len)"
    unfolding parse_mcfg_def Let_def by (intro prefix_agree)
  assume "len \<le> length buf"
  then show "\<exists>x. parse_mcfg buf len = Some x \<and> mcfg_ok x"
    using mcfg_loop_in [of len buf mcfg0 44]
    by (cases "len < 44") (auto simp: parse_mcfg_def sizeof_AcpiRawHeader_def mcfg_ok_def mcfg0_def Let_def)
qed

interpretation fadt: table_parser parse_fadt "\<lambda>f. unat (fadt_sci_interrupt f) < 2 ^ 16"
proof unfold_locales
  fix len and buf rest :: bytes
  show "agrees (parse_fadt buf len) (parse_fadt (buf @ rest) len)"
    unfolding parse_fadt_def by (intro prefix_agree)
  assume "len \<le> length buf"
  moreover have "unat w < 65536" for w :: u16
    using unsigned_less [where 'a = nat, of w] by simp
  ultimately show "\<exists>x. parse_fadt buf len = Some x \<and> unat (fadt_sci_interrupt x) < 2 ^ 16"
    by (auto simp: parse_fadt_def fadt0_def unat_ucast_16_32)
qed

interpretation hpet: table_parser parse_hpet "\<lambda>p. hpet_available p \<or> p = hpet0"
proof unfold_locales
  fix len and buf rest :: bytes
  show "agrees (parse_hpet buf len) (parse_hpet (buf @ rest) len)"
    unfolding parse_hpet_def by (intro prefix_agree)
  assume "len \<le> length buf"
  then show "\<exists>x. parse_hpet buf len = Some x \<and> (hpet_available x \<or> x = hpet0)"
    by (auto simp: parse_hpet_def)
qed

section \<open>One table\<close>

text \<open>What the code records about a table, and the well-formedness of the collected data.\<close>

definition table_len :: "bytes \<Rightarrow> nat \<Rightarrow> nat" where
  "table_len raw raw_size =
     (let n = unat (le_word (take 4 (drop 4 raw)) :: u32) in if 0 < n \<and> n \<le> raw_size then n else raw_size)"

definition summary_of :: "bytes \<Rightarrow> nat \<Rightarrow> AcpiTableSummary" where
  "summary_of raw len = \<lparr>ts_signature = take 4 raw @ [0], ts_oem_id = take 6 (drop 10 raw) @ [0],
     ts_oem_table_id = take 8 (drop 16 raw) @ [0], ts_length = of_nat len, ts_revision = raw ! 8,
     ts_checksum_valid = (sum_list (take len raw) = 0)\<rparr>"

definition summary_ok :: "AcpiTableSummary \<Rightarrow> bool" where
  "summary_ok s \<longleftrightarrow> length (ts_signature s) = 5 \<and> nul_terminated (ts_signature s) \<and>
     length (ts_oem_id s) = 7 \<and> nul_terminated (ts_oem_id s) \<and>
     length (ts_oem_table_id s) = 9 \<and> nul_terminated (ts_oem_table_id s)"

definition trusted :: "string \<Rightarrow> bool \<Rightarrow> AcpiTableSummary \<Rightarrow> bool" where
  "trusted sg available s \<longleftrightarrow>
     (available \<longrightarrow> ts_checksum_valid s \<and> ts_signature s = ascii sg @ [0])"

definition acpi_ok :: "AcpiData \<Rightarrow> bool" where
  "acpi_ok d \<longleftrightarrow> length (ad_discovered d) \<le> ACPI_MAX_DISCOVERED_TABLES \<and>
     (\<forall>s \<in> set (ad_discovered d). summary_ok s) \<and> madt_ok (ad_madt d) \<and> mcfg_ok (ad_mcfg d) \<and>
     trusted ''FACP'' (fadt_available (ad_fadt d)) (fadt_summary (ad_fadt d)) \<and>
     trusted ''APIC'' (madt_available (ad_madt d)) (madt_summary (ad_madt d)) \<and>
     trusted ''MCFG'' (mcfg_available (ad_mcfg d)) (mcfg_summary (ad_mcfg d)) \<and>
     trusted ''HPET'' (hpet_available (ad_hpet d)) (hpet_summary (ad_hpet d))"

lemma acpi0_ok: "acpi_ok acpi0"
  by (simp add: acpi_ok_def acpi0_def trusted_def madt_ok_def mcfg_ok_def fadt0_def madt0_def
      mcfg0_def hpet0_def)

lemma summary_of_ok: "36 \<le> length raw \<Longrightarrow> summary_ok (summary_of raw len)"
  by (simp add: summary_ok_def summary_of_def nul_terminated_def)

lemma effective_length_in [safe_access]:
  "36 \<le> raw_size \<Longrightarrow> raw_size \<le> length raw \<Longrightarrow>
     effective_length raw raw_size = Some (table_len raw raw_size)"
  by (simp add: effective_length_def table_len_def Let_def word_gt_0 unat_gt_0)

lemma table_len_le: "table_len raw raw_size \<le> raw_size"
  by (simp add: table_len_def Let_def)

lemma checksum_ok_in [safe_access]:
  "len \<le> length raw \<Longrightarrow> checksum_ok raw len = Some (sum_list (take len raw) = 0)"
  by (simp add: checksum_ok_def sum8_loop_in)

lemma summary_of_valid: "ts_checksum_valid (summary_of raw len) \<longleftrightarrow> sum_list (take len raw) = 0"
  by (simp add: summary_of_def)

lemma fill_summary_in [safe_access]:
  "36 \<le> length raw \<Longrightarrow>
     fill_summary raw len (sum_list (take len raw) = 0) = Some (summary_of raw len)"
  by (simp add: fill_summary_def summary_of_def summary0_def list_update_append
      zeros_def numeral_eq_Suc)

lemma sig_is_in [safe_access]: "4 \<le> length raw \<Longrightarrow> sig_is raw sg = Some (take 4 raw = ascii sg)"
  by (simp add: sig_is_def)

lemma acpi_table_body_eq:
  assumes "36 \<le> raw_size" and "raw_size \<le> length raw"
    and "length (ad_discovered out) < ACPI_MAX_DISCOVERED_TABLES"
  shows "acpi_table_body raw raw_size out =
    (let len = table_len raw raw_size; s = summary_of raw len;
         out1 = out\<lparr>ad_discovered := ad_discovered out @ [s]\<rparr> in
     if ts_checksum_valid s then parse_known raw len s out1 else Some out1)"
proof -
  have len: "table_len raw raw_size \<le> length raw" using table_len_le assms(2) le_trans by blast
  have "36 \<le> length raw" using assms by simp
  then show ?thesis
    using assms len
    by (simp add: acpi_table_body_def sizeof_AcpiRawHeader_def safe_access Let_def summary_of_valid)
qed

lemma parse_known_in:
  assumes "36 \<le> length raw" and "len \<le> length raw" and "acpi_ok out"
    and "sum_list (take len raw) = 0"
  shows "\<exists>out'. parse_known raw len (summary_of raw len) out = Some out' \<and> acpi_ok out' \<and>
    ad_discovered out' = ad_discovered out"
proof -
  have s: "ts_checksum_valid (summary_of raw len)" "ts_signature (summary_of raw len) = take 4 raw @ [0]"
    using assms(4) by (simp_all add: summary_of_def)
  have sig: "sig_is raw sg = Some (take 4 raw = ascii sg)" for sg
    using assms(1) by (simp add: sig_is_in)
  obtain f m c p where pr: "parse_fadt raw len = Some f" "parse_madt raw len = Some m" "madt_ok m"
    "parse_mcfg raw len = Some c" "mcfg_ok c" "parse_hpet raw len = Some p"
    using fadt.parse_in [OF assms(2)] madt.parse_in [OF assms(2)] mcfg.parse_in [OF assms(2)]
      hpet.parse_in [OF assms(2)] by blast
  from pr(3,5) assms(3) show ?thesis
    by (auto simp: parse_known_def sig pr acpi_ok_def trusted_def s madt_ok_def mcfg_ok_def)
qed

lemma acpi_table_body_in:
  assumes "raw_size \<le> length raw" and "acpi_ok out"
    and "length (ad_discovered out) < ACPI_MAX_DISCOVERED_TABLES"
  shows "\<exists>out'. acpi_table_body raw raw_size out = Some out' \<and> acpi_ok out'"
proof (cases "36 \<le> raw_size")
  case False
  with assms(2) show ?thesis by (simp add: acpi_table_body_def sizeof_AcpiRawHeader_def)
next
  case True
  define len where "len = table_len raw raw_size"
  have len: "len \<le> length raw" using table_len_le assms(1) le_trans unfolding len_def by blast
  have l36: "36 \<le> length raw" using True assms(1) by simp
  define out1 where "out1 = out\<lparr>ad_discovered := ad_discovered out @ [summary_of raw len]\<rparr>"
  have ok: "acpi_ok out1"
    using assms(2,3) summary_of_ok [OF l36] by (simp add: out1_def acpi_ok_def)
  note eq = acpi_table_body_eq [OF True assms(1,3)]
  show ?thesis
  proof (cases "ts_checksum_valid (summary_of raw len)")
    case True
    then have "sum_list (take len raw) = 0" by (simp add: summary_of_def)
    from parse_known_in [OF l36 len ok this] True show ?thesis
      by (auto simp add: eq Let_def simp flip: len_def out1_def)
  next
    case False
    with ok show ?thesis by (simp add: eq Let_def flip: len_def out1_def)
  qed
qed

section \<open>The collection\<close>

lemma acpi_loop_in:
  "acpi_ok out \<Longrightarrow> \<exists>out' h'. acpi_loop os sigs out h = Some (out', h') \<and> acpi_ok out' \<and> balanced h h'"
proof (induction sigs arbitrary: out h)
  case Nil
  then show ?case by simp
next
  case (Cons s sigs)
  show ?case
  proof (cases "length (ad_discovered out) < ACPI_MAX_DISCOVERED_TABLES")
    case False
    with Cons.prems show ?thesis by simp
  next
    case True
    have use: "\<exists>x. acpi_table_body raw n out = Some x \<and> acpi_ok x" if "n \<le> length raw" for raw n
      using that Cons.prems True by (rule acpi_table_body_in)
    from acpi_table.use_table [of "\<lambda>raw n. acpi_table_body raw n out" acpi_ok, OF use Cons.prems, of os s h]
    obtain x h1 where x: "(do { (r, h) \<leftarrow> platform_get_acpi_table os s h;
        case r of None \<Rightarrow> Some (out, h)
        | Some (b, raw, n) \<Rightarrow> do { x \<leftarrow> acpi_table_body raw n out; h \<leftarrow> h_free b h; Some (x, h) } }) = Some (x, h1)"
      and ok: "acpi_ok x" "balanced h h1" by auto
    from x have "acpi_loop os (s # sigs) out h = acpi_loop os sigs x h1"
      using True by (auto split: option.splits bind_splits)
    moreover obtain out' h' where "acpi_loop os sigs x h1 = Some (out', h')" "acpi_ok out'" "balanced h1 h'"
      using Cons.IH [OF ok(1)] by blast
    ultimately show ?thesis using balanced_trans [OF ok(2)] by auto
  qed
qed

lemma acpi_collect_result:
  "\<exists>ok out h'. acpi_collect os h = Some (ok, out, h') \<and> acpi_ok out \<and> balanced h h'"
proof -
  obtain r h1 where e: "platform_enum_acpi_signatures os h = Some (r, h1)"
    and c: "case r of None \<Rightarrow> balanced h h1 | Some (b, sigs) \<Rightarrow> owns b h h1 \<and> length sigs \<le> unat (en_size os ACPI) div 4"
    using enum_contract [of os h] by blast
  show ?thesis
  proof (cases r)
    case None
    with e c acpi0_ok show ?thesis by (auto simp: acpi_collect_def)
  next
    case (Some t)
    obtain b sigs where t: "t = (b, sigs)" by (cases t)
    with Some c have own: "owns b h h1" by simp
    obtain out h2 where l: "acpi_loop os sigs acpi0 h1 = Some (out, h2)" "acpi_ok out" "balanced h1 h2"
      using acpi_loop_in [OF acpi0_ok] by blast
    obtain h3 where "h_free b h2 = Some h3" "balanced h h3"
      using owns_free [OF owns_balanced [OF own l(3)]] by blast
    with e Some t l show ?thesis by (auto simp: acpi_collect_def)
  qed
qed

text \<open>
  C5. \<open>acpi_collect\<close> is safe and leak-free against every firmware. Whatever the operating
  system enumerates and whatever bytes its tables hold, it ends, reads only inside the tables
  it was given and writes only inside its arrays (64 tables, 512 processors, 16 MCFG entries),
  frees every block it obtained exactly once, and returns data in which a parsed FADT, MADT,
  MCFG or HPET is available only with a summary that carries that table's signature and a
  valid checksum.
\<close>

theorem acpi_collect_safe:
  "\<exists>ok out h'. acpi_collect os h = Some (ok, out, h') \<and> acpi_ok out \<and> balanced h h'"
  by (rule acpi_collect_result)

text \<open>
  What is recorded of a table and what is believed. A fetched table of at least header size
  is always recorded: signature, OEM strings (NUL-terminated), the length the code settled on,
  and a checksum flag that is the truth about those bytes. When the bytes do not sum to zero,
  nothing but that record changes: no parsed FADT, MADT, MCFG or HPET is touched.
\<close>

theorem acpi_table_recorded:
  assumes "36 \<le> raw_size" and "raw_size \<le> length raw" and "acpi_ok out"
    and "length (ad_discovered out) < ACPI_MAX_DISCOVERED_TABLES"
  shows "\<exists>out'. acpi_table_body raw raw_size out = Some out' \<and>
    ad_discovered out' = ad_discovered out @ [summary_of raw (table_len raw raw_size)] \<and>
    (sum_list (take (table_len raw raw_size) raw) \<noteq> 0 \<longrightarrow>
       ad_fadt out' = ad_fadt out \<and> ad_madt out' = ad_madt out \<and>
       ad_mcfg out' = ad_mcfg out \<and> ad_hpet out' = ad_hpet out)"
proof -
  define len where "len = table_len raw raw_size"
  have len: "len \<le> length raw" using table_len_le assms(2) le_trans unfolding len_def by blast
  have l36: "36 \<le> length raw" using assms(1,2) by simp
  define out1 where "out1 = out\<lparr>ad_discovered := ad_discovered out @ [summary_of raw len]\<rparr>"
  have ok: "acpi_ok out1"
    using assms(3,4) summary_of_ok [OF l36] by (simp add: out1_def acpi_ok_def)
  note eq = acpi_table_body_eq [OF assms(1,2,4)]
  show ?thesis
  proof (cases "sum_list (take len raw) = 0")
    case True
    from parse_known_in [OF l36 len ok True] True show ?thesis
      by (auto simp: eq Let_def summary_of_valid out1_def simp flip: len_def)
  next
    case False
    then show ?thesis by (simp add: eq Let_def summary_of_valid flip: len_def)
  qed
qed

theorem acpi_table_recorded_witness:
  "\<exists>out'. acpi_table_body (zeros 8 @ [7] @ zeros 27) 36 acpi0 = Some out' \<and>
     ad_discovered out' = [summary_of (zeros 8 @ [7] @ zeros 27) 36] \<and> ad_madt out' = madt0"
proof -
  let ?raw = "zeros 8 @ [7] @ zeros 27"
  have "table_len ?raw 36 = 36"
    by (simp add: table_len_def zeros_def numeral_eq_Suc)
  moreover have "sum_list (take 36 ?raw) \<noteq> 0"
    by (simp add: zeros_def sum_list_replicate)
  ultimately show ?thesis
    using acpi_table_recorded [of 36 ?raw acpi0] acpi0_ok
    by (auto simp: acpi0_def ACPI_MAX_DISCOVERED_TABLES_def)
qed

text \<open>
  C11. Only checksummed bytes are used. When the length the code settled on covers the header,
  the effect of a fetched table is a function of exactly the bytes its checksum covers: two
  buffers that agree on them give the same result, whatever follows.
\<close>

theorem acpi_table_covered:
  assumes "36 \<le> table_len raw raw_size" and "raw_size \<le> length raw"
    and "length (ad_discovered out) < ACPI_MAX_DISCOVERED_TABLES"
  shows "acpi_table_body raw raw_size out =
    acpi_table_body (take (table_len raw raw_size) raw) (table_len raw raw_size) out"
proof -
  define len where "len = table_len raw raw_size"
  have n: "36 \<le> raw_size" using assms(1) table_len_le le_trans by blast
  have len: "36 \<le> len" "len \<le> length raw"
    using assms(1,2) table_len_le [of raw raw_size] by (auto simp: len_def)
  have tl: "table_len (take len raw) len = len"
    using len assms(1) by (auto simp: table_len_def Let_def len_def drop_take min_def split: if_splits)
  have sm: "summary_of (take len raw) len = summary_of raw len"
    using len by (simp add: summary_of_def drop_take min_def)
  have sig: "sig_is (take len raw) sg = sig_is raw sg" for sg
    using len by (simp add: sig_is_in min_def)
  have pk: "parse_known (take len raw) len s o1 = parse_known raw len s o1" for s o1
    by (simp add: parse_known_def sig fadt.parse_local [OF len(2), symmetric] madt.parse_local [OF len(2), symmetric]
        mcfg.parse_local [OF len(2), symmetric] hpet.parse_local [OF len(2), symmetric] cong: if_cong)
  have "36 \<le> len" "len \<le> length (take len raw)" using len by simp_all
  from acpi_table_body_eq [OF this assms(3)] acpi_table_body_eq [OF n assms(2,3)]
  show ?thesis by (simp add: tl sm pk Let_def flip: len_def cong: if_cong)
qed

theorem acpi_table_covered_witness:
  "acpi_table_body (zeros 4 @ [36] @ zeros 31 @ [1, 2, 3]) 39 acpi0 =
     acpi_table_body (zeros 4 @ [36] @ zeros 31) 36 acpi0"
proof -
  let ?raw = "zeros 4 @ [36] @ zeros 31 @ [1, 2, 3]"
  have tl: "table_len ?raw 39 = 36"
    by (simp add: table_len_def zeros_def Let_def numeral_3_eq_3)
  have "take 36 ?raw = zeros 4 @ [36] @ zeros 31" by simp
  with tl show ?thesis
    using acpi_table_covered [of ?raw 39 acpi0] by (simp add: acpi0_def ACPI_MAX_DISCOVERED_TABLES_def)
qed

section \<open>MADT and MCFG on their wire formats\<close>

text \<open>
  The interrupt controller structures of a MADT: the two kinds the code reads, each with the
  bytes that may follow its fields, and any other kind. A structure starts with its type and
  its length.
\<close>

datatype madt_record =
    LocalApic u8 u8 u32 bytes
  | LocalX2Apic u16 u32 u32 u32 bytes
  | OtherRecord u8 bytes

fun encode_record :: "madt_record \<Rightarrow> bytes" where
  "encode_record (LocalApic acpi apic flags extra) =
     [0, of_nat (8 + length extra), acpi, apic] @ le_bytes 4 flags @ extra"
| "encode_record (LocalX2Apic reserved x2apic flags uid extra) =
     [9, of_nat (16 + length extra)] @ le_bytes 2 reserved @ le_bytes 4 x2apic @ le_bytes 4 flags @
     le_bytes 4 uid @ extra"
| "encode_record (OtherRecord ty body) = [ty, of_nat (2 + length body)] @ body"

fun wf_record :: "madt_record \<Rightarrow> bool" where
  "wf_record (LocalApic acpi apic flags extra) \<longleftrightarrow> length extra < 248"
| "wf_record (LocalX2Apic reserved x2apic flags uid extra) \<longleftrightarrow> length extra < 240"
| "wf_record (OtherRecord ty body) \<longleftrightarrow> length body < 254 \<and> ty \<noteq> 0 \<and> ty \<noteq> 9"

text \<open>The processor a structure declares; an x2APIC structure has no 8-bit identifiers.\<close>

fun processor_of :: "madt_record \<Rightarrow> AcpiProcessorEntry option" where
  "processor_of (LocalApic acpi apic flags extra) =
     Some \<lparr>pe_apic_id = apic, pe_acpi_processor_id = acpi, pe_x2apic_id = 0, pe_is_x2apic = False,
       pe_enabled = bit flags 0, pe_online_capable = bit flags 1\<rparr>"
| "processor_of (LocalX2Apic reserved x2apic flags uid extra) =
     Some \<lparr>pe_apic_id = 0, pe_acpi_processor_id = 0, pe_x2apic_id = x2apic, pe_is_x2apic = True,
       pe_enabled = bit flags 0, pe_online_capable = bit flags 1\<rparr>"
| "processor_of (OtherRecord ty body) = None"

definition add_processor :: "madt_record \<Rightarrow> AcpiMadtInfo \<Rightarrow> AcpiMadtInfo" where
  "add_processor r m = m\<lparr>madt_processors := take ACPI_MAX_PROCESSORS
     (madt_processors m @ (case processor_of r of None \<Rightarrow> [] | Some p \<Rightarrow> [p]))\<rparr>"

lemma flag_bits: "(w AND 1 :: u32) \<noteq> 0 \<longleftrightarrow> bit w 0" "(w AND 2 :: u32) \<noteq> 0 \<longleftrightarrow> bit w 1"
  using and_exp_eq_0_iff_not_bit [of w 0] and_exp_eq_0_iff_not_bit [of w 1] by simp_all

lemma record_len:
  assumes "wf_record r"
  shows "2 \<le> length (encode_record r)" and "length (encode_record r) < 256"
    and "encode_record r ! 1 = of_nat (length (encode_record r))"
  using assms by (cases r; simp)+

lemma unat_of_nat_u8: "n < 256 \<Longrightarrow> unat (of_nat n :: u8) = n"
  by (simp add: unat_of_nat)

lemma le_word_take_le_bytes:
  "LENGTH('a) \<le> 8 * n \<Longrightarrow> le_word (take n (le_bytes n (w :: 'a::len word) @ bs)) = w"
  by (simp add: le_word_le_bytes_full)

lemma madt_entry_encode:
  assumes "wf_record r" and "madt_ok m"
  shows "madt_entry (pre @ encode_record r @ suf) (length pre) (encode_record r ! 0)
    (encode_record r ! 1) m = Some (add_processor r m)"
proof -
  have cap: "\<not> length (madt_processors m) < ACPI_MAX_PROCESSORS \<Longrightarrow>
      length (madt_processors m) = ACPI_MAX_PROCESSORS"
    using assms(2) by (simp add: madt_ok_def)
  show ?thesis
  proof (cases r)
    case (LocalApic acpi apic flags extra)
    with assms(1) have n: "unat (of_nat (8 + length extra) :: u8) = 8 + length extra"
      by (intro unat_of_nat_u8) simp
    show ?thesis
      using LocalApic n cap
      by (cases "length (madt_processors m) < ACPI_MAX_PROCESSORS")
        (simp_all add: madt_entry_def word_le_nat_alt nth_append le_word_le_bytes_full flag_bits
          add_processor_def processor0_def)
  next
    case (LocalX2Apic reserved x2apic flags uid extra)
    with assms(1) have n: "unat (of_nat (16 + length extra) :: u8) = 16 + length extra"
      by (intro unat_of_nat_u8) simp
    show ?thesis
      using LocalX2Apic n cap
      by (cases "length (madt_processors m) < ACPI_MAX_PROCESSORS")
        (simp_all add: madt_entry_def word_le_nat_alt nth_append le_word_le_bytes_full flag_bits
          add_processor_def processor0_def)
  next
    case (OtherRecord ty body)
    with assms show ?thesis
      by (simp add: madt_entry_def add_processor_def madt_ok_def)
  qed
qed

lemma add_processor_ok: "madt_ok (add_processor r m)"
  by (simp add: madt_ok_def add_processor_def)

lemma madt_loop_encode:
  "\<forall>r \<in> set rs. wf_record r \<Longrightarrow> madt_ok m \<Longrightarrow>
     e = length pre + length (concat (map encode_record rs)) \<Longrightarrow>
     madt_loop (pre @ concat (map encode_record rs) @ suf) e (length pre) m = Some (fold add_processor rs m)"
proof (induction rs arbitrary: pre m)
  case Nil
  then show ?case by (subst madt_loop.simps) simp
next
  case (Cons r rs)
  have wf: "wf_record r" using Cons.prems(1) by simp
  note rl = record_len [OF wf]
  define x where "x = encode_record r"
  define buf where "buf = pre @ x @ concat (map encode_record rs) @ suf"
  have lx: "2 \<le> length x" "length x < 256" "x ! 1 = of_nat (length x)"
    using rl by (simp_all add: x_def)
  have rd: "rd8 buf (length pre) = Some (x ! 0)" "rd8 buf (length pre + 1) = Some (x ! 1)"
    using lx(1) by (auto simp add: buf_def nth_append rd8_def)
  have un: "unat (x ! 1) = length x" using lx(2,3) by (simp add: unat_of_nat_u8)
  have st: "madt_entry buf (length pre) (x ! 0) (x ! 1) m = Some (add_processor r m)"
    unfolding buf_def x_def by (rule madt_entry_encode [OF wf Cons.prems(2)])
  have e: "e = length pre + (length x + length (concat (map encode_record rs)))"
    using Cons.prems(3) by (simp add: x_def)
  have "madt_loop buf e (length pre) m = madt_loop buf e (length pre + length x) (add_processor r m)"
    using lx(1)
    by (subst madt_loop.simps) (simp add: rd [simplified] st [simplified] un [simplified] word_less_nat_alt e)
  also have "\<dots> = Some (fold add_processor rs (add_processor r m))"
    using Cons.IH [of "add_processor r m" "pre @ x"] Cons.prems add_processor_ok
    by (simp add: buf_def x_def)
  finally show ?case by (simp add: buf_def x_def)
qed

lemma fold_add_processor:
  "madt_ok m \<Longrightarrow> fold add_processor rs m = m\<lparr>madt_processors :=
     take ACPI_MAX_PROCESSORS (madt_processors m @ List.map_filter processor_of rs)\<rparr>"
proof (induction rs arbitrary: m)
  case Nil
  then show ?case by (simp add: madt_ok_def map_filter_simps)
next
  case (Cons r rs)
  have "fold add_processor (r # rs) m = (add_processor r m)\<lparr>madt_processors :=
      take ACPI_MAX_PROCESSORS (madt_processors (add_processor r m) @ List.map_filter processor_of rs)\<rparr>"
    using Cons.IH [OF add_processor_ok] by simp
  also have "\<dots> = m\<lparr>madt_processors :=
      take ACPI_MAX_PROCESSORS (madt_processors m @ List.map_filter processor_of (r # rs))\<rparr>"
    by (simp add: add_processor_def map_filter_simps take_take_append del: take_append split: option.splits)
  finally show ?case .
qed

text \<open>
  C12. MADT round trip. The parser, given any header, a local APIC address, flags and any
  sequence of well-formed interrupt controller structures (of the two processor kinds, with or
  without trailing bytes, and of any other kind), recovers the address and exactly the
  processors declared, in order, up to 512: identifiers, kind, enabled and online-capable bits.
\<close>

theorem parse_madt_roundtrip:
  assumes "length header = 36" and "\<forall>r \<in> set rs. wf_record r"
    and "table = header @ le_bytes 4 address @ le_bytes 4 flags @ concat (map encode_record rs)"
  shows "parse_madt (table @ slack) (length table) =
    Some \<lparr>madt_available = True, madt_summary = summary0, madt_local_apic_address = address,
      madt_processors = take ACPI_MAX_PROCESSORS (List.map_filter processor_of rs)\<rparr>"
proof -
  let ?pre = "header @ le_bytes 4 address @ le_bytes 4 flags"
  define m where "m = madt0\<lparr>madt_local_apic_address := address\<rparr>"
  have ok: "madt_ok m" by (simp add: m_def madt_ok_def madt0_def)
  have "madt_loop (?pre @ concat (map encode_record rs) @ slack) (length table) (length ?pre) m =
      Some (fold add_processor rs m)"
    by (rule madt_loop_encode [OF assms(2) ok]) (simp add: assms(3))
  then have "madt_loop (table @ slack) (length table) 44 m = Some (fold add_processor rs m)"
    by (simp add: assms(1,3))
  moreover have "rd32 (table @ slack) 36 = Some address"
    using assms(1) by (simp add: assms(3) le_word_le_bytes_full)
  moreover have "44 \<le> length table" using assms(1) by (simp add: assms(3))
  ultimately show ?thesis
    by (simp add: parse_madt_def sizeof_AcpiRawHeader_def fold_add_processor [OF ok] flip: m_def)
      (simp add: m_def madt0_def)
qed

theorem parse_madt_roundtrip_witness:
  "parse_madt (zeros 36 @ le_bytes 4 (0xFEE00000 :: u32) @ le_bytes 4 (1 :: u32) @
       [1, 4, 7, 7, 0, 8, 1, 2] @ le_bytes 4 (1 :: u32) @ [255]) 56 =
     Some \<lparr>madt_available = True, madt_summary = summary0, madt_local_apic_address = 0xFEE00000,
       madt_processors = [\<lparr>pe_apic_id = 2, pe_acpi_processor_id = 1, pe_x2apic_id = 0,
         pe_is_x2apic = False, pe_enabled = True, pe_online_capable = False\<rparr>]\<rparr>"
proof -
  let ?rs = "[OtherRecord 1 [7, 7], LocalApic 1 2 1 []]"
  have "\<forall>r \<in> set ?rs. wf_record r" by simp
  from parse_madt_roundtrip [OF length_zeros this refl, where address = "0xFEE00000" and flags = 1
      and slack = "[255]"]
  show ?thesis by (simp add: map_filter_simps ACPI_MAX_PROCESSORS_def)
qed

fun encode_mcfg :: "AcpiMcfgEntry \<times> bytes \<Rightarrow> bytes" where
  "encode_mcfg (m, reserved) = le_bytes 8 (me_base_address m) @ le_bytes 2 (me_pci_segment_group m) @
     [me_start_bus m, me_end_bus m] @ reserved"

lemma mcfg_loop_encode:
  "\<forall>x \<in> set es. length (snd x) = 4 \<Longrightarrow> mcfg_ok m \<Longrightarrow> length part < 16 \<Longrightarrow>
     e = length pre + length (concat (map encode_mcfg es)) + length part \<Longrightarrow>
     mcfg_loop (pre @ concat (map encode_mcfg es) @ part @ suf) e (length pre) m =
       Some (m\<lparr>mcfg_entries := take ACPI_MAX_MCFG_ENTRIES (mcfg_entries m @ map fst es)\<rparr>)"
proof (induction es arbitrary: pre m)
  case Nil
  then show ?case by (subst mcfg_loop.simps) (simp add: mcfg_ok_def)
next
  case (Cons x es)
  obtain c r where x: "x = (c, r)" by (cases x)
  define z where "z = encode_mcfg x"
  define buf where "buf = pre @ z @ concat (map encode_mcfg es) @ part @ suf"
  have r: "length r = 4" using Cons.prems(1) x by simp
  then have lz: "length z = 16" by (simp add: z_def x)
  have rd: "rd64 buf (length pre) = Some (me_base_address c)"
    "rd16 buf (length pre + 8) = Some (me_pci_segment_group c)"
    "rd8 buf (length pre + 10) = Some (me_start_bus c)"
    "rd8 buf (length pre + 11) = Some (me_end_bus c)"
    using r by (simp_all add: buf_def z_def x le_word_le_bytes_full nth_append)
  have e: "e = length pre + (16 + (length (concat (map encode_mcfg es)) + length part))"
    using Cons.prems(4) lz by (simp add: z_def)
  show ?case
  proof (cases "length (mcfg_entries m) < ACPI_MAX_MCFG_ENTRIES")
    case False
    with Cons.prems(2) have "length (mcfg_entries m) = ACPI_MAX_MCFG_ENTRIES" by (simp add: mcfg_ok_def)
    then show ?thesis by (subst mcfg_loop.simps) simp
  next
    case True
    define m1 where "m1 = m\<lparr>mcfg_entries := mcfg_entries m @ [c]\<rparr>"
    have c: "\<lparr>me_base_address = me_base_address c, me_pci_segment_group = me_pci_segment_group c,
        me_start_bus = me_start_bus c, me_end_bus = me_end_bus c\<rparr> = c" by simp
    have ok: "mcfg_ok m1" using True by (simp add: m1_def mcfg_ok_def)
    have "mcfg_loop buf e (length pre) m = mcfg_loop buf e (length pre + 16) m1"
      using True by (subst mcfg_loop.simps) (simp add: e rd m1_def c)
    also have "\<dots> = Some (m1\<lparr>mcfg_entries := take ACPI_MAX_MCFG_ENTRIES (mcfg_entries m1 @ map fst es)\<rparr>)"
      using Cons.IH [of m1 "pre @ z"] Cons.prems(1,3) ok by (simp add: buf_def lz e)
    finally show ?thesis by (simp add: buf_def z_def x m1_def)
  qed
qed

text \<open>
  MCFG round trip. For any header, reserved field and list of ECAM allocations, and fewer
  than 16 trailing bytes, the parser returns exactly the first 16 allocations: base address,
  segment group and bus range.
\<close>

theorem parse_mcfg_roundtrip:
  assumes "length header = 44" and "\<forall>x \<in> set es. length (snd x) = 4" and "length part < 16"
    and "table = header @ concat (map encode_mcfg es) @ part"
  shows "parse_mcfg (table @ slack) (length table) =
    Some \<lparr>mcfg_available = True, mcfg_summary = summary0,
      mcfg_entries = take ACPI_MAX_MCFG_ENTRIES (map fst es)\<rparr>"
proof -
  have "mcfg_loop (table @ slack) (length table) (length header) mcfg0 =
      Some (mcfg0\<lparr>mcfg_entries := take ACPI_MAX_MCFG_ENTRIES (mcfg_entries mcfg0 @ map fst es)\<rparr>)"
    using mcfg_loop_encode [OF assms(2) _ assms(3), of mcfg0 "length table" header slack]
    by (simp add: assms(4) mcfg_ok_def mcfg0_def)
  moreover have "44 \<le> length table" using assms(1) by (simp add: assms(4))
  ultimately show ?thesis
    by (simp add: assms(1) parse_mcfg_def sizeof_AcpiRawHeader_def Let_def mcfg0_def)
qed

theorem parse_mcfg_roundtrip_witness:
  "parse_mcfg (zeros 44 @ le_bytes 8 (0xE0000000 :: u64) @ [0, 0] @ [0, 255] @ zeros 4 @ [1, 2]) 62 =
     Some \<lparr>mcfg_available = True, mcfg_summary = summary0, mcfg_entries =
       [\<lparr>me_base_address = 0xE0000000, me_pci_segment_group = 0, me_start_bus = 0, me_end_bus = 255\<rparr>]\<rparr>"
proof -
  let ?es = "[(\<lparr>me_base_address = 0xE0000000, me_pci_segment_group = 0, me_start_bus = 0,
    me_end_bus = 255\<rparr>, zeros 4)]"
  have "\<forall>x \<in> set ?es. length (snd x) = 4" and "length ([1, 2] :: bytes) < 16" by simp_all
  from parse_mcfg_roundtrip [OF length_zeros this refl, of "[]"]
  show ?thesis by (simp add: ACPI_MAX_MCFG_ENTRIES_def numeral_2_eq_2)
qed

section \<open>A limit of the trust\<close>

text \<open>
  A header length below the header size is accepted. The checks bound the length field only
  from above, so a 36-byte table whose length field says 1 is checksummed over its first byte
  alone and is recorded as valid, with a summary read from bytes no checksum covers.
\<close>

theorem short_length_recorded_valid:
  "acpi_table_body ([0, 88, 88, 88, 1, 0, 0, 0] @ replicate 28 77) 36 acpi0 =
     Some (acpi0\<lparr>ad_discovered := [\<lparr>ts_signature = [0, 88, 88, 88, 0],
       ts_oem_id = replicate 6 77 @ [0], ts_oem_table_id = replicate 8 77 @ [0],
       ts_length = 1, ts_revision = 77, ts_checksum_valid = True\<rparr>]\<rparr>)"
proof -
  define raw where "raw = [0, 88, 88, 88, 1, 0, 0, 0] @ replicate 28 (77 :: u8)"
  have tl: "table_len raw 36 = 1" by (simp add: table_len_def Let_def raw_def)
  have s: "summary_of raw 1 = \<lparr>ts_signature = [0, 88, 88, 88, 0],
      ts_oem_id = replicate 6 77 @ [0], ts_oem_table_id = replicate 8 77 @ [0],
      ts_length = 1, ts_revision = 77, ts_checksum_valid = True\<rparr>"
    by (simp add: summary_of_def raw_def)
  have pk: "parse_known raw 1 x out = Some out" for x out
    by (simp add: parse_known_def sig_is_def ascii_def raw_def)
  have "36 \<le> length raw" "length (ad_discovered acpi0) < ACPI_MAX_DISCOVERED_TABLES"
    by (simp_all add: raw_def acpi0_def ACPI_MAX_DISCOVERED_TABLES_def)
  from acpi_table_body_eq [OF order_refl this] show ?thesis
    unfolding raw_def [symmetric] by (simp add: tl s [simplified] pk [simplified] Let_def) (simp add: acpi0_def)
qed

end
