(* ===== verification/Driver.thy ===== *)
theory Driver
  imports HW_Prelude
begin

text \<open>
  The WDM driver \<open>driver/hwmon_driver.c\<close> and its wire protocol \<open>driver/hwmon_ioctl.h\<close>: model
  only; its properties are in \<open>Driver_Correct\<close>.

  Every interaction with the machine is an event of a log (\<open>hw_event\<close>), in program order. What
  the machine and the kernel answer is a parameter (\<open>machine\<close>): the value of an MSR or \<open>None\<close>
  for #GP, the configuration dword an address selects, whether a mapping succeeds, and the
  dword at a physical address or \<open>None\<close> for a fault the handler catches. \<open>CTL_CODE\<close> is a macro
  of the Windows headers and a parameter too.
\<close>

section \<open>The machine\<close>

datatype hw_event =
    RdMsr u32
  | WrMsr u32 u64
  | OutDword u16 u32
  | InDword u16
  | AcquireSpinLock
  | ReleaseSpinLock
  | MapPage u64
  | MapFailed u64
  | ReadMmio u64
  | UnmapPage u64

record machine =
  m_rdmsr :: "u32 \<Rightarrow> u64 option"
  m_config :: "u32 \<Rightarrow> u32"
  m_map_ok :: "u64 \<Rightarrow> bool"
  m_mmio :: "u64 \<Rightarrow> u32 option"
  m_ctl_code :: "u32 \<Rightarrow> u32 \<Rightarrow> u32 \<Rightarrow> u32 \<Rightarrow> u32"

datatype NTSTATUS =
    STATUS_SUCCESS
  | STATUS_INVALID_PARAMETER
  | STATUS_UNSUCCESSFUL
  | STATUS_NOT_SUPPORTED
  | STATUS_BUFFER_TOO_SMALL
  | STATUS_ACCESS_DENIED
  | STATUS_INVALID_DEVICE_REQUEST
  | STATUS_OTHER int

text \<open>\<open>NT_SUCCESS\<close>: the status is non-negative as a signed number.\<close>

fun NT_SUCCESS :: "NTSTATUS \<Rightarrow> bool" where
  "NT_SUCCESS STATUS_SUCCESS = True"
| "NT_SUCCESS (STATUS_OTHER n) = (0 \<le> n)"
| "NT_SUCCESS _ = False"

section \<open>The wire protocol\<close>

definition HWMON_DEVICE_TYPE :: u32 where "HWMON_DEVICE_TYPE = 0x8000"
definition METHOD_BUFFERED :: u32 where "METHOD_BUFFERED = 0"
definition FILE_READ_ACCESS :: u32 where "FILE_READ_ACCESS = 1"

definition IOCTL_HWMON_READ_MSR :: "machine \<Rightarrow> u32" where
  "IOCTL_HWMON_READ_MSR m = m_ctl_code m HWMON_DEVICE_TYPE 0x800 METHOD_BUFFERED FILE_READ_ACCESS"

definition IOCTL_HWMON_READ_PCI_CONFIG :: "machine \<Rightarrow> u32" where
  "IOCTL_HWMON_READ_PCI_CONFIG m = m_ctl_code m HWMON_DEVICE_TYPE 0x801 METHOD_BUFFERED FILE_READ_ACCESS"

definition IOCTL_HWMON_READ_PCIE_ECAM :: "machine \<Rightarrow> u32" where
  "IOCTL_HWMON_READ_PCIE_ECAM m = m_ctl_code m HWMON_DEVICE_TYPE 0x802 METHOD_BUFFERED FILE_READ_ACCESS"

text \<open>The packed input structures, and how \<open>RtlCopyMemory\<close> fills them from the buffer.\<close>

record HwmonReadPciConfigInput =
  pi_bus :: u8
  pi_device :: u8
  pi_function :: u8
  pi_offset :: u8

record HwmonReadPcieEcamInput =
  ei_ecam_base :: u64
  ei_bus :: u8
  ei_device :: u8
  ei_function :: u8
  ei_offset :: u16

definition sizeof_ReadMsrInput :: nat where "sizeof_ReadMsrInput = 4"
definition sizeof_ReadMsrOutput :: nat where "sizeof_ReadMsrOutput = 8"
definition sizeof_ReadPciConfigInput :: nat where "sizeof_ReadPciConfigInput = 4"
definition sizeof_ReadPciConfigOutput :: nat where "sizeof_ReadPciConfigOutput = 4"
definition sizeof_ReadPcieEcamInput :: nat where "sizeof_ReadPcieEcamInput = 13"
definition sizeof_ReadPcieEcamOutput :: nat where "sizeof_ReadPcieEcamOutput = 4"

definition read_pci_input :: "bytes \<Rightarrow> HwmonReadPciConfigInput option" where
  "read_pci_input buf =
     do { b \<leftarrow> rd8 buf 0; d \<leftarrow> rd8 buf 1; f \<leftarrow> rd8 buf 2; off \<leftarrow> rd8 buf 3;
          Some \<lparr>pi_bus = b, pi_device = d, pi_function = f, pi_offset = off\<rparr> }"

definition read_ecam_input :: "bytes \<Rightarrow> HwmonReadPcieEcamInput option" where
  "read_ecam_input buf =
     do { base \<leftarrow> rd64 buf 0; b \<leftarrow> rd8 buf 8; d \<leftarrow> rd8 buf 9; f \<leftarrow> rd8 buf 10; off \<leftarrow> rd16 buf 11;
          Some \<lparr>ei_ecam_base = base, ei_bus = b, ei_device = d, ei_function = f, ei_offset = off\<rparr> }"

section \<open>The three primitives\<close>

definition g_msr_whitelist :: "u32 list" where
  "g_msr_whitelist = [0x10, 0xE7, 0xE8, 0x198, 0x19C, 0x1A2, 0x1B1]"

fun whitelist_loop :: "u32 list \<Rightarrow> u32 \<Rightarrow> bool" where
  "whitelist_loop [] msr = False"
| "whitelist_loop (w # ws) msr = (if w = msr then True else whitelist_loop ws msr)"

definition MsrIsWhitelisted :: "u32 \<Rightarrow> bool" where
  "MsrIsWhitelisted msr = whitelist_loop g_msr_whitelist msr"

definition SafeReadMsr :: "machine \<Rightarrow> u32 \<Rightarrow> u64 \<Rightarrow> NTSTATUS \<times> u64 \<times> hw_event list" where
  "SafeReadMsr m msr outValue =
     (case m_rdmsr m msr of
        Some v \<Rightarrow> (STATUS_SUCCESS, v, [RdMsr msr])
      | None \<Rightarrow> (STATUS_NOT_SUPPORTED, outValue, [RdMsr msr]))"

definition config_address :: "u8 \<Rightarrow> u8 \<Rightarrow> u8 \<Rightarrow> u8 \<Rightarrow> u32" where
  "config_address bus device function offset =
     0x80000000 OR push_bit 16 (ucast bus) OR push_bit 11 (ucast (device AND 0x1F)) OR
     push_bit 8 (ucast (function AND 0x7)) OR ucast (offset AND 0xFC)"

definition ReadPciConfigDwordLegacy ::
    "machine \<Rightarrow> u8 \<Rightarrow> u8 \<Rightarrow> u8 \<Rightarrow> u8 \<Rightarrow> u32 \<times> hw_event list" where
  "ReadPciConfigDwordLegacy m bus device function offset =
     (let address = config_address bus device function offset in
      (m_config m address, [AcquireSpinLock, OutDword 0xCF8 address, InDword 0xCFC, ReleaseSpinLock]))"

definition ecam_address :: "u64 \<Rightarrow> u8 \<Rightarrow> u8 \<Rightarrow> u8 \<Rightarrow> u64" where
  "ecam_address base bus device function =
     base + (push_bit 20 (ucast bus) OR push_bit 15 (ucast device) OR push_bit 12 (ucast function))"

definition ReadPcieConfigDwordEcam ::
    "machine \<Rightarrow> u64 \<Rightarrow> u8 \<Rightarrow> u8 \<Rightarrow> u8 \<Rightarrow> u16 \<Rightarrow> u32 \<Rightarrow> NTSTATUS \<times> u32 \<times> hw_event list" where
  "ReadPcieConfigDwordEcam m ecamBase bus device function offset outValue =
     (if 4092 < offset \<or> device AND NOT 0x1F \<noteq> 0 \<or> function AND NOT 0x7 \<noteq> 0
      then (STATUS_INVALID_PARAMETER, outValue, [])
      else
        let phys = ecam_address ecamBase bus device function in
        if \<not> m_map_ok m phys then (STATUS_UNSUCCESSFUL, outValue, [MapFailed phys])
        else
          let a = phys + ucast (offset AND 0xFFC) in
          case m_mmio m a of
            Some v \<Rightarrow> (STATUS_SUCCESS, v, [MapPage phys, ReadMmio a, UnmapPage phys])
          | None \<Rightarrow> (STATUS_UNSUCCESSFUL, outValue, [MapPage phys, ReadMmio a, UnmapPage phys]))"

section \<open>The request handlers\<close>

text \<open>
  A completed request: its status, the byte count reported to the I/O manager, the contents of
  the shared system buffer, and what was done to the machine.
\<close>

record io_result =
  io_status :: NTSTATUS
  io_information :: nat
  io_buffer :: bytes
  io_log :: "hw_event list"

definition complete :: "NTSTATUS \<Rightarrow> nat \<Rightarrow> bytes \<Rightarrow> hw_event list \<Rightarrow> io_result" where
  "complete status bytesReturned buffer log =
     \<lparr>io_status = status, io_information = bytesReturned, io_buffer = buffer, io_log = log\<rparr>"

definition HwmonCreateClose :: "bytes \<Rightarrow> io_result" where
  "HwmonCreateClose buffer = complete STATUS_SUCCESS 0 buffer []"

definition HwmonDeviceControl ::
    "machine \<Rightarrow> u32 \<Rightarrow> nat \<Rightarrow> nat \<Rightarrow> bytes \<Rightarrow> io_result option" where
  "HwmonDeviceControl m code inLen outLen buffer =
     (if code = IOCTL_HWMON_READ_MSR m then
        if inLen < sizeof_ReadMsrInput \<or> outLen < sizeof_ReadMsrOutput
        then Some (complete STATUS_BUFFER_TOO_SMALL 0 buffer [])
        else do {
          msr \<leftarrow> rd32 buffer 0;
          if \<not> MsrIsWhitelisted msr then Some (complete STATUS_ACCESS_DENIED 0 buffer [])
          else case SafeReadMsr m msr 0 of (status, value, log) \<Rightarrow>
            if NT_SUCCESS status
            then do { buffer \<leftarrow> wr_bytes buffer 0 (le_bytes 8 value);
                      Some (complete status sizeof_ReadMsrOutput buffer log) }
            else Some (complete status 0 buffer log) }
      else if code = IOCTL_HWMON_READ_PCI_CONFIG m then
        if inLen < sizeof_ReadPciConfigInput \<or> outLen < sizeof_ReadPciConfigOutput
        then Some (complete STATUS_BUFFER_TOO_SMALL 0 buffer [])
        else do {
          inp \<leftarrow> read_pci_input buffer;
          case ReadPciConfigDwordLegacy m (pi_bus inp) (pi_device inp) (pi_function inp) (pi_offset inp) of
            (value, log) \<Rightarrow>
              do { buffer \<leftarrow> wr_bytes buffer 0 (le_bytes 4 value);
                   Some (complete STATUS_SUCCESS sizeof_ReadPciConfigOutput buffer log) } }
      else if code = IOCTL_HWMON_READ_PCIE_ECAM m then
        if inLen < sizeof_ReadPcieEcamInput \<or> outLen < sizeof_ReadPcieEcamOutput
        then Some (complete STATUS_BUFFER_TOO_SMALL 0 buffer [])
        else do {
          inp \<leftarrow> read_ecam_input buffer;
          case ReadPcieConfigDwordEcam m (ei_ecam_base inp) (ei_bus inp) (ei_device inp)
                 (ei_function inp) (ei_offset inp) 0 of (status, value, log) \<Rightarrow>
            if NT_SUCCESS status
            then do { buffer \<leftarrow> wr_bytes buffer 0 (le_bytes 4 value);
                      Some (complete status sizeof_ReadPcieEcamOutput buffer log) }
            else Some (complete status 0 buffer log) }
      else Some (complete STATUS_INVALID_DEVICE_REQUEST 0 buffer []))"

section \<open>Loading and unloading\<close>

datatype handler = CreateClose | DeviceControl

text \<open>
  What the driver registers with the system: its device object, the symbolic link, the
  dispatch routines and the unload routine of the driver object, and the device flags.
\<close>

record registry =
  rg_device :: bool
  rg_symlink :: bool
  rg_create :: "handler option"
  rg_close :: "handler option"
  rg_control :: "handler option"
  rg_unload :: bool
  rg_buffered_io :: bool
  rg_initializing :: bool
  rg_lock_ready :: bool

definition registry0 :: registry where
  "registry0 = \<lparr>rg_device = False, rg_symlink = False, rg_create = None, rg_close = None,
     rg_control = None, rg_unload = False, rg_buffered_io = False, rg_initializing = False,
     rg_lock_ready = False\<rparr>"

text \<open>
  \<open>IoCreateDevice\<close> and \<open>IoCreateSymbolicLink\<close> answer with the statuses \<open>dev\<close> and \<open>lnk\<close>; when
  they succeed the object exists afterwards, a new device with \<open>DO_DEVICE_INITIALIZING\<close> set.
\<close>

definition DriverEntry :: "NTSTATUS \<Rightarrow> NTSTATUS \<Rightarrow> registry \<Rightarrow> NTSTATUS \<times> registry" where
  "DriverEntry dev lnk r =
     (let r = r\<lparr>rg_lock_ready := True\<rparr> in
      if \<not> NT_SUCCESS dev then (dev, r)
      else
        let r = r\<lparr>rg_device := True, rg_initializing := True\<rparr> in
        if \<not> NT_SUCCESS lnk then (lnk, r\<lparr>rg_device := False\<rparr>)
        else (STATUS_SUCCESS,
              r\<lparr>rg_symlink := True, rg_create := Some CreateClose, rg_close := Some CreateClose,
                rg_control := Some DeviceControl, rg_unload := True, rg_buffered_io := True,
                rg_initializing := False\<rparr>))"

definition HwmonUnload :: "registry \<Rightarrow> registry" where
  "HwmonUnload r =
     (let r = r\<lparr>rg_symlink := False\<rparr> in
      if rg_device r then r\<lparr>rg_device := False\<rparr> else r)"

section \<open>Configuration reads on several processors\<close>

text \<open>
  The body of \<open>ReadPciConfigDwordLegacy\<close> as the machine executes it: one step per access to
  shared state, interleaved over any number of processors. \<open>CF8\<close> is the one address latch all
  processors share; each processor works on its own address.
\<close>

datatype pc =
    Waiting u32
  | Locked u32
  | Latched u32
  | Loaded u32 u32
  | Finished u32 u32

record cfg_state =
  cs_lock :: "nat option"
  cs_latch :: u32
  cs_pc :: "nat \<Rightarrow> pc"

inductive cfg_step :: "machine \<Rightarrow> cfg_state \<Rightarrow> cfg_state \<Rightarrow> bool" for m where
  acquire: "cs_pc s c = Waiting a \<Longrightarrow> cs_lock s = None \<Longrightarrow>
    cfg_step m s (s\<lparr>cs_lock := Some c, cs_pc := (cs_pc s)(c := Locked a)\<rparr>)"
| outdword: "cs_pc s c = Locked a \<Longrightarrow>
    cfg_step m s (s\<lparr>cs_latch := a, cs_pc := (cs_pc s)(c := Latched a)\<rparr>)"
| indword: "cs_pc s c = Latched a \<Longrightarrow>
    cfg_step m s (s\<lparr>cs_pc := (cs_pc s)(c := Loaded a (m_config m (cs_latch s)))\<rparr>)"
| release: "cs_pc s c = Loaded a v \<Longrightarrow>
    cfg_step m s (s\<lparr>cs_lock := None, cs_pc := (cs_pc s)(c := Finished a v)\<rparr>)"
| again: "cs_pc s c = Finished a v \<Longrightarrow>
    cfg_step m s (s\<lparr>cs_pc := (cs_pc s)(c := Waiting a')\<rparr>)"

definition cfg_init :: "cfg_state \<Rightarrow> bool" where
  "cfg_init s \<longleftrightarrow> cs_lock s = None \<and> (\<forall>c. \<exists>a. cs_pc s c = Waiting a)"

end
