(* ===== verification/Driver_Correct.thy ===== *)
theory Driver_Correct
  imports Driver
begin

text \<open>
  Correctness of the driver: what a request may do to the machine, what it hands back, the two
  address encodings, serialization of the configuration ports, and loading and unloading.
\<close>

section \<open>What a request may do\<close>

text \<open>
  The safety policy as a monitor over the log: it carries whether the configuration lock is
  held and which page is mapped, and refuses every other use of the machine. Reading an MSR
  needs the whitelist; no MSR is written; the address port is written and the data port read
  only under the lock; a dword is read only inside the one mapped page.
\<close>

fun monitor :: "bool \<Rightarrow> u64 option \<Rightarrow> hw_event list \<Rightarrow> bool" where
  "monitor held page [] \<longleftrightarrow> \<not> held \<and> page = None"
| "monitor held page (RdMsr msr # es) \<longleftrightarrow> msr \<in> set g_msr_whitelist \<and> monitor held page es"
| "monitor held page (WrMsr msr v # es) \<longleftrightarrow> False"
| "monitor held page (AcquireSpinLock # es) \<longleftrightarrow> \<not> held \<and> monitor True page es"
| "monitor held page (OutDword port a # es) \<longleftrightarrow> held \<and> port = 0xCF8 \<and> bit a 31 \<and> monitor held page es"
| "monitor held page (InDword port # es) \<longleftrightarrow> held \<and> port = 0xCFC \<and> monitor held page es"
| "monitor held page (ReleaseSpinLock # es) \<longleftrightarrow> held \<and> monitor False page es"
| "monitor held page (MapFailed p # es) \<longleftrightarrow> page = None \<and> monitor held page es"
| "monitor held page (MapPage p # es) \<longleftrightarrow> page = None \<and> monitor held (Some p) es"
| "monitor held page (ReadMmio a # es) \<longleftrightarrow>
     (case page of None \<Rightarrow> False | Some p \<Rightarrow> unat (a - p) + 4 \<le> 4096 \<and> monitor held page es)"
| "monitor held page (UnmapPage p # es) \<longleftrightarrow> page = Some p \<and> monitor held None es"

lemma whitelist_loop_set: "whitelist_loop ws m \<longleftrightarrow> m \<in> set ws"
  by (induction ws) auto

lemma MsrIsWhitelisted_iff: "MsrIsWhitelisted m \<longleftrightarrow> m \<in> set g_msr_whitelist"
  by (simp add: MsrIsWhitelisted_def whitelist_loop_set)

lemma safe_msr_monitor:
  "MsrIsWhitelisted msr \<Longrightarrow> SafeReadMsr m msr v0 = (st, v, log) \<Longrightarrow> monitor False None log"
  by (auto simp: SafeReadMsr_def MsrIsWhitelisted_iff split: option.splits)

lemma config_address_bit31: "bit (config_address b d f off) 31"
  by (simp add: config_address_def bit_or_iff)

lemma legacy_monitor: "ReadPciConfigDwordLegacy m b d f off = (v, log) \<Longrightarrow> monitor False None log"
  by (auto simp: ReadPciConfigDwordLegacy_def Let_def config_address_bit31)

lemma ecam_offset_bound: "unat (ucast (offset AND 0xFFC :: u16) :: u64) + 4 \<le> 4096"
proof -
  have "unat (offset AND 0xFFC) \<le> 4092"
    using word_and_le(1) [of offset "0xFFC"] by (simp add: word_le_nat_alt)
  moreover have "unat (ucast (offset AND 0xFFC) :: u64) = unat (offset AND 0xFFC)"
    by (rule unat_ucast_upcast) simp
  ultimately show ?thesis by simp
qed

lemma ecam_monitor:
  "ReadPcieConfigDwordEcam m base b d f off v0 = (st, v, log) \<Longrightarrow> monitor False None log"
  using ecam_offset_bound
  by (auto simp: ReadPcieConfigDwordEcam_def Let_def not_less split: if_splits option.splits)

lemma ecam_failure:
  "ReadPcieConfigDwordEcam m base b d f off v0 = (st, v, log) \<Longrightarrow> NT_SUCCESS st \<longleftrightarrow> st = STATUS_SUCCESS"
  by (auto simp: ReadPcieConfigDwordEcam_def Let_def split: if_splits option.splits)

lemma msr_failure: "SafeReadMsr m msr v0 = (st, v, log) \<Longrightarrow> NT_SUCCESS st \<longleftrightarrow> st = STATUS_SUCCESS"
  by (auto simp: SafeReadMsr_def split: option.splits)

section \<open>Every request\<close>

text \<open>A machine for the concrete instances: every MSR reads 7, configuration space is empty.\<close>

definition sample_machine :: machine where
  "sample_machine = \<lparr>m_rdmsr = (\<lambda>_. Some 7), m_config = (\<lambda>_. 0xFFFFFFFF), m_map_ok = (\<lambda>_. True),
     m_mmio = (\<lambda>_. Some 0x12348086),
     m_ctl_code = (\<lambda>d f mt a. push_bit 16 d OR push_bit 14 a OR push_bit 2 f OR mt)\<rparr>"


definition io_good :: "nat \<Rightarrow> bytes \<Rightarrow> io_result \<Rightarrow> bool" where
  "io_good outLen buffer r \<longleftrightarrow>
     io_information r \<le> outLen \<and> length (io_buffer r) = length buffer \<and>
     drop (io_information r) (io_buffer r) = drop (io_information r) buffer \<and>
     (NT_SUCCESS (io_status r) \<longleftrightarrow> 0 < io_information r) \<and> monitor False None (io_log r)"

lemma io_good_refuse: "\<not> NT_SUCCESS st \<Longrightarrow> monitor False None log \<Longrightarrow> io_good n buf (complete st 0 buf log)"
  by (simp add: io_good_def complete_def)

lemma io_good_answer:
  "NT_SUCCESS st \<Longrightarrow> monitor False None log \<Longrightarrow> 0 < length v \<Longrightarrow> length v \<le> n \<Longrightarrow> length v \<le> length buf \<Longrightarrow>
     \<exists>b. wr_bytes buf 0 v = Some b \<and> io_good n buf (complete st (length v) b log)"
  by (simp add: io_good_def complete_def)

lemma read_inputs [safe_access]:
  "4 \<le> length buf \<Longrightarrow> \<exists>x. read_pci_input buf = Some x"
  "13 \<le> length buf \<Longrightarrow> \<exists>x. read_ecam_input buf = Some x"
  by (auto simp: read_pci_input_def read_ecam_input_def rd8_def)

lemmas ioctl_sizes = sizeof_ReadMsrInput_def sizeof_ReadMsrOutput_def sizeof_ReadPciConfigInput_def
  sizeof_ReadPciConfigOutput_def sizeof_ReadPcieEcamInput_def sizeof_ReadPcieEcamOutput_def

lemma device_control_in:
  assumes "inLen \<le> length buffer" and "outLen \<le> length buffer"
  shows "\<exists>r. HwmonDeviceControl m code inLen outLen buffer = Some r \<and> io_good outLen buffer r"
proof -
  consider (msr) "code = IOCTL_HWMON_READ_MSR m"
    | (pci) "code \<noteq> IOCTL_HWMON_READ_MSR m" "code = IOCTL_HWMON_READ_PCI_CONFIG m"
    | (ecam) "code \<noteq> IOCTL_HWMON_READ_MSR m" "code \<noteq> IOCTL_HWMON_READ_PCI_CONFIG m"
        "code = IOCTL_HWMON_READ_PCIE_ECAM m"
    | (other) "code \<noteq> IOCTL_HWMON_READ_MSR m" "code \<noteq> IOCTL_HWMON_READ_PCI_CONFIG m"
        "code \<noteq> IOCTL_HWMON_READ_PCIE_ECAM m" by blast
  then show ?thesis
  proof cases
    case msr
    define x where "x = (le_word (take 4 buffer) :: u32)"
    obtain st v log where r: "SafeReadMsr m x 0 = (st, v, log)" by (metis surj_pair)
    show ?thesis
    proof (cases "inLen < 4 \<or> outLen < 8 \<or> \<not> MsrIsWhitelisted x")
      case True
      then show ?thesis using msr assms
        by (cases "inLen < 4 \<or> outLen < 8") (auto simp: HwmonDeviceControl_def ioctl_sizes io_good_refuse x_def)
    next
      case False
      then have mon: "monitor False None log" using safe_msr_monitor [OF _ r] by simp
      have rd: "rd32 buffer 0 = Some x" using False assms by (simp add: x_def)
      show ?thesis
        using msr False assms rd r mon io_good_answer [of st log "le_bytes 8 v" outLen buffer]
        by (cases "NT_SUCCESS st") (auto simp: HwmonDeviceControl_def ioctl_sizes io_good_refuse)
    qed
  next
    case pci
    show ?thesis
    proof (cases "inLen < 4 \<or> outLen < 4")
      case True
      then show ?thesis using pci assms by (auto simp: HwmonDeviceControl_def ioctl_sizes io_good_refuse)
    next
      case False
      then obtain inp where inp: "read_pci_input buffer = Some inp" using assms read_inputs(1) by force
      obtain v log where r: "ReadPciConfigDwordLegacy m (pi_bus inp) (pi_device inp) (pi_function inp)
          (pi_offset inp) = (v, log)" by (metis surj_pair)
      show ?thesis
        using pci False assms inp r legacy_monitor [OF r]
          io_good_answer [of STATUS_SUCCESS log "le_bytes 4 v" outLen buffer]
        by (auto simp: HwmonDeviceControl_def ioctl_sizes)
    qed
  next
    case ecam
    show ?thesis
    proof (cases "inLen < 13 \<or> outLen < 4")
      case True
      then show ?thesis using ecam assms by (auto simp: HwmonDeviceControl_def ioctl_sizes io_good_refuse)
    next
      case False
      then obtain inp where inp: "read_ecam_input buffer = Some inp" using assms read_inputs(2) by force
      obtain st v log where r: "ReadPcieConfigDwordEcam m (ei_ecam_base inp) (ei_bus inp) (ei_device inp)
          (ei_function inp) (ei_offset inp) 0 = (st, v, log)" by (metis surj_pair)
      show ?thesis
        using ecam False assms inp r ecam_monitor [OF r]
          io_good_answer [of st log "le_bytes 4 v" outLen buffer]
        by (cases "NT_SUCCESS st") (auto simp: HwmonDeviceControl_def ioctl_sizes io_good_refuse)
    qed
  next
    case other
    then show ?thesis by (simp add: HwmonDeviceControl_def io_good_refuse)
  qed
qed

text \<open>
  C4. Every request is harmless and well answered. For every control code, both lengths and
  any contents of the system buffer (which holds at least both lengths), the handler reads and
  writes inside the buffer, completes, reports at most the caller's output length, leaves the
  bytes beyond the reported count as they were, reports success exactly when it reports data,
  and the machine sees only what the policy allows: whitelisted MSR reads, no write of an MSR
  or of the configuration data port, port use only under the lock, a mapped page read only
  inside and always unmapped.
\<close>

theorem device_control_safe:
  assumes "inLen \<le> length buffer" and "outLen \<le> length buffer"
  shows "\<exists>r. HwmonDeviceControl m code inLen outLen buffer = Some r \<and>
    io_information r \<le> outLen \<and> length (io_buffer r) = length buffer \<and>
    drop (io_information r) (io_buffer r) = drop (io_information r) buffer \<and>
    (NT_SUCCESS (io_status r) \<longleftrightarrow> 0 < io_information r) \<and> monitor False None (io_log r)"
  using device_control_in [OF assms] by (simp add: io_good_def)

theorem device_control_safe_witness:
  "\<exists>r. HwmonDeviceControl sample_machine (IOCTL_HWMON_READ_MSR sample_machine) 4 8
       [0x10, 0, 0, 0, 0, 0, 0, 0] = Some r \<and>
     io_information r \<le> 8 \<and> monitor False None (io_log r)"
  using device_control_safe [of 4 "[0x10, 0, 0, 0, 0, 0, 0, 0]" 8] by auto

text \<open>
  The MSR request, on every branch. A request with a big enough input and output is denied,
  without touching the machine, when the number is not on the list of seven; otherwise exactly
  that MSR is read, and the answer is its value in the first eight bytes, or, when the read
  faults, \<open>STATUS_NOT_SUPPORTED\<close> and no data.
\<close>

theorem msr_request_exact:
  assumes "length buffer = max inLen outLen" and "4 \<le> inLen" and "8 \<le> outLen"
  shows "HwmonDeviceControl m (IOCTL_HWMON_READ_MSR m) inLen outLen buffer =
    (let msr = le_word (take 4 buffer) in
     if msr \<notin> set g_msr_whitelist then Some (complete STATUS_ACCESS_DENIED 0 buffer [])
     else case m_rdmsr m msr of
       None \<Rightarrow> Some (complete STATUS_NOT_SUPPORTED 0 buffer [RdMsr msr])
     | Some v \<Rightarrow> Some (complete STATUS_SUCCESS 8 (le_bytes 8 v @ drop 8 buffer) [RdMsr msr]))"
  using assms
  by (simp add: HwmonDeviceControl_def ioctl_sizes Let_def MsrIsWhitelisted_iff SafeReadMsr_def
      split: option.splits)

theorem msr_request_exact_witness:
  "HwmonDeviceControl sample_machine (IOCTL_HWMON_READ_MSR sample_machine) 4 8
       [0x10, 0, 0, 0, 9, 9, 9, 9] =
     Some (complete STATUS_SUCCESS 8 [7, 0, 0, 0, 0, 0, 0, 0] [RdMsr 0x10])"
proof -
  have v: "le_bytes 8 (7 :: u64) = [7, 0, 0, 0, 0, 0, 0, 0]" by (simp add: le_bytes_numeral)
  have r: "m_rdmsr sample_machine x = Some 7" for x by (simp add: sample_machine_def)
  show ?thesis
    using msr_request_exact [of "[0x10, 0, 0, 0, 9, 9, 9, 9]" 4 8 sample_machine]
    by (simp add: r v g_msr_whitelist_def)
qed

section \<open>The two address encodings\<close>

text \<open>
  The mechanism-1 address selects what was asked for. Its fields are disjoint: the enable
  bit is set, bits 24 to 30 and the low two are clear, and bus, device (its low 5 bits),
  function (its low 3 bits) and register (aligned down to a dword) can be read back.
\<close>

theorem config_address_fields:
  "bit (config_address bus device function offset) 31 \<and>
   take_bit 7 (drop_bit 24 (config_address bus device function offset)) = 0 \<and>
   ucast (drop_bit 16 (config_address bus device function offset)) = bus \<and>
   ucast (take_bit 5 (drop_bit 11 (config_address bus device function offset))) = device AND 0x1F \<and>
   ucast (take_bit 3 (drop_bit 8 (config_address bus device function offset))) = function AND 0x7 \<and>
   ucast (config_address bus device function offset) = offset AND 0xFC"
proof -
  let ?a = "config_address bus device function offset"
  have m: "device AND 0x1F = take_bit 5 device" "function AND 0x7 = take_bit 3 function"
    by (simp_all add: take_bit_eq_mask mask_eq_exp_minus_1)
  have e: "(0x80000000 :: u32) = push_bit 31 1" by simp
  have w: "bit (ucast x :: u32) n \<longleftrightarrow> bit x n" for x :: u8 and n
    by (auto simp: bit_ucast_iff dest: bit_imp_le_length)
  have u8: "bit x n \<Longrightarrow> n < 8" for x :: u8 and n
    using bit_imp_le_length [of x n] by simp
  have b: "bit ?a n \<longleftrightarrow> n = 31 \<or> n < 32 \<and> 16 \<le> n \<and> bit bus (n - 16) \<or>
      n < 32 \<and> 11 \<le> n \<and> n - 11 < 5 \<and> bit device (n - 11) \<or> n < 32 \<and> 8 \<le> n \<and> n - 8 < 3 \<and> bit function (n - 8) \<or>
      bit (offset AND 0xFC) n" for n
    unfolding config_address_def m e
    by (simp only: bit_or_iff bit_push_bit_iff w bit_take_bit_iff bit_1_iff) auto
  show ?thesis
  proof (intro conjI)
    show "bit ?a 31" by (simp add: b)
    show "take_bit 7 (drop_bit 24 ?a) = 0"
      by (rule bit_word_eqI) (auto simp: b bit_take_bit_iff bit_drop_bit_eq dest: u8)
    show "ucast (drop_bit 16 ?a) = bus"
      by (rule bit_word_eqI) (auto simp: b bit_ucast_iff bit_drop_bit_eq dest: u8)
    show "ucast (take_bit 5 (drop_bit 11 ?a)) = device AND 0x1F"
      unfolding m by (rule bit_word_eqI) (auto simp: b bit_ucast_iff bit_take_bit_iff bit_drop_bit_eq dest: u8)
    show "ucast (take_bit 3 (drop_bit 8 ?a)) = function AND 0x7"
      unfolding m by (rule bit_word_eqI) (auto simp: b bit_ucast_iff bit_take_bit_iff bit_drop_bit_eq dest: u8)
    show "ucast ?a = offset AND 0xFC"
      by (rule bit_word_eqI) (auto simp: b bit_ucast_iff dest: u8)
  qed
qed

lemma of_nat_push: "(of_nat (unat (x :: u8) * 2 ^ k) :: u64) = push_bit k (ucast x)"
  by (simp add: push_bit_eq_mult)

lemma ecam_sum:
  assumes "device < 32" and "function < (8 :: u8)"
  shows "ecam_address base bus device function =
    base + of_nat (unat bus * 2 ^ 20 + unat device * 2 ^ 15 + unat function * 2 ^ 12)"
proof -
  have d: "bit device n \<Longrightarrow> n < 5" for n
    using assms(1) by (intro small_bit [of device 5]) (simp_all add: word_less_nat_alt)
  have f: "bit function n \<Longrightarrow> n < 3" for n
    using assms(2) by (intro small_bit [of "function" 3]) (simp_all add: word_less_nat_alt)
  have w: "bit (ucast x :: u64) n \<longleftrightarrow> bit x n" for x :: u8 and n
    by (auto simp: bit_ucast_iff dest: bit_imp_le_length)
  have e1: "push_bit 20 (ucast bus) AND push_bit 15 (ucast device) = (0 :: u64)"
    by (rule bit_word_eqI) (auto simp: bit_and_iff bit_push_bit_iff w dest!: d)
  have e2: "(push_bit 20 (ucast bus) OR push_bit 15 (ucast device)) AND push_bit 12 (ucast function) = (0 :: u64)"
    by (rule bit_word_eqI) (auto simp: bit_and_iff bit_or_iff bit_push_bit_iff w dest!: f)
  have "ecam_address base bus device function =
      base + (push_bit 20 (ucast bus) + push_bit 15 (ucast device) + push_bit 12 (ucast function))"
    unfolding ecam_address_def
    by (simp only: disjunctive_add_eq_or [OF e1] disjunctive_add_eq_or [OF e2] or.assoc [symmetric])
  then show ?thesis by (simp only: of_nat_push [symmetric] of_nat_add)
qed

lemma offset_align:
  assumes "(offset :: u16) \<le> 4092"
  shows "(ucast (offset AND 0xFFC) :: u64) = of_nat (unat offset div 4 * 4)"
proof -
  have b: "bit offset n \<Longrightarrow> n < 12" for n
    using assms by (intro small_bit [of offset 12]) (simp_all add: word_le_nat_alt)
  have sh: "2 \<le> n \<Longrightarrow> Suc (Suc (n - 2)) = n" for n :: nat by arith
  have m: "offset AND 0xFFC = offset AND push_bit 2 (mask 10)"
    by (simp add: mask_eq_exp_minus_1)
  have "offset AND 0xFFC = push_bit 2 (drop_bit 2 offset)"
    unfolding m by (rule bit_word_eqI) (auto simp: bit_and_iff bit_push_bit_iff bit_drop_bit_eq bit_mask_iff sh dest: b)
  moreover have "unat (push_bit 2 (drop_bit 2 offset)) = unat offset div 4 * 4"
  proof -
    have "unat offset div 4 * 4 < 65536"
      using unsigned_less [where 'a = nat, of offset] by simp
    then show ?thesis
      by (simp add: push_bit_eq_mult drop_bit_eq_div unat_word_ariths unat_div)
  qed
  ultimately have u: "unat (offset AND 0xFFC) = unat offset div 4 * 4" by simp
  have "(ucast w :: u64) = of_nat (unat w)" for w :: u16 by simp
  then show ?thesis unfolding u [symmetric] .
qed

text \<open>
  C20. ECAM addresses. A request with an offset above 4092, a device above 31 or a function above 7
  is refused and touches nothing. For every other, the three fields never overlap or carry: the mapped physical address is the base plus bus * 1 MiB +
  device * 32 KiB + function * 4 KiB (wrapping at 64 bits), and the dword read is the one at
  the requested offset rounded down to a multiple of 4, inside that 4 KiB page.
\<close>

theorem ecam_read_exact:
  "ReadPcieConfigDwordEcam m base bus device function offset v0 =
    (let p = base + of_nat (unat bus * 2 ^ 20 + unat device * 2 ^ 15 + unat function * 2 ^ 12);
         a = p + of_nat (unat offset div 4 * 4) in
     if 4092 < offset \<or> 32 \<le> device \<or> 8 \<le> function then (STATUS_INVALID_PARAMETER, v0, [])
     else if \<not> m_map_ok m p then (STATUS_UNSUCCESSFUL, v0, [MapFailed p])
     else case m_mmio m a of
       None \<Rightarrow> (STATUS_UNSUCCESSFUL, v0, [MapPage p, ReadMmio a, UnmapPage p])
     | Some v \<Rightarrow> (STATUS_SUCCESS, v, [MapPage p, ReadMmio a, UnmapPage p]))"
proof -
  have c: "(device AND NOT 0x1F \<noteq> 0) \<longleftrightarrow> 32 \<le> device" "(function AND NOT 0x7 \<noteq> 0) \<longleftrightarrow> 8 \<le> function"
    using and_not_mask_0 [of device 5] and_not_mask_0 [of "function" 3]
    by (auto simp: mask_eq_exp_minus_1 word_le_nat_alt)
  show ?thesis
  proof (cases "4092 < offset \<or> 32 \<le> device \<or> 8 \<le> function")
    case True
    then show ?thesis by (auto simp: ReadPcieConfigDwordEcam_def c [simplified])
  next
    case False
    then have "device < 32" "function < 8" "offset \<le> 4092" by (auto simp: not_less not_le)
    from False ecam_sum [OF this(1,2)] offset_align [OF this(3)] show ?thesis
      by (simp add: ReadPcieConfigDwordEcam_def c [simplified] Let_def)
  qed
qed

text \<open>
  C25. No physical page is out of reach. The request carries the base address itself and the
  handler never compares it with a table: for every page-aligned physical address there is a
  request that makes the driver map that page and read its first dword.
\<close>

theorem ecam_reaches_any_page:
  "IOCTL_HWMON_READ_PCIE_ECAM m \<notin> {IOCTL_HWMON_READ_MSR m, IOCTL_HWMON_READ_PCI_CONFIG m} \<Longrightarrow>
   m_map_ok m p \<Longrightarrow> m_mmio m p = Some v \<Longrightarrow>
     HwmonDeviceControl m (IOCTL_HWMON_READ_PCIE_ECAM m) 13 4 (le_bytes 8 p @ zeros 5) =
       Some (complete STATUS_SUCCESS 4 (le_bytes 4 v @ drop 4 (le_bytes 8 p @ zeros 5))
         [MapPage p, ReadMmio p, UnmapPage p])"
proof -
  assume a: "IOCTL_HWMON_READ_PCIE_ECAM m \<notin> {IOCTL_HWMON_READ_MSR m, IOCTL_HWMON_READ_PCI_CONFIG m}"
    "m_map_ok m p" "m_mmio m p = Some v"
  let ?buf = "le_bytes 8 p @ zeros 5"
  have z: "take 2 (drop 11 ?buf) = [0, 0]" by (simp add: zeros_def numeral_2_eq_2)
  have "?buf ! 8 = 0" "?buf ! 9 = 0" "?buf ! 10 = 0" by (simp_all add: nth_append zeros_def)
  then have "read_ecam_input ?buf =
      Some \<lparr>ei_ecam_base = p, ei_bus = 0, ei_device = 0, ei_function = 0, ei_offset = 0\<rparr>"
    using z by (simp add: read_ecam_input_def le_word_le_bytes_full)
  moreover have "ReadPcieConfigDwordEcam m p 0 0 0 0 0 =
      (STATUS_SUCCESS, v, [MapPage p, ReadMmio p, UnmapPage p])"
    using a by (simp add: ReadPcieConfigDwordEcam_def ecam_address_def Let_def)
  ultimately show ?thesis
    using a(1) by (simp add: HwmonDeviceControl_def ioctl_sizes)
qed

theorem ecam_reaches_any_page_witness:
  "\<exists>b. HwmonDeviceControl sample_machine (IOCTL_HWMON_READ_PCIE_ECAM sample_machine) 13 4
       (le_bytes 8 (0x1000 :: u64) @ zeros 5) =
     Some (complete STATUS_SUCCESS 4 b [MapPage 0x1000, ReadMmio 0x1000, UnmapPage 0x1000])"
proof -
  have c: "IOCTL_HWMON_READ_PCIE_ECAM sample_machine \<notin>
      {IOCTL_HWMON_READ_MSR sample_machine, IOCTL_HWMON_READ_PCI_CONFIG sample_machine}"
    by (simp add: IOCTL_HWMON_READ_PCIE_ECAM_def IOCTL_HWMON_READ_MSR_def
        IOCTL_HWMON_READ_PCI_CONFIG_def sample_machine_def HWMON_DEVICE_TYPE_def METHOD_BUFFERED_def
        FILE_READ_ACCESS_def)
  have "m_map_ok sample_machine 0x1000" "m_mmio sample_machine 0x1000 = Some 0x12348086"
    by (simp_all add: sample_machine_def)
  from ecam_reaches_any_page [OF c this] show ?thesis by blast
qed

section \<open>Configuration reads on several processors\<close>

inductive_cases cfg_step_cases: "cfg_step m s s'"

text \<open>What holds of a processor: where it is, what it owns, and what it has read.\<close>

fun cpu_ok :: "machine \<Rightarrow> cfg_state \<Rightarrow> nat \<Rightarrow> pc \<Rightarrow> bool" where
  "cpu_ok m s c (Waiting a) \<longleftrightarrow> cs_lock s \<noteq> Some c"
| "cpu_ok m s c (Locked a) \<longleftrightarrow> cs_lock s = Some c"
| "cpu_ok m s c (Latched a) \<longleftrightarrow> cs_lock s = Some c \<and> cs_latch s = a"
| "cpu_ok m s c (Loaded a v) \<longleftrightarrow> cs_lock s = Some c \<and> v = m_config m a"
| "cpu_ok m s c (Finished a v) \<longleftrightarrow> cs_lock s \<noteq> Some c \<and> v = m_config m a"

definition cfg_ok :: "machine \<Rightarrow> cfg_state \<Rightarrow> bool" where
  "cfg_ok m s \<longleftrightarrow> (\<forall>c. cpu_ok m s c (cs_pc s c))"

text \<open>A step of processor c that leaves the lock as other processors see it keeps the invariant.\<close>

lemma cfg_ok_update:
  assumes ok: "cfg_ok m s" and pc: "cs_pc s' = (cs_pc s)(c := x)" and x: "cpu_ok m s' c x"
    and lock: "\<And>d. d \<noteq> c \<Longrightarrow> cs_lock s' = Some d \<longleftrightarrow> cs_lock s = Some d"
    and latch: "\<And>d. d \<noteq> c \<Longrightarrow> cs_lock s = Some d \<Longrightarrow> cs_latch s' = cs_latch s"
  shows "cfg_ok m s'"
  unfolding cfg_ok_def
proof
  fix d
  have "cpu_ok m s d (cs_pc s d)" using ok by (simp add: cfg_ok_def)
  then show "cpu_ok m s' d (cs_pc s' d)"
    using x lock [of d] latch [of d] by (cases "d = c"; cases "cs_pc s d") (auto simp: pc)
qed

lemma cfg_ok_at: "cfg_ok m s \<Longrightarrow> cs_pc s c = x \<Longrightarrow> cpu_ok m s c x"
  by (auto simp: cfg_ok_def)

lemma cfg_step_ok: "cfg_step m s s' \<Longrightarrow> cfg_ok m s \<Longrightarrow> cfg_ok m s'"
  by (induction rule: cfg_step.induct; frule (1) cfg_ok_at; erule cfg_ok_update) auto

lemma cfg_reach_ok: "(cfg_step m)\<^sup>*\<^sup>* s0 s \<Longrightarrow> cfg_init s0 \<Longrightarrow> cfg_ok m s"
proof (induction rule: rtranclp_induct)
  case base
  then have "cpu_ok m s0 c (cs_pc s0 c)" for c
    by (auto simp: cfg_init_def dest: spec [of _ c])
  then show ?case by (simp add: cfg_ok_def)
next
  case (step s s')
  then show ?case by (simp add: cfg_step_ok)
qed

text \<open>
  C8. Configuration reads do not corrupt each other. In every state any number of processors
  can reach by interleaving their accesses, each finished read returned the dword of its own
  address, at most one processor is between taking and releasing the lock, and the system is
  not stuck: the holder of the lock, or else any waiting processor, can take its next step.
\<close>

theorem config_reads_serialized:
  assumes "cfg_init s0" and "(cfg_step m)\<^sup>*\<^sup>* s0 s"
  shows "(\<forall>c a v. cs_pc s c = Finished a v \<longrightarrow> v = m_config m a) \<and>
    (\<forall>c d. cs_pc s c \<in> range Locked \<union> range Latched \<union> range (case_prod Loaded) \<longrightarrow>
       cs_pc s d \<in> range Locked \<union> range Latched \<union> range (case_prod Loaded) \<longrightarrow> c = d) \<and>
    (\<forall>c. cs_lock s = Some c \<or> cs_lock s = None \<longrightarrow> (\<exists>s'. cfg_step m s s' \<and> cs_pc s' c \<noteq> cs_pc s c))"
proof (intro conjI allI impI)
  have ok: "cfg_ok m s" using cfg_reach_ok assms by blast
  note at = cfg_ok_at [OF ok]
  show "v = m_config m a" if "cs_pc s c = Finished a v" for c a v
    using at [OF that] by simp
  show "c = d" if "cs_pc s c \<in> range Locked \<union> range Latched \<union> range (case_prod Loaded)"
      "cs_pc s d \<in> range Locked \<union> range Latched \<union> range (case_prod Loaded)" for c d
  proof -
    have "cs_lock s = Some c" "cs_lock s = Some d"
      using that at [of c] at [of d] by auto
    then show ?thesis by simp
  qed
  fix c
  assume "cs_lock s = Some c \<or> cs_lock s = None"
  with at [of c "cs_pc s c"] show "\<exists>s'. cfg_step m s s' \<and> cs_pc s' c \<noteq> cs_pc s c"
    by (cases "cs_pc s c") (auto intro!: exI cfg_step.intros)
qed

theorem config_reads_serialized_witness:
  "\<exists>s. (cfg_step sample_machine)\<^sup>*\<^sup>* \<lparr>cs_lock = None, cs_latch = 0, cs_pc = (\<lambda>c. Waiting 0x80000000)\<rparr> s \<and>
     cs_pc s 0 = Finished 0x80000000 0xFFFFFFFF"
proof -
  define s0 where "s0 = \<lparr>cs_lock = None, cs_latch = 0, cs_pc = (\<lambda>c :: nat. Waiting 0x80000000)\<rparr>"
  define s1 where "s1 = s0\<lparr>cs_lock := Some 0, cs_pc := (cs_pc s0)(0 := Locked 0x80000000)\<rparr>"
  define s2 where "s2 = s1\<lparr>cs_latch := 0x80000000, cs_pc := (cs_pc s1)(0 := Latched 0x80000000)\<rparr>"
  define s3 where "s3 = s2\<lparr>cs_pc := (cs_pc s2)(0 := Loaded 0x80000000 (m_config sample_machine (cs_latch s2)))\<rparr>"
  define v where "v = m_config sample_machine (cs_latch s2)"
  define s4 where "s4 = s3\<lparr>cs_lock := None, cs_pc := (cs_pc s3)(0 := Finished 0x80000000 v)\<rparr>"
  have "cfg_step sample_machine s0 s1" unfolding s1_def
    by (rule cfg_step.acquire) (simp_all add: s0_def)
  moreover have "cfg_step sample_machine s1 s2" unfolding s2_def
    by (rule cfg_step.outdword) (simp add: s1_def)
  moreover have "cfg_step sample_machine s2 s3" unfolding s3_def
    by (rule cfg_step.indword) (simp add: s2_def)
  moreover have "cfg_step sample_machine s3 s4" unfolding s4_def
    by (rule cfg_step.release) (simp add: s3_def v_def)
  ultimately have r: "(cfg_step sample_machine)\<^sup>*\<^sup>* s0 s4" by (auto intro: rtranclp.rtrancl_into_rtrancl)
  have i: "cfg_init s0" by (simp add: cfg_init_def s0_def)
  have f: "cs_pc s4 0 = Finished 0x80000000 v" by (simp add: s4_def)
  from config_reads_serialized [OF i r] f have "v = m_config sample_machine 0x80000000" by blast
  with r f show ?thesis by (auto simp: s0_def sample_machine_def)
qed

section \<open>Loading and unloading\<close>

text \<open>
  Loading is all or nothing and unloading undoes it. \<open>DriverEntry\<close> on a fresh driver object
  succeeds exactly when both the device and the link were created; then the three dispatch
  routines, the unload routine and buffered I/O are in place on a device that is no longer
  initializing. In every other case it returns the failing status and leaves no device, link or
  routine behind. After a successful load, unloading removes the link and the device.
\<close>

theorem driver_entry_atomic:
  "case DriverEntry dev lnk registry0 of (status, r) \<Rightarrow>
     (NT_SUCCESS status \<longleftrightarrow> NT_SUCCESS dev \<and> NT_SUCCESS lnk) \<and> rg_lock_ready r \<and>
     (if NT_SUCCESS status
      then rg_device r \<and> rg_symlink r \<and> rg_create r = Some CreateClose \<and> rg_close r = Some CreateClose \<and>
           rg_control r = Some DeviceControl \<and> rg_unload r \<and> rg_buffered_io r \<and> \<not> rg_initializing r \<and>
           \<not> rg_device (HwmonUnload r) \<and> \<not> rg_symlink (HwmonUnload r)
      else \<not> rg_device r \<and> \<not> rg_symlink r \<and> rg_control r = None \<and> \<not> rg_unload r)"
  by (cases "NT_SUCCESS dev"; cases "NT_SUCCESS lnk")
    (simp_all add: DriverEntry_def HwmonUnload_def registry0_def Let_def)

end
