(* ===== verification/Cpu_Id.thy ===== *)
theory Cpu_Id
  imports HW_Prelude "HOL-Library.State_Monad"
begin

text \<open>
  \<open>src/cpu/cpu_id.c\<close>: what the program learns from CPUID and XGETBV, and in which order it
  executes them. Properties are in \<open>Cpu_Id_Correct\<close>.

  The processor is a parameter (\<open>cpu\<close>): the registers CPUID returns for a leaf and subleaf, and
  the extended control registers XGETBV reads. The two primitives of \<open>asm/primitives.asm\<close> that
  the module calls are modelled as these answers plus an entry in the log of executed
  instructions, which is the state of the state monad the routines run in. A write outside a
  character array is \<open>None\<close>, as everywhere.
\<close>

section \<open>The processor\<close>

record CpuidResult =
  r_eax :: u32
  r_ebx :: u32
  r_ecx :: u32
  r_edx :: u32

datatype instr = Cpuid u32 u32 | Xgetbv u32

record cpu =
  cp_cpuid :: "u32 \<Rightarrow> u32 \<Rightarrow> CpuidResult"
  cp_xcr :: "u32 \<Rightarrow> u64"

type_synonym 'a run = "(instr list, 'a) state"

definition cpuid_asm :: "cpu \<Rightarrow> u32 \<Rightarrow> u32 \<Rightarrow> CpuidResult run" where
  "cpuid_asm c leaf subleaf = State (\<lambda>log. (cp_cpuid c leaf subleaf, log @ [Cpuid leaf subleaf]))"

definition xgetbv_asm :: "cpu \<Rightarrow> u32 \<Rightarrow> u64 run" where
  "xgetbv_asm c index = State (\<lambda>log. (cp_xcr c index, log @ [Xgetbv index]))"

text \<open>\<open>(x >> n) & 1\<close> as a truth value, and a field of \<open>w\<close> bits at bit \<open>n\<close>.\<close>

definition bit_at :: "u32 \<Rightarrow> nat \<Rightarrow> bool" where
  "bit_at x n = (drop_bit n x AND 1 = 1)"

definition bit64_at :: "u64 \<Rightarrow> nat \<Rightarrow> bool" where
  "bit64_at x n = (drop_bit n x AND 1 = 1)"

section \<open>Data\<close>

datatype CpuVendor = CPU_VENDOR_UNKNOWN | CPU_VENDOR_INTEL | CPU_VENDOR_AMD

record CpuFeatures =
  cf_sse :: bool
  cf_sse2 :: bool
  cf_sse3 :: bool
  cf_ssse3 :: bool
  cf_sse4_1 :: bool
  cf_sse4_2 :: bool
  cf_avx :: bool
  cf_avx2 :: bool
  cf_avx512f :: bool
  cf_aes :: bool
  cf_bmi1 :: bool
  cf_bmi2 :: bool
  cf_fma :: bool
  cf_sha :: bool
  cf_vmx :: bool
  cf_svm :: bool
  cf_rdtscp :: bool
  cf_invariant_tsc :: bool
  cf_hypervisor_present :: bool
  cf_osxsave :: bool
  cf_avx_os_enabled :: bool
  cf_avx512_os_enabled :: bool

record CpuTopology =
  ct_smt_per_core :: u32
  ct_logical_per_package :: u32
  ct_topology_available :: bool

record CpuIdentity =
  ci_vendor :: CpuVendor
  ci_vendor_string :: bytes
  ci_brand_string :: bytes
  ci_brand_string_available :: bool
  ci_family :: u32
  ci_model :: u32
  ci_stepping :: u32
  ci_max_basic_leaf :: u32
  ci_max_extended_leaf :: u32
  ci_logical_processors_system :: u32
  ci_features :: CpuFeatures
  ci_topology :: CpuTopology

definition features0 :: CpuFeatures where
  "features0 = \<lparr>cf_sse = False, cf_sse2 = False, cf_sse3 = False, cf_ssse3 = False,
     cf_sse4_1 = False, cf_sse4_2 = False, cf_avx = False, cf_avx2 = False, cf_avx512f = False,
     cf_aes = False, cf_bmi1 = False, cf_bmi2 = False, cf_fma = False, cf_sha = False,
     cf_vmx = False, cf_svm = False, cf_rdtscp = False, cf_invariant_tsc = False,
     cf_hypervisor_present = False, cf_osxsave = False, cf_avx_os_enabled = False,
     cf_avx512_os_enabled = False\<rparr>"

definition topology0 :: CpuTopology where
  "topology0 = \<lparr>ct_smt_per_core = 0, ct_logical_per_package = 0, ct_topology_available = False\<rparr>"

definition identity0 :: CpuIdentity where
  "identity0 = \<lparr>ci_vendor = CPU_VENDOR_UNKNOWN, ci_vendor_string = zeros 13,
     ci_brand_string = zeros 49, ci_brand_string_available = False, ci_family = 0, ci_model = 0,
     ci_stepping = 0, ci_max_basic_leaf = 0, ci_max_extended_leaf = 0,
     ci_logical_processors_system = 0, ci_features = features0, ci_topology = topology0\<rparr>"

section \<open>Vendor, signature and brand\<close>

definition vendor_from_leaf0 :: "CpuidResult \<Rightarrow> bytes \<Rightarrow> bytes option" where
  "vendor_from_leaf0 r out =
     do { out \<leftarrow> wr_bytes out 0 (le_bytes 4 (r_ebx r));
          out \<leftarrow> wr_bytes out 4 (le_bytes 4 (r_edx r));
          out \<leftarrow> wr_bytes out 8 (le_bytes 4 (r_ecx r));
          wr8 out 12 0 }"

definition classify_vendor :: "bytes \<Rightarrow> CpuVendor" where
  "classify_vendor vendor_string =
     (if take 12 vendor_string = ascii ''GenuineIntel'' then CPU_VENDOR_INTEL
      else if take 12 vendor_string = ascii ''AuthenticAMD'' then CPU_VENDOR_AMD
      else CPU_VENDOR_UNKNOWN)"

text \<open>The result is the triple family, model, stepping.\<close>

definition decode_family_model_stepping :: "u32 \<Rightarrow> u32 \<times> u32 \<times> u32" where
  "decode_family_model_stepping eax =
     (let base_family = drop_bit 8 eax AND 0xF;
          base_model = drop_bit 4 eax AND 0xF;
          ext_family = drop_bit 20 eax AND 0xFF;
          ext_model = drop_bit 16 eax AND 0xF;
          stepping = eax AND 0xF;
          family = (if base_family = 0xF then base_family + ext_family else base_family);
          model = (if base_family = 0x6 \<or> base_family = 0xF
                   then push_bit 4 ext_model OR base_model else base_model) in
      (family, model, stepping))"

function brand_loop :: "cpu \<Rightarrow> u32 \<Rightarrow> nat \<Rightarrow> bytes \<Rightarrow> bytes option run" where
  "brand_loop c leaf off out =
     (if leaf \<le> 0x80000004 then
        do { r \<leftarrow> cpuid_asm c leaf 0;
             case (do { out \<leftarrow> wr_bytes out (off + 0) (le_bytes 4 (r_eax r));
                        out \<leftarrow> wr_bytes out (off + 4) (le_bytes 4 (r_ebx r));
                        out \<leftarrow> wr_bytes out (off + 8) (le_bytes 4 (r_ecx r));
                        wr_bytes out (off + 12) (le_bytes 4 (r_edx r)) }) of
               None \<Rightarrow> State_Monad.return None
             | Some out \<Rightarrow> brand_loop c (leaf + 1) (off + 16) out }
      else State_Monad.return (wr8 out 48 0))"
  by pat_completeness auto
termination
proof (relation "measure (\<lambda>(c, leaf, off, out). unat (0x80000005 - leaf))")
  fix c :: cpu and leaf :: u32 and off :: nat and out out' :: bytes
  assume "leaf \<le> 0x80000004"
  then show "((c, leaf + 1, off + 16, out'), c, leaf, off, out)
      \<in> measure (\<lambda>(c, leaf, off, out). unat (0x80000005 - leaf))"
    by simp unat_arith
qed simp

declare brand_loop.simps [simp del]

definition collect_brand_string :: "cpu \<Rightarrow> u32 \<Rightarrow> bytes \<Rightarrow> (bool \<times> bytes) option run" where
  "collect_brand_string c max_extended_leaf out =
     (if max_extended_leaf < 0x80000004
      then State_Monad.return (map_option (\<lambda>out. (False, out)) (wr8 out 0 0))
      else do { r \<leftarrow> brand_loop c 0x80000002 0 out;
                State_Monad.return (map_option (\<lambda>out. (True, out)) r) })"

section \<open>Features\<close>

definition leaf1_features :: "CpuidResult \<Rightarrow> CpuFeatures \<Rightarrow> CpuFeatures" where
  "leaf1_features leaf1 f = f\<lparr>
     cf_sse := bit_at (r_edx leaf1) 25, cf_sse2 := bit_at (r_edx leaf1) 26,
     cf_sse3 := bit_at (r_ecx leaf1) 0, cf_ssse3 := bit_at (r_ecx leaf1) 9,
     cf_sse4_1 := bit_at (r_ecx leaf1) 19, cf_sse4_2 := bit_at (r_ecx leaf1) 20,
     cf_aes := bit_at (r_ecx leaf1) 25, cf_avx := bit_at (r_ecx leaf1) 28,
     cf_fma := bit_at (r_ecx leaf1) 12, cf_vmx := bit_at (r_ecx leaf1) 5,
     cf_rdtscp := False, cf_hypervisor_present := bit_at (r_ecx leaf1) 31\<rparr>"

definition leaf7_features :: "CpuidResult \<Rightarrow> CpuFeatures \<Rightarrow> CpuFeatures" where
  "leaf7_features r7 f = f\<lparr>cf_bmi1 := bit_at (r_ebx r7) 3, cf_avx2 := bit_at (r_ebx r7) 5,
     cf_bmi2 := bit_at (r_ebx r7) 8, cf_avx512f := bit_at (r_ebx r7) 16,
     cf_sha := bit_at (r_ebx r7) 29\<rparr>"

definition leaf81_features :: "CpuVendor \<Rightarrow> CpuidResult \<Rightarrow> CpuFeatures \<Rightarrow> CpuFeatures" where
  "leaf81_features vendor r81 f =
     (let f = f\<lparr>cf_rdtscp := bit_at (r_edx r81) 27\<rparr> in
      if vendor = CPU_VENDOR_AMD then f\<lparr>cf_svm := bit_at (r_ecx r81) 2\<rparr> else f)"

definition xcr0_features :: "u64 \<Rightarrow> CpuFeatures \<Rightarrow> CpuFeatures" where
  "xcr0_features xcr0 f =
     (let x87_state = bit64_at xcr0 0; sse_state = bit64_at xcr0 1; avx_state = bit64_at xcr0 2;
          opmask_state = bit64_at xcr0 5; zmm_hi256_state = bit64_at xcr0 6;
          hi16_zmm_state = bit64_at xcr0 7;
          f = f\<lparr>cf_avx_os_enabled := x87_state \<and> sse_state \<and> avx_state\<rparr> in
      f\<lparr>cf_avx512_os_enabled := cf_avx_os_enabled f \<and> opmask_state \<and> zmm_hi256_state \<and> hi16_zmm_state\<rparr>)"

definition collect_features :: "cpu \<Rightarrow> u32 \<Rightarrow> u32 \<Rightarrow> CpuidResult \<Rightarrow> CpuVendor \<Rightarrow> CpuFeatures run" where
  "collect_features c max_basic_leaf max_extended_leaf leaf1 vendor =
     do { let f = leaf1_features leaf1 features0;
          f \<leftarrow> (if 7 \<le> max_basic_leaf
                then do { r7 \<leftarrow> cpuid_asm c 7 0; State_Monad.return (leaf7_features r7 f) }
                else State_Monad.return f);
          f \<leftarrow> (if 0x80000001 \<le> max_extended_leaf
                then do { r81 \<leftarrow> cpuid_asm c 0x80000001 0;
                          State_Monad.return (leaf81_features vendor r81 f) }
                else State_Monad.return f);
          f \<leftarrow> (if 0x80000007 \<le> max_extended_leaf
                then do { r87 \<leftarrow> cpuid_asm c 0x80000007 0;
                          State_Monad.return (f\<lparr>cf_invariant_tsc := bit_at (r_edx r87) 8\<rparr>) }
                else State_Monad.return f);
          let f = f\<lparr>cf_osxsave := bit_at (r_ecx leaf1) 27\<rparr>;
          (if cf_osxsave f
           then do { xcr0 \<leftarrow> xgetbv_asm c 0; State_Monad.return (xcr0_features xcr0 f) }
           else State_Monad.return f) }"

section \<open>Topology\<close>

definition level_type :: "CpuidResult \<Rightarrow> u32" where
  "level_type r = drop_bit 8 (r_ecx r) AND 0xFF"

text \<open>The subleaf loop; the result is the pair SMT width, package width.\<close>

function topology_loop :: "cpu \<Rightarrow> u32 \<Rightarrow> u32 \<Rightarrow> u32 \<Rightarrow> u32 \<Rightarrow> (u32 \<times> u32) run" where
  "topology_loop c leaf subleaf smt_width package_width =
     do { r \<leftarrow> cpuid_asm c leaf subleaf;
          if level_type r = 0 then State_Monad.return (smt_width, package_width)
          else
            let logical_at_level = r_ebx r AND 0xFFFF;
                smt_width = (if level_type r = 1 then logical_at_level else smt_width);
                package_width = logical_at_level;
                subleaf = subleaf + 1 in
            if 16 < subleaf then State_Monad.return (smt_width, package_width)
            else topology_loop c leaf subleaf smt_width package_width }"
  by pat_completeness auto
termination
proof (relation "measure (\<lambda>(c, leaf, subleaf, s, p). if subleaf + 1 = 0 then 18 else 17 - unat subleaf)")
  fix c :: cpu and leaf subleaf s p s' p' sub' :: u32
  assume "sub' = subleaf + 1" and "\<not> 16 < sub'"
  moreover from this have "subleaf + 1 \<noteq> 0 \<Longrightarrow> unat subleaf < 16 \<and> unat (subleaf + 1) = Suc (unat subleaf)"
    by unat_arith
  moreover have "16 < sub'" if "sub' + 1 = 0"
    using that by (simp add: eq_neg_iff_add_eq_0 [symmetric])
  ultimately show "((c, leaf, sub', s', p'), c, leaf, subleaf, s, p)
      \<in> measure (\<lambda>(c, leaf, subleaf, s, p). if subleaf + 1 = 0 then 18 else 17 - unat subleaf)"
    by (cases "subleaf + 1 = 0") auto
qed simp

declare topology_loop.simps [simp del]

text \<open>The leaf to walk: 0x1F when it exists and reports a level, else 0x0B if that does.\<close>

definition topology_leaf :: "cpu \<Rightarrow> u32 \<Rightarrow> u32 option run" where
  "topology_leaf c max_basic_leaf =
     (let leaf = (if 0x1F \<le> max_basic_leaf then 0x1F else 0x0B) in
      do { r0 \<leftarrow> cpuid_asm c leaf 0;
           if level_type r0 = 0 then
             if leaf = 0x1F then
               do { r0 \<leftarrow> cpuid_asm c 0x0B 0;
                    State_Monad.return (if level_type r0 = 0 then None else Some 0x0B) }
             else State_Monad.return None
           else State_Monad.return (Some leaf) })"

definition collect_topology :: "cpu \<Rightarrow> u32 \<Rightarrow> CpuTopology run" where
  "collect_topology c max_basic_leaf =
     (if max_basic_leaf < 0x0B then State_Monad.return topology0
      else do {
        found \<leftarrow> topology_leaf c max_basic_leaf;
        case found of
          None \<Rightarrow> State_Monad.return topology0
        | Some leaf \<Rightarrow>
            do { w \<leftarrow> topology_loop c leaf 0 0 0;
                 (case w of (smt_width, package_width) \<Rightarrow>
                    State_Monad.return
                      (if 0 < package_width
                       then topology0\<lparr>ct_smt_per_core := smt_width,
                         ct_logical_per_package := package_width, ct_topology_available := True\<rparr>
                       else topology0)) } })"

section \<open>The whole identification\<close>

text \<open>
  \<open>cpu_id_collect\<close>, with the steps that only store values into the result named. \<open>active\<close> and \<open>info\<close> are what \<open>GetActiveProcessorCount\<close> and \<open>GetSystemInfo\<close> report.\<close>

definition query_os_logical_processor_count :: "u32 \<Rightarrow> u32 \<Rightarrow> u32" where
  "query_os_logical_processor_count active info = (if active = 0 then info else active)"

definition set_leaf0 :: "CpuidResult \<Rightarrow> bytes \<Rightarrow> CpuIdentity \<Rightarrow> CpuIdentity" where
  "set_leaf0 leaf0 vs out =
     out\<lparr>ci_max_basic_leaf := r_eax leaf0, ci_vendor_string := vs, ci_vendor := classify_vendor vs\<rparr>"

definition set_signature :: "CpuidResult \<Rightarrow> CpuIdentity \<Rightarrow> CpuIdentity" where
  "set_signature leaf1 out =
     (case decode_family_model_stepping (r_eax leaf1) of (family, model, stepping) \<Rightarrow>
        out\<lparr>ci_family := family, ci_model := model, ci_stepping := stepping\<rparr>)"

definition set_max_extended :: "CpuidResult \<Rightarrow> CpuIdentity \<Rightarrow> CpuIdentity" where
  "set_max_extended leaf80 out =
     (if r_eax leaf80 AND 0x80000000 \<noteq> 0 then out\<lparr>ci_max_extended_leaf := r_eax leaf80\<rparr> else out)"

definition collect_rest :: "cpu \<Rightarrow> u32 \<Rightarrow> u32 \<Rightarrow> CpuidResult \<Rightarrow> CpuIdentity \<Rightarrow> CpuIdentity option run" where
  "collect_rest c active info leaf1 out =
     do { b \<leftarrow> collect_brand_string c (ci_max_extended_leaf out) (ci_brand_string out);
          case b of
            None \<Rightarrow> State_Monad.return None
          | Some brand \<Rightarrow>
              do { f \<leftarrow> collect_features c (ci_max_basic_leaf out) (ci_max_extended_leaf out)
                      leaf1 (ci_vendor out);
                   t \<leftarrow> collect_topology c (ci_max_basic_leaf out);
                   State_Monad.return (Some (out\<lparr>ci_brand_string_available := fst brand,
                     ci_brand_string := snd brand, ci_features := f, ci_topology := t,
                     ci_logical_processors_system :=
                       query_os_logical_processor_count active info\<rparr>)) } }"

definition cpu_id_collect :: "cpu \<Rightarrow> u32 \<Rightarrow> u32 \<Rightarrow> CpuIdentity option run" where
  "cpu_id_collect c active info =
     do { leaf0 \<leftarrow> cpuid_asm c 0 0;
          case vendor_from_leaf0 leaf0 (ci_vendor_string identity0) of
            None \<Rightarrow> State_Monad.return None
          | Some vs \<Rightarrow>
              let out = set_leaf0 leaf0 vs identity0 in
              if ci_max_basic_leaf out < 1 then State_Monad.return (Some out)
              else do {
                leaf1 \<leftarrow> cpuid_asm c 1 0;
                leaf80 \<leftarrow> cpuid_asm c 0x80000000 0;
                collect_rest c active info leaf1 (set_max_extended leaf80 (set_signature leaf1 out)) } }"

end
