(* ===== verification/Cpu_Id_Correct.thy ===== *)
theory Cpu_Id_Correct
  imports Cpu_Id
begin

text \<open>
  Correctness of \<open>cpu_id.c\<close>: no instruction is executed before the processor has reported that
  it may be, every routine returns and stays inside its arrays, and the decoded values are the
  ones the bit fields define.
\<close>

section \<open>What a routine executes\<close>

text \<open>
  \<open>executes P m\<close>: run from any log, \<open>m\<close> only appends instructions that satisfy \<open>P\<close>. The rules
  follow the structure of a routine; after a CPUID the rest may rely on its answer.
\<close>

definition executes :: "(instr \<Rightarrow> bool) \<Rightarrow> 'a run \<Rightarrow> bool" where
  "executes P m \<longleftrightarrow> (\<forall>log. \<exists>es. snd (run_state m log) = log @ es \<and> list_all P es)"

named_theorems exec_rules \<open>rules for what a routine executes\<close>

lemma executes_return [exec_rules]: "executes P (State_Monad.return a)"
  by (simp add: executes_def)

lemma executes_step:
  assumes "P i" and "executes P (f x)"
  shows "executes P (State_Monad.bind (State (\<lambda>log. (x, log @ [i]))) f)"
  unfolding executes_def
proof
  fix log
  obtain es where "snd (run_state (f x) (log @ [i])) = (log @ [i]) @ es" "list_all P es"
    using assms(2) unfolding executes_def by blast
  with assms(1) show "\<exists>es. snd (run_state (State_Monad.bind (State (\<lambda>log. (x, log @ [i]))) f) log) =
      log @ es \<and> list_all P es"
    by (intro exI [of _ "i # es"]) simp
qed

lemma executes_cpuid [exec_rules]:
  "P (Cpuid l s) \<Longrightarrow> executes P (f (cp_cpuid c l s)) \<Longrightarrow> executes P (State_Monad.bind (cpuid_asm c l s) f)"
  by (auto simp: cpuid_asm_def intro: executes_step)

lemma executes_xgetbv [exec_rules]:
  "P (Xgetbv i) \<Longrightarrow> executes P (f (cp_xcr c i)) \<Longrightarrow> executes P (State_Monad.bind (xgetbv_asm c i) f)"
  by (auto simp: xgetbv_asm_def intro: executes_step)

lemma executes_atom [exec_rules]:
  "P (Cpuid l s) \<Longrightarrow> executes P (cpuid_asm c l s)" "P (Xgetbv i) \<Longrightarrow> executes P (xgetbv_asm c i)"
  by (simp_all add: executes_def cpuid_asm_def xgetbv_asm_def)

lemma executes_bind:
  assumes "executes P m" and "\<And>log a. fst (run_state m log) = a \<Longrightarrow> executes P (f a)"
  shows "executes P (State_Monad.bind m f)"
  unfolding executes_def
proof
  fix log
  obtain a log1 where m: "run_state m log = (a, log1)" by fastforce
  with assms(1) obtain es where es: "log1 = log @ es" "list_all P es"
    unfolding executes_def by (metis snd_conv)
  obtain es' where "snd (run_state (f a) log1) = log1 @ es'" "list_all P es'"
    using assms(2) [of log a] m unfolding executes_def by auto
  with m es show "\<exists>es. snd (run_state (State_Monad.bind m f) log) = log @ es \<and> list_all P es"
    by (intro exI [of _ "es @ es'"]) simp
qed

lemma executes_if [exec_rules]:
  "(b \<Longrightarrow> executes P m) \<Longrightarrow> (\<not> b \<Longrightarrow> executes P n) \<Longrightarrow> executes P (if b then m else n)"
  by simp

lemma executes_pair [exec_rules]:
  "(\<And>a b. p = (a, b) \<Longrightarrow> executes P (f a b)) \<Longrightarrow> executes P (case p of (a, b) \<Rightarrow> f a b)"
  by (cases p) auto

lemma executes_option [exec_rules]:
  "(x = None \<Longrightarrow> executes P m) \<Longrightarrow> (\<And>a. x = Some a \<Longrightarrow> executes P (f a)) \<Longrightarrow>
     executes P (case x of None \<Rightarrow> m | Some a \<Rightarrow> f a)"
  by (cases x) auto

text \<open>The policy: which instruction may follow which report.\<close>

definition max_extended :: "cpu \<Rightarrow> u32" where
  "max_extended c =
     (let e = r_eax (cp_cpuid c 0x80000000 0) in if e AND 0x80000000 \<noteq> 0 then e else 0)"

fun permitted :: "cpu \<Rightarrow> instr \<Rightarrow> bool" where
  "permitted c (Cpuid leaf subleaf) \<longleftrightarrow> leaf = 0 \<or>
     1 \<le> r_eax (cp_cpuid c 0 0) \<and>
       (leaf = 0x80000000 \<or> leaf < 0x80000000 \<and> leaf \<le> r_eax (cp_cpuid c 0 0) \<or>
        0x80000000 < leaf \<and> leaf \<le> max_extended c)"
| "permitted c (Xgetbv i) \<longleftrightarrow>
     i = 0 \<and> 1 \<le> r_eax (cp_cpuid c 0 0) \<and> bit_at (r_ecx (cp_cpuid c 1 0)) 27"

lemma brand_loop_executes:
  "1 \<le> r_eax (cp_cpuid c 0 0) \<Longrightarrow> 0x80000004 \<le> max_extended c \<Longrightarrow> 0x80000000 < leaf \<Longrightarrow>
     executes (permitted c) (brand_loop c leaf off out)"
proof (induction c leaf off out rule: brand_loop.induct)
  case (1 c leaf off out)
  show ?case
  proof (cases "leaf \<le> 0x80000004")
    case True
    then have lt: "0x80000000 < leaf + 1"
      using "1.prems"(3) unat_inc [of leaf "0x80000005"] by (simp add: word_less_nat_alt word_le_nat_alt)
    have "leaf \<le> max_extended c" using True "1.prems"(2) by (rule order_trans)
    with True "1.prems" have p: "permitted c (Cpuid leaf 0)" by auto
    show ?thesis
      by (subst brand_loop.simps, simp only: True if_True)
        (intro exec_rules p "1.IH" [OF True] "1.prems" lt)
  next
    case False
    then show ?thesis by (subst brand_loop.simps) (simp add: executes_return)
  qed
qed

lemma topology_loop_executes:
  "1 \<le> r_eax (cp_cpuid c 0 0) \<Longrightarrow> leaf < 0x80000000 \<Longrightarrow> leaf \<le> r_eax (cp_cpuid c 0 0) \<Longrightarrow>
     executes (permitted c) (topology_loop c leaf subleaf smt pkg)"
proof (induction c leaf subleaf smt pkg rule: topology_loop.induct)
  case (1 c leaf subleaf smt pkg)
  show ?case
    by (subst topology_loop.simps, unfold Let_def)
      (intro exec_rules "1.IH" "1.prems" refl; simp add: "1.prems")
qed

lemma features_executes:
  assumes "1 \<le> r_eax (cp_cpuid c 0 0)"
  shows "executes (permitted c)
    (collect_features c (r_eax (cp_cpuid c 0 0)) (max_extended c) (cp_cpuid c 1 0) vendor)"
  unfolding collect_features_def Let_def
  using assms
  by (auto intro!: exec_rules executes_bind)

lemma topology_leaf_result:
  "fst (run_state (topology_leaf c max_leaf) log) = Some leaf \<Longrightarrow>
     leaf = 0x0B \<or> leaf = 0x1F \<and> 0x1F \<le> max_leaf"
  by (auto simp: topology_leaf_def Let_def cpuid_asm_def split: if_splits)

lemma topology_executes:
  assumes "1 \<le> r_eax (cp_cpuid c 0 0)"
  shows "executes (permitted c) (collect_topology c (r_eax (cp_cpuid c 0 0)))"
proof -
  let ?max = "r_eax (cp_cpuid c 0 0)"
  have leaf: "executes (permitted c) (topology_leaf c ?max)" if "\<not> ?max < 0x0B"
    unfolding topology_leaf_def Let_def
    using assms that by (auto intro!: exec_rules)
  have loop: "executes (permitted c) (topology_loop c leaf 0 0 0)"
    if "fst (run_state (topology_leaf c ?max) log) = Some leaf" "\<not> ?max < 0x0B" for log leaf
    using topology_leaf_result [OF that(1)] that(2) assms
    by (intro topology_loop_executes) auto
  show ?thesis
    unfolding collect_topology_def
    by (intro exec_rules executes_bind leaf loop) auto
qed

lemma brand_executes:
  assumes "1 \<le> r_eax (cp_cpuid c 0 0)"
  shows "executes (permitted c) (collect_brand_string c (max_extended c) out)"
  unfolding collect_brand_string_def
  by (intro exec_rules executes_bind brand_loop_executes assms) simp_all

lemma run_cpuid: "run_state (cpuid_asm c l s) log = (cp_cpuid c l s, log @ [Cpuid l s])"
  by (simp add: cpuid_asm_def)

lemma run_xgetbv: "run_state (xgetbv_asm c i) log = (cp_xcr c i, log @ [Xgetbv i])"
  by (simp add: xgetbv_asm_def)

section \<open>Strings\<close>

definition words_of :: "CpuidResult \<Rightarrow> bytes" where
  "words_of r = le_bytes 4 (r_eax r) @ le_bytes 4 (r_ebx r) @ le_bytes 4 (r_ecx r) @ le_bytes 4 (r_edx r)"

lemma vendor_from_leaf0_in:
  "vendor_from_leaf0 r (zeros 13) =
     Some (le_bytes 4 (r_ebx r) @ le_bytes 4 (r_edx r) @ le_bytes 4 (r_ecx r) @ [0])"
  by (simp add: vendor_from_leaf0_def list_update_append zeros_def)

lemma brand_step:
  assumes "leaf \<le> 0x80000004" and "length pre = off" and "16 \<le> length suf"
  shows "run_state (brand_loop c leaf off (pre @ suf)) log =
    run_state (brand_loop c (leaf + 1) (off + 16) (pre @ words_of (cp_cpuid c leaf 0) @ drop 16 suf))
      (log @ [Cpuid leaf 0])"
  using assms
  by (subst brand_loop.simps) (simp add: run_cpuid words_of_def)

lemma brand_string_exact:
  assumes "0x80000004 \<le> mx" and "length out = 49"
  shows "run_state (collect_brand_string c mx out) log =
    (Some (True, words_of (cp_cpuid c 0x80000002 0) @ words_of (cp_cpuid c 0x80000003 0) @
        words_of (cp_cpuid c 0x80000004 0) @ [0]),
     log @ [Cpuid 0x80000002 0, Cpuid 0x80000003 0, Cpuid 0x80000004 0])"
proof -
  have d: "drop 48 out = [out ! 48]"
    using assms(2) by (simp add: Cons_nth_drop_Suc [symmetric])
  have len: "length (words_of r) = 16" for r by (simp add: words_of_def)
  show ?thesis
    using assms brand_step [of "0x80000002" "[]" 0 out c log]
      brand_step [of "0x80000003" "words_of (cp_cpuid c 0x80000002 0)" 16 "drop 16 out" c]
      brand_step [of "0x80000004" "words_of (cp_cpuid c 0x80000002 0) @ words_of (cp_cpuid c 0x80000003 0)" 32
        "drop 32 out" c]
    by (simp add: collect_brand_string_def len)
      (subst brand_loop.simps, simp add: d len list_update_append)
qed

section \<open>Decoded values\<close>

lemma bit_at_iff: "bit_at x n \<longleftrightarrow> bit x n" "bit64_at y n \<longleftrightarrow> bit y n"
  by (simp_all add: bit_at_def bit64_at_def bit_iff_and_drop_bit_eq_1)

lemma all_bits: "(x AND m = m) \<longleftrightarrow> (\<forall>n. bit m n \<longrightarrow> bit x n)" for x m :: u64
proof
  show "x AND m = m \<Longrightarrow> \<forall>n. bit m n \<longrightarrow> bit x n" by (metis bit_and_iff)
qed (auto intro!: bit_word_eqI simp: bit_and_iff)

lemma xcr0_masks:
  "(x AND 0x7 = 0x7) \<longleftrightarrow> bit x 0 \<and> bit x 1 \<and> bit (x :: u64) 2"
  "(x AND 0xE7 = 0xE7) \<longleftrightarrow> bit x 0 \<and> bit x 1 \<and> bit x 2 \<and> bit x 5 \<and> bit x 6 \<and> bit (x :: u64) 7"
proof -
  have a: "bit (0x7 :: u64) n \<longleftrightarrow> n \<in> {0, 1, 2}" for n
  proof -
    have m: "(0x7 :: u64) = mask 3" by (simp add: mask_eq_exp_minus_1)
    show ?thesis unfolding m bit_mask_iff by auto
  qed
  have b: "bit (0xE7 :: u64) n \<longleftrightarrow> n \<in> {0, 1, 2, 5, 6, 7}" for n
  proof -
    have m: "(0xE7 :: u64) = mask 3 OR push_bit 5 (mask 3)" by (simp add: mask_eq_exp_minus_1)
    have "bit (0xE7 :: u64) n \<longleftrightarrow> n < 3 \<or> 5 \<le> n \<and> n < 8"
      unfolding m bit_mask_iff bit_or_iff bit_push_bit_iff by auto
    then show ?thesis by (auto simp: numeral_eq_Suc less_Suc_eq)
  qed
  show "(x AND 0x7 = 0x7) \<longleftrightarrow> bit x 0 \<and> bit x 1 \<and> bit (x :: u64) 2"
    unfolding all_bits a insert_iff empty_iff by blast
  show "(x AND 0xE7 = 0xE7) \<longleftrightarrow> bit x 0 \<and> bit x 1 \<and> bit x 2 \<and> bit x 5 \<and> bit x 6 \<and> bit (x :: u64) 7"
    unfolding all_bits b insert_iff empty_iff by blast
qed

definition features_of :: "cpu \<Rightarrow> u32 \<Rightarrow> u32 \<Rightarrow> CpuidResult \<Rightarrow> CpuVendor \<Rightarrow> CpuFeatures" where
  "features_of c mb me l1 vendor =
     (let f = leaf1_features l1 features0;
          f = (if 7 \<le> mb then leaf7_features (cp_cpuid c 7 0) f else f);
          f = (if 0x80000001 \<le> me then leaf81_features vendor (cp_cpuid c 0x80000001 0) f else f);
          f = (if 0x80000007 \<le> me then f\<lparr>cf_invariant_tsc := bit_at (r_edx (cp_cpuid c 0x80000007 0)) 8\<rparr> else f);
          f = f\<lparr>cf_osxsave := bit_at (r_ecx l1) 27\<rparr> in
      if cf_osxsave f then xcr0_features (cp_xcr c 0) f else f)"

lemma run_if: "run_state (if b then m else n) s = (if b then run_state m s else run_state n s)"
  by simp

lemma fst_if: "fst (if b then x else y) = (if b then fst x else fst y)"
  by simp

lemma collect_features_result:
  "fst (run_state (collect_features c mb me l1 vendor) log) = features_of c mb me l1 vendor"
  by (cases "7 \<le> mb"; cases "0x80000001 \<le> me"; cases "0x80000007 \<le> me")
    (simp_all only: collect_features_def features_of_def Let_def if_True if_False State_Monad.bind_left_identity
      run_state_bind run_cpuid run_xgetbv run_state_return prod.case run_if fst_if fst_conv)

lemmas feature_defs = features_of_def leaf1_features_def leaf7_features_def leaf81_features_def
  xcr0_features_def features0_def

definition signature_of :: "u32 \<Rightarrow> u32 \<Rightarrow> u32 \<Rightarrow> u32 \<Rightarrow> u32 \<Rightarrow> u32 \<Rightarrow> u32 \<Rightarrow> u32" where
  "signature_of stepping base_model base_family type_field ext_model ext_family reserved =
     stepping OR push_bit 4 base_model OR push_bit 8 base_family OR push_bit 12 type_field OR
     push_bit 16 ext_model OR push_bit 20 ext_family OR push_bit 28 reserved"

lemma u32_bits: "n < 32" if "bit (x :: u32) n"
  using bit_imp_le_length [OF that] by simp

lemma push_bit_u32: "bit (push_bit k (x :: u32)) n \<longleftrightarrow> n < 32 \<and> k \<le> n \<and> bit x (n - k)"
  by (auto simp: bit_push_bit_iff)

lemma decode_signature:
  assumes "unat stepping < 2 ^ 4" and "unat base_model < 2 ^ 4" and "unat base_family < 2 ^ 4"
    and "unat type_field < 2 ^ 4" and "unat ext_model < 2 ^ 4" and "unat ext_family < 2 ^ 8"
  shows "decode_family_model_stepping
      (signature_of stepping base_model base_family type_field ext_model ext_family reserved) =
    (if base_family = 0xF then base_family + ext_family else base_family,
     if base_family = 0x6 \<or> base_family = 0xF then push_bit 4 ext_model OR base_model else base_model,
     stepping)"
proof -
  let ?e = "signature_of stepping base_model base_family type_field ext_model ext_family reserved"
  note t = assms [THEN take_bit_self_iff [THEN iffD2]]
  have m: "(0xF :: u32) = mask 4" "(0xFF :: u32) = mask 8" by (simp_all add: mask_eq_exp_minus_1)
  have eq: "?e = signature_of (take_bit 4 stepping) (take_bit 4 base_model) (take_bit 4 base_family)
      (take_bit 4 type_field) (take_bit 4 ext_model) (take_bit 8 ext_family) reserved"
    by (simp only: t)
  have e: "bit ?e n \<longleftrightarrow> n < 4 \<and> bit stepping n \<or> n < 32 \<and> 4 \<le> n \<and> n - 4 < 4 \<and> bit base_model (n - 4) \<or>
      n < 32 \<and> 8 \<le> n \<and> n - 8 < 4 \<and> bit base_family (n - 8) \<or>
      n < 32 \<and> 12 \<le> n \<and> n - 12 < 4 \<and> bit type_field (n - 12) \<or>
      n < 32 \<and> 16 \<le> n \<and> n - 16 < 4 \<and> bit ext_model (n - 16) \<or>
      n < 32 \<and> 20 \<le> n \<and> n - 20 < 8 \<and> bit ext_family (n - 20) \<or>
      n < 32 \<and> 28 \<le> n \<and> bit reserved (n - 28)" for n
    by (subst eq, unfold signature_of_def) (simp only: bit_or_iff push_bit_u32 bit_take_bit_iff disj_assoc)
  have f: "take_bit k (drop_bit j ?e) = take_bit k x"
    if "\<And>n. n < k \<Longrightarrow> bit ?e (j + n) \<longleftrightarrow> bit x n" for j k and x :: u32
    by (rule bit_word_eqI) (auto simp: bit_take_bit_iff bit_drop_bit_eq that)
  have "take_bit 4 (drop_bit 0 ?e) = take_bit 4 stepping" "take_bit 4 (drop_bit 4 ?e) = take_bit 4 base_model"
    "take_bit 4 (drop_bit 8 ?e) = take_bit 4 base_family" "take_bit 4 (drop_bit 16 ?e) = take_bit 4 ext_model"
    "take_bit 8 (drop_bit 20 ?e) = take_bit 8 ext_family"
    by (rule f; simp add: e)+
  then have "?e AND 0xF = stepping" "drop_bit 4 ?e AND 0xF = base_model" "drop_bit 8 ?e AND 0xF = base_family"
    "drop_bit 16 ?e AND 0xF = ext_model" "drop_bit 20 ?e AND 0xFF = ext_family"
    unfolding m by (simp_all add: t flip: take_bit_eq_mask)
  then show ?thesis by (simp add: decode_family_model_stepping_def Let_def)
qed

text \<open>
  C23. Feature flags mean what the registers say. Each of the 22 flags of \<open>CpuFeatures\<close> is the bit
  the architecture assigns to it in the register of its leaf: twelve of leaf 1, five of leaf 7,
  two of leaf 0x80000001 (SVM on AMD only), one of leaf 0x80000007; a flag of a leaf the processor
  does not report is never set. AVX and AVX-512 count as enabled by the operating system exactly
  when OSXSAVE is reported and XCR0 has all the state bits they need.
\<close>

theorem features_exact:
  "let f = fst (run_state (collect_features c mb me l1 vendor) log);
       l7 = cp_cpuid c 7 0; l81 = cp_cpuid c 0x80000001 0; l87 = cp_cpuid c 0x80000007 0 in
    (cf_sse f \<longleftrightarrow> bit (r_edx l1) 25) \<and> (cf_sse2 f \<longleftrightarrow> bit (r_edx l1) 26) \<and>
    (cf_sse3 f \<longleftrightarrow> bit (r_ecx l1) 0) \<and> (cf_vmx f \<longleftrightarrow> bit (r_ecx l1) 5) \<and>
    (cf_ssse3 f \<longleftrightarrow> bit (r_ecx l1) 9) \<and> (cf_fma f \<longleftrightarrow> bit (r_ecx l1) 12) \<and>
    (cf_sse4_1 f \<longleftrightarrow> bit (r_ecx l1) 19) \<and> (cf_sse4_2 f \<longleftrightarrow> bit (r_ecx l1) 20) \<and>
    (cf_aes f \<longleftrightarrow> bit (r_ecx l1) 25) \<and> (cf_osxsave f \<longleftrightarrow> bit (r_ecx l1) 27) \<and>
    (cf_avx f \<longleftrightarrow> bit (r_ecx l1) 28) \<and> (cf_hypervisor_present f \<longleftrightarrow> bit (r_ecx l1) 31) \<and>
    (cf_bmi1 f \<longleftrightarrow> 7 \<le> mb \<and> bit (r_ebx l7) 3) \<and> (cf_avx2 f \<longleftrightarrow> 7 \<le> mb \<and> bit (r_ebx l7) 5) \<and>
    (cf_bmi2 f \<longleftrightarrow> 7 \<le> mb \<and> bit (r_ebx l7) 8) \<and> (cf_avx512f f \<longleftrightarrow> 7 \<le> mb \<and> bit (r_ebx l7) 16) \<and>
    (cf_sha f \<longleftrightarrow> 7 \<le> mb \<and> bit (r_ebx l7) 29) \<and>
    (cf_svm f \<longleftrightarrow> vendor = CPU_VENDOR_AMD \<and> 0x80000001 \<le> me \<and> bit (r_ecx l81) 2) \<and>
    (cf_rdtscp f \<longleftrightarrow> 0x80000001 \<le> me \<and> bit (r_edx l81) 27) \<and>
    (cf_invariant_tsc f \<longleftrightarrow> 0x80000007 \<le> me \<and> bit (r_edx l87) 8) \<and>
    (cf_avx_os_enabled f \<longleftrightarrow> bit (r_ecx l1) 27 \<and> cp_xcr c 0 AND 0x7 = 0x7) \<and>
    (cf_avx512_os_enabled f \<longleftrightarrow> bit (r_ecx l1) 27 \<and> cp_xcr c 0 AND 0xE7 = 0xE7)"
  unfolding Let_def collect_features_result xcr0_masks
  by (intro conjI; simp add: feature_defs Let_def bit_at_iff)

text \<open>
  Family, model and stepping. For a signature register with any contents in its seven
  fields, the decoded family is the base family, plus the extended family when the base is 15;
  the model takes the extended model as its high digit exactly for base families 6 and 15; no
  sum wraps.
\<close>

theorem family_model_stepping_exact:
  assumes "unat stepping < 2 ^ 4" and "unat base_model < 2 ^ 4" and "unat base_family < 2 ^ 4"
    and "unat type_field < 2 ^ 4" and "unat ext_model < 2 ^ 4" and "unat ext_family < 2 ^ 8"
  shows "case decode_family_model_stepping
      (signature_of stepping base_model base_family type_field ext_model ext_family reserved) of
    (family, model, step) \<Rightarrow>
      unat family = unat base_family + (if unat base_family = 15 then unat ext_family else 0) \<and>
      unat model = unat base_model + (if unat base_family \<in> {6, 15} then 16 * unat ext_model else 0) \<and>
      step = stepping"
proof -
  have bf: "base_family = 0xF \<longleftrightarrow> unat base_family = 15" "base_family = 0x6 \<longleftrightarrow> unat base_family = 6"
    by (simp_all add: word_unat_eq_iff)
  have "unat (base_family + ext_family) = 15 + unat ext_family" if "unat base_family = 15"
    using assms(6) that by (simp add: unat_word_ariths)
  moreover have "unat (push_bit 4 ext_model OR base_model) = unat base_model + 16 * unat ext_model"
  proof -
    have d: "push_bit 4 ext_model AND base_model = 0"
      by (rule bit_word_eqI) (auto simp: bit_and_iff push_bit_u32 dest!: small_bit [OF assms(2)])
    have "unat (push_bit 4 ext_model + base_model) = unat base_model + 16 * unat ext_model"
      using assms(2,5) by (simp add: push_bit_eq_mult unat_word_ariths)
    then show ?thesis by (simp only: disjunctive_add_eq_or [OF d])
  qed
  ultimately show ?thesis
    by (auto simp: decode_signature [OF assms] bf)
qed

theorem family_model_stepping_exact_witness:
  "case decode_family_model_stepping (signature_of 2 1 15 0 6 10 0) of
     (family, model, step) \<Rightarrow> unat family = 25 \<and> unat model = 97 \<and> step = 2"
  using family_model_stepping_exact [of 2 1 15 0 6 10 0] by (simp split: prod.splits)

section \<open>Topology\<close>

definition logical_at :: "CpuidResult \<Rightarrow> u32" where
  "logical_at r = r_ebx r AND 0xFFFF"

text \<open>The levels the walk sees: the first 17 subleaves, up to the first of type 0.\<close>

definition levels :: "cpu \<Rightarrow> u32 \<Rightarrow> nat \<Rightarrow> CpuidResult list" where
  "levels c leaf k = takeWhile (\<lambda>r. level_type r \<noteq> 0) (map (\<lambda>i. cp_cpuid c leaf (of_nat i)) [k..<17])"

definition last_or :: "u32 \<Rightarrow> CpuidResult list \<Rightarrow> u32" where
  "last_or d rs = (if rs = [] then d else logical_at (last rs))"

lemma last_or_Cons: "last_or d (r # rs) = last_or (logical_at r) rs"
  by (simp add: last_or_def)

lemma topology_loop_run:
  "k \<le> 16 \<Longrightarrow> run_state (topology_loop c leaf (of_nat k) s p) log =
     ((last_or s (filter (\<lambda>r. level_type r = 1) (levels c leaf k)), last_or p (levels c leaf k)),
      log @ map (\<lambda>i. Cpuid leaf (of_nat i)) [k..<min 17 (Suc (k + length (levels c leaf k)))])"
proof (induction "17 - k" arbitrary: k s p log)
  case 0
  then show ?case by simp
next
  case (Suc d)
  let ?r = "cp_cpuid c leaf (of_nat k)"
  have lv: "levels c leaf k = (if level_type ?r \<noteq> 0 then ?r # levels c leaf (Suc k) else [])"
    using Suc.prems by (simp add: levels_def upt_conv_Cons)
  have k: "unat (of_nat k :: u32) = k" using Suc.prems by (simp add: unat_of_nat)
  then have g: "(16 < (of_nat k + 1 :: u32)) = (k = 16)"
    using Suc.prems unat_inc [of "of_nat k :: u32" "0x20"] by (auto simp: word_less_nat_alt)
  show ?case
  proof (cases "level_type ?r = 0")
    case True
    with lv Suc.prems show ?thesis
      by (subst topology_loop.simps) (simp add: run_cpuid last_or_def upt_conv_Cons)
  next
    case False
    show ?thesis
    proof (cases "k = 16")
      case True
      with False lv g show ?thesis
        by (subst topology_loop.simps)
          (simp add: run_cpuid levels_def Let_def last_or_def logical_at_def upt_conv_Cons)
    next
      case k16: False
      then have le: "Suc k \<le> 16" using Suc.prems by simp
      have u: "[k..<min 17 (Suc (k + length (levels c leaf k)))] =
          k # [Suc k..<min 17 (Suc (Suc k + length (levels c leaf (Suc k))))]"
        using Suc.prems False by (simp add: lv upt_conv_Cons del: upt_Suc)
      show ?thesis
        using False k16 g Suc.hyps(1) [OF _ le, unfolded of_nat_Suc add.commute [of 1]] Suc.hyps(2)
        by (subst topology_loop.simps, subst u)
          (simp add: run_cpuid Let_def lv last_or_Cons logical_at_def)
    qed
  qed
qed

text \<open>
  C22. The topology walk ends and reports the levels. It executes at most 17 subleaves of the
  leaf, in order and up to and including the first of type 0; the SMT width is that of the last
  SMT level seen and the package width that of the last level seen, 0 when there is none. In
  particular a leaf that never reports type 0 is cut off after subleaf 16 and its last level is
  believed.
\<close>

theorem topology_loop_exact:
  "run_state (topology_loop c leaf 0 0 0) log =
     ((last_or 0 (filter (\<lambda>r. level_type r = 1) (levels c leaf 0)), last_or 0 (levels c leaf 0)),
      log @ map (\<lambda>i. Cpuid leaf (of_nat i)) [0..<min 17 (Suc (length (levels c leaf 0)))])"
  using topology_loop_run [of 0 c leaf 0 0 log] by simp

section \<open>The whole identification\<close>

lemma collect_rest_executes:
  assumes "1 \<le> r_eax (cp_cpuid c 0 0)" and "ci_max_basic_leaf out = r_eax (cp_cpuid c 0 0)"
    and "ci_max_extended_leaf out = max_extended c"
  shows "executes (permitted c) (collect_rest c active info (cp_cpuid c 1 0) out)"
  unfolding collect_rest_def assms(2,3)
  by (intro executes_bind executes_option executes_return brand_executes features_executes
      topology_executes assms(1))

lemma set_fields [simp]:
  "ci_max_basic_leaf (set_signature r out) = ci_max_basic_leaf out"
  "ci_max_basic_leaf (set_max_extended r out) = ci_max_basic_leaf out"
  "ci_max_extended_leaf (set_signature r out) = ci_max_extended_leaf out"
  "ci_brand_string (set_signature r out) = ci_brand_string out"
  "ci_brand_string (set_max_extended r out) = ci_brand_string out"
  "ci_vendor_string (set_signature r out) = ci_vendor_string out"
  "ci_vendor_string (set_max_extended r out) = ci_vendor_string out"
  by (simp_all add: set_signature_def set_max_extended_def split: prod.splits)

lemma set_leaf0_fields [simp]:
  "ci_max_basic_leaf (set_leaf0 r vs out) = r_eax r" "ci_vendor_string (set_leaf0 r vs out) = vs"
  "ci_vendor (set_leaf0 r vs out) = classify_vendor vs"
  "ci_brand_string (set_leaf0 r vs out) = ci_brand_string out"
  "ci_max_extended_leaf (set_leaf0 r vs out) = ci_max_extended_leaf out"
  "ci_brand_string_available (set_leaf0 r vs out) = ci_brand_string_available out"
  by (simp_all add: set_leaf0_def)

lemma identity0_fields [simp]:
  "ci_vendor_string identity0 = zeros 13" "ci_brand_string identity0 = zeros 49"
  "ci_max_extended_leaf identity0 = 0" "\<not> ci_brand_string_available identity0"
  by (simp_all add: identity0_def)

lemma set_max_extended_value:
  "ci_max_extended_leaf out = 0 \<Longrightarrow>
     ci_max_extended_leaf (set_max_extended (cp_cpuid c 0x80000000 0) out) = max_extended c"
  by (simp add: set_max_extended_def max_extended_def Let_def)

lemma identity_executes: "executes (permitted c) (cpu_id_collect c active info)"
proof -
  have rest: "executes (permitted c)
      (do { leaf1 \<leftarrow> cpuid_asm c 1 0; leaf80 \<leftarrow> cpuid_asm c 0x80000000 0;
        collect_rest c active info leaf1
          (set_max_extended leaf80 (set_signature leaf1 (set_leaf0 (cp_cpuid c 0 0) vs identity0))) })"
    if "\<not> r_eax (cp_cpuid c 0 0) < 1" for vs
  proof -
    have "1 \<le> r_eax (cp_cpuid c 0 0)" using that by (simp only: not_less)
    then have l1: "permitted c (Cpuid 1 0)" "permitted c (Cpuid 0x80000000 0)" "1 \<le> r_eax (cp_cpuid c 0 0)"
      by simp_all
    show ?thesis
      by (intro executes_cpuid l1 collect_rest_executes) (simp_all add: set_max_extended_value)
  qed
  show ?thesis
    unfolding cpu_id_collect_def Let_def set_leaf0_fields
    by (intro executes_cpuid executes_option executes_if executes_return rest) simp_all
qed

text \<open>
  C10. No instruction before its permission. Whatever the processor reports, the identification
  executes CPUID only for leaf 0, and beyond it only on a processor that has leaf 1: for leaves
  within the reported basic range, leaf 0x80000000, and leaves within the extended range that
  leaf reported; and XGETBV only of register 0 and only when leaf 1 reports OSXSAVE, so it
  cannot fault.
\<close>

theorem cpu_id_permitted: "list_all (permitted c) (snd (run_state (cpu_id_collect c active info) []))"
proof -
  obtain es where "snd (run_state (cpu_id_collect c active info) []) = [] @ es" "list_all (permitted c) es"
    using identity_executes [of c active info] unfolding executes_def by blast
  then show ?thesis by simp
qed

text \<open>The result on a processor that has leaf 1.\<close>

lemma identity_result:
  assumes "1 \<le> r_eax (cp_cpuid c 0 0)"
  shows "\<exists>out log. run_state (cpu_id_collect c active info) [] = (Some out, log) \<and>
     ci_vendor_string out = le_bytes 4 (r_ebx (cp_cpuid c 0 0)) @ le_bytes 4 (r_edx (cp_cpuid c 0 0)) @
       le_bytes 4 (r_ecx (cp_cpuid c 0 0)) @ [0] \<and>
     (ci_family out, ci_model out, ci_stepping out) = decode_family_model_stepping (r_eax (cp_cpuid c 1 0)) \<and>
     ci_features out = features_of c (r_eax (cp_cpuid c 0 0)) (max_extended c) (cp_cpuid c 1 0) (ci_vendor out) \<and>
     ci_vendor out = classify_vendor (ci_vendor_string out) \<and>
     (if 0x80000004 \<le> max_extended c
      then ci_brand_string_available out \<and> ci_brand_string out =
        words_of (cp_cpuid c 0x80000002 0) @ words_of (cp_cpuid c 0x80000003 0) @ words_of (cp_cpuid c 0x80000004 0) @ [0]
      else \<not> ci_brand_string_available out \<and> ci_brand_string out = zeros 49)"
proof -
  let ?max = "r_eax (cp_cpuid c 0 0)"
  have ge: "\<not> ?max < 1" using assms by (simp only: not_less)
  define vs where "vs = le_bytes 4 (r_ebx (cp_cpuid c 0 0)) @ le_bytes 4 (r_edx (cp_cpuid c 0 0)) @
    le_bytes 4 (r_ecx (cp_cpuid c 0 0)) @ [0]"
  have vendor: "vendor_from_leaf0 (cp_cpuid c 0 0) (zeros 13) = Some vs"
    by (simp add: vendor_from_leaf0_in vs_def)
  define out where "out = set_max_extended (cp_cpuid c 0x80000000 0)
    (set_signature (cp_cpuid c 1 0) (set_leaf0 (cp_cpuid c 0 0) vs identity0))"
  have me: "ci_max_extended_leaf out = max_extended c" by (simp add: out_def set_max_extended_value)
  have v: "ci_vendor_string out = vs" "ci_brand_string out = zeros 49"
    "(ci_family out, ci_model out, ci_stepping out) = decode_family_model_stepping (r_eax (cp_cpuid c 1 0))"
    "ci_max_basic_leaf out = ?max" "ci_vendor out = classify_vendor vs"
    by (simp_all add: out_def set_max_extended_def set_signature_def split: prod.splits)
  obtain av br log1 where b: "run_state (collect_brand_string c (max_extended c) (zeros 49))
      [Cpuid 0 0, Cpuid 1 0, Cpuid 0x80000000 0] = (Some (av, br), log1)"
    "if 0x80000004 \<le> max_extended c then av \<and> br =
        words_of (cp_cpuid c 0x80000002 0) @ words_of (cp_cpuid c 0x80000003 0) @ words_of (cp_cpuid c 0x80000004 0) @ [0]
     else \<not> av \<and> br = zeros 49"
  proof (cases "0x80000004 \<le> max_extended c")
    case True
    from brand_string_exact [OF this, of "zeros 49" c] that True show ?thesis by simp
  next
    case False
    with that [of False "zeros 49"] show ?thesis
      by (simp add: collect_brand_string_def zeros_def not_le list_update_same_conv)
  qed
  obtain f log2 where f: "run_state (collect_features c ?max (max_extended c)
      (cp_cpuid c 1 0) (classify_vendor vs)) log1 = (f, log2)" by fastforce
  then have fe: "f = features_of c ?max (max_extended c) (cp_cpuid c 1 0) (classify_vendor vs)"
    using collect_features_result by (metis fst_conv)
  obtain t log3 where t: "run_state (collect_topology c ?max) log2 = (t, log3)" by fastforce
  have "\<exists>out'. run_state (cpu_id_collect c active info) [] = (Some out', log3) \<and>
      ci_vendor_string out' = vs \<and> ci_vendor out' = classify_vendor vs \<and>
      (ci_family out', ci_model out', ci_stepping out') = decode_family_model_stepping (r_eax (cp_cpuid c 1 0)) \<and>
      ci_features out' = f \<and> ci_brand_string out' = br \<and> ci_brand_string_available out' = av"
    using ge v by (simp add: cpu_id_collect_def run_cpuid vendor Let_def collect_rest_def me b(1) f t flip: out_def)
  then show ?thesis using b(2) fe by (auto simp flip: vs_def)
qed

lemma cpu_id_result:
  "\<exists>out log. run_state (cpu_id_collect c active info) [] = (Some out, log) \<and>
     ci_vendor_string out = le_bytes 4 (r_ebx (cp_cpuid c 0 0)) @ le_bytes 4 (r_edx (cp_cpuid c 0 0)) @
       le_bytes 4 (r_ecx (cp_cpuid c 0 0)) @ [0] \<and>
     (ci_vendor out = CPU_VENDOR_INTEL \<longleftrightarrow> ci_vendor_string out = ascii ''GenuineIntel'' @ [0]) \<and>
     (ci_vendor out = CPU_VENDOR_AMD \<longleftrightarrow> ci_vendor_string out = ascii ''AuthenticAMD'' @ [0]) \<and>
     length (ci_brand_string out) = 49 \<and> nul_terminated (ci_brand_string out) \<and>
     (ci_brand_string_available out \<longleftrightarrow> 1 \<le> r_eax (cp_cpuid c 0 0) \<and> 0x80000004 \<le> max_extended c)"
proof -
  let ?max = "r_eax (cp_cpuid c 0 0)"
  define vs where "vs = le_bytes 4 (r_ebx (cp_cpuid c 0 0)) @ le_bytes 4 (r_edx (cp_cpuid c 0 0)) @
    le_bytes 4 (r_ecx (cp_cpuid c 0 0)) @ [0]"
  have vendor: "vendor_from_leaf0 (cp_cpuid c 0 0) (zeros 13) = Some vs"
    by (simp add: vendor_from_leaf0_in vs_def)
  have cls: "classify_vendor vs = CPU_VENDOR_INTEL \<longleftrightarrow> vs = ascii ''GenuineIntel'' @ [0]"
    "classify_vendor vs = CPU_VENDOR_AMD \<longleftrightarrow> vs = ascii ''AuthenticAMD'' @ [0]"
  proof -
    have l: "vs = take 12 vs @ [0]" by (simp add: vs_def)
    have h: "vs = x @ [0] \<longleftrightarrow> take 12 vs = x" for x by (subst l) (rule append1_eq_conv [THEN trans], simp)
    have ne: "ascii ''AuthenticAMD'' \<noteq> ascii ''GenuineIntel''" by (simp add: ascii_def)
    show "classify_vendor vs = CPU_VENDOR_INTEL \<longleftrightarrow> vs = ascii ''GenuineIntel'' @ [0]"
      "classify_vendor vs = CPU_VENDOR_AMD \<longleftrightarrow> vs = ascii ''AuthenticAMD'' @ [0]"
      by (simp_all add: classify_vendor_def h ne ne [symmetric])
  qed
  show ?thesis
  proof (cases "?max < 1")
    case True
    then have "run_state (cpu_id_collect c active info) [] =
        (Some (set_leaf0 (cp_cpuid c 0 0) vs identity0), [Cpuid 0 0])"
      by (simp add: cpu_id_collect_def run_cpuid vendor Let_def)
    moreover have "\<not> 1 \<le> ?max" using True by (simp only: not_le)
    moreover have "nul_terminated (zeros 49)" by (simp add: nul_terminated_def zeros_def)
    ultimately show ?thesis using cls by (simp flip: vs_def)
  next
    case False
    then have "1 \<le> ?max" by (simp only: not_less)
    from identity_result [OF this, of active info] obtain out log where
      o: "run_state (cpu_id_collect c active info) [] = (Some out, log)" "ci_vendor_string out = vs"
        "ci_vendor out = classify_vendor (ci_vendor_string out)"
        "if 0x80000004 \<le> max_extended c
         then ci_brand_string_available out \<and> ci_brand_string out =
           words_of (cp_cpuid c 0x80000002 0) @ words_of (cp_cpuid c 0x80000003 0) @ words_of (cp_cpuid c 0x80000004 0) @ [0]
         else \<not> ci_brand_string_available out \<and> ci_brand_string out = zeros 49"
      unfolding vs_def by blast
    have "length (ci_brand_string out) = 49 \<and> nul_terminated (ci_brand_string out) \<and>
        (ci_brand_string_available out \<longleftrightarrow> 0x80000004 \<le> max_extended c)"
      using o(4) by (auto simp: words_of_def nul_terminated_def zeros_def split: if_splits)
    with o cls \<open>1 \<le> ?max\<close> show ?thesis by (auto simp flip: vs_def)
  qed
qed

text \<open>
  C21. The identification always completes, within its arrays. Every processor yields a result;
  the vendor string is the twelve bytes of EBX, EDX, ECX and the vendor is classified by exactly
  those bytes; vendor and brand string are NUL-terminated in their 13 and 49 bytes; the brand is
  available exactly when the extended leaves hold it.
\<close>

theorem cpu_id_complete:
  "\<exists>out log. run_state (cpu_id_collect c active info) [] = (Some out, log) \<and>
     ci_vendor_string out = le_bytes 4 (r_ebx (cp_cpuid c 0 0)) @ le_bytes 4 (r_edx (cp_cpuid c 0 0)) @
       le_bytes 4 (r_ecx (cp_cpuid c 0 0)) @ [0] \<and>
     (ci_vendor out = CPU_VENDOR_INTEL \<longleftrightarrow> ci_vendor_string out = ascii ''GenuineIntel'' @ [0]) \<and>
     (ci_vendor out = CPU_VENDOR_AMD \<longleftrightarrow> ci_vendor_string out = ascii ''AuthenticAMD'' @ [0]) \<and>
     length (ci_brand_string out) = 49 \<and> nul_terminated (ci_brand_string out) \<and>
     (ci_brand_string_available out \<longleftrightarrow> 1 \<le> r_eax (cp_cpuid c 0 0) \<and> 0x80000004 \<le> max_extended c)"
  by (rule cpu_id_result)

end
