(* ===== verification/C_Strings.thy ===== *)
theory C_Strings
  imports HW_Prelude
begin

text \<open>
  The C library's string routines the enumeration code calls (\<open>strstr\<close>, \<open>strtoul\<close> with base 16,
  \<open>isxdigit\<close>, \<open>strncpy_s\<close> with \<open>_TRUNCATE\<close>), as the C standard and the Microsoft runtime
  document them. A string argument is read up to its NUL; a buffer without one is read past its
  end, which is \<open>None\<close>. \<open>unsigned long\<close> has 32 bits on Windows.
\<close>

definition c_string :: "bytes \<Rightarrow> nat \<Rightarrow> bytes option" where
  "c_string buf i = (if 0 \<in> set (drop i buf) then Some (cstr (drop i buf)) else None)"

text \<open>The offset of the first occurrence of a key in a string.\<close>

fun strstr :: "bytes \<Rightarrow> bytes \<Rightarrow> nat option" where
  "strstr s key =
     (if take (length key) s = key then Some 0
      else case s of [] \<Rightarrow> None | c # cs \<Rightarrow> map_option Suc (strstr cs key))"

declare strstr.simps [simp del]

definition isspace :: "u8 \<Rightarrow> bool" where
  "isspace c \<longleftrightarrow> c = 32 \<or> 9 \<le> c \<and> c \<le> 13"

definition hex_value :: "u8 \<Rightarrow> nat option" where
  "hex_value c =
     (if 48 \<le> c \<and> c \<le> 57 then Some (unat c - 48)
      else if 65 \<le> c \<and> c \<le> 70 then Some (unat c - 55)
      else if 97 \<le> c \<and> c \<le> 102 then Some (unat c - 87)
      else None)"

definition isxdigit :: "u8 \<Rightarrow> bool" where
  "isxdigit c \<longleftrightarrow> hex_value c \<noteq> None"

definition hex_number :: "bytes \<Rightarrow> nat" where
  "hex_number ds = foldl (\<lambda>acc c. 16 * acc + the (hex_value c)) 0 ds"

text \<open>
  \<open>strtoul(s, &end, 16)\<close>: leading white space, a sign, an optional 0x in front of a digit, then
  digits; the value saturates and a minus sign negates it. The second component is the number
  of bytes consumed, 0 when there is no digit.
\<close>

definition strtoul16 :: "bytes \<Rightarrow> u32 \<times> nat" where
  "strtoul16 s =
     (let sp = length (takeWhile isspace s);
          s1 = drop sp s;
          neg = (s1 \<noteq> [] \<and> hd s1 = 45);
          sg = (if s1 \<noteq> [] \<and> (hd s1 = 45 \<or> hd s1 = 43) then 1 else 0);
          s2 = drop sg s1;
          px = (if 3 \<le> length s2 \<and> s2 ! 0 = 48 \<and> (s2 ! 1 = 120 \<or> s2 ! 1 = 88) \<and> isxdigit (s2 ! 2)
                then 2 else 0);
          ds = takeWhile isxdigit (drop px s2) in
      if ds = [] then (0, 0)
      else
        let v = (if hex_number ds < 2 ^ 32
                 then (if neg then - of_nat (hex_number ds) else of_nat (hex_number ds))
                 else 0xFFFFFFFF) in
        (v, sp + sg + px + length ds))"

text \<open>\<open>strncpy_s(dst, n, src, _TRUNCATE)\<close> into an array of \<open>n\<close> bytes.\<close>

definition strncpy_trunc :: "nat \<Rightarrow> bytes \<Rightarrow> bytes option" where
  "strncpy_trunc n src =
     (let s = take (n - 1) (cstr src) in
      if 0 \<in> set (take n src) \<or> n \<le> length src
      then Some (s @ zeros (n - length s)) else None)"

section \<open>Facts\<close>

lemma strstr_sound: "strstr s key = Some i \<Longrightarrow> i + length key \<le> length s \<and> take (length key) (drop i s) = key"
proof (induction s arbitrary: i)
  case Nil
  then show ?case by (subst (asm) strstr.simps) (auto split: if_splits)
next
  case (Cons c cs)
  show ?case
  proof (cases "take (length key) (c # cs) = key")
    case True
    have "length (take (length key) (c # cs)) \<le> length (c # cs)" by simp
    then have "length key \<le> length (c # cs)" by (simp only: True)
    with True Cons.prems show ?thesis by (subst (asm) strstr.simps) simp
  next
    case False
    with Cons.prems obtain j where "strstr cs key = Some j" "i = Suc j"
      by (subst (asm) strstr.simps) auto
    with Cons.IH [of j] show ?thesis by simp
  qed
qed

lemma strstr_none: "strstr s key = None \<Longrightarrow> take (length key) (drop i s) = key \<Longrightarrow> False"
proof (induction s arbitrary: i)
  case Nil
  then show ?case by (subst (asm) strstr.simps) (auto split: if_splits)
next
  case (Cons c cs)
  from Cons.prems(1) have n: "take (length key) (c # cs) \<noteq> key" "strstr cs key = None"
    unfolding strstr.simps [of "c # cs" key] by (auto split: if_splits)
  show ?case
  proof (cases i)
    case 0
    with Cons.prems(2) n(1) show ?thesis by simp
  next
    case (Suc j)
    with Cons.IH [OF n(2), of j] Cons.prems(2) show ?thesis by simp
  qed
qed

lemma c_string_sound: "c_string buf i = Some s \<Longrightarrow> i + length s < length buf \<and> 0 \<notin> set s \<and>
     take (length s) (drop i buf) = s"
proof -
  assume a: "c_string buf i = Some s"
  then have z: "0 \<in> set (drop i buf)" and s: "s = takeWhile (\<lambda>b. b \<noteq> 0) (drop i buf)"
    by (auto simp: c_string_def cstr_def split: if_splits)
  have "length s < length (drop i buf)"
  proof (rule ccontr)
    assume "\<not> length s < length (drop i buf)"
    then have "length (takeWhile (\<lambda>b. b \<noteq> 0) (drop i buf)) = length (drop i buf)"
      using length_takeWhile_le [of "\<lambda>b. b \<noteq> 0" "drop i buf"] s by simp
    then have "takeWhile (\<lambda>b. b \<noteq> 0) (drop i buf) = drop i buf"
      by (metis takeWhile_eq_take take_all order_refl)
    with z show False by (metis set_takeWhileD)
  qed
  then show ?thesis
    using s by (auto simp: takeWhile_eq_take [symmetric] dest: set_takeWhileD)
qed

lemma hex_number_bound: "hex_number ds < 16 ^ length ds" if "\<forall>c \<in> set ds. isxdigit c"
proof -
  have d: "the (hex_value c) < 16" if "isxdigit c" for c
    using that by (auto simp: isxdigit_def hex_value_def word_le_nat_alt split: if_splits)
  show ?thesis
    using that
  proof (induction ds rule: rev_induct)
    case Nil
    show ?case by (simp add: hex_number_def)
  next
    case (snoc c ds)
    then have "hex_number ds < 16 ^ length ds" "the (hex_value c) < 16" using d by auto
    then have "16 * hex_number ds + the (hex_value c) < 16 * 16 ^ length ds" by linarith
    then show ?case by (simp add: hex_number_def)
  qed
qed

lemma strtoul16_eval:
  assumes "length (takeWhile isspace s) = sp" and "drop sp s = s1" and "(s1 \<noteq> [] \<and> hd s1 = 45) = neg"
    and "(if s1 \<noteq> [] \<and> (hd s1 = 45 \<or> hd s1 = 43) then 1 else 0) = sg" and "drop sg s1 = s2"
    and "(if 3 \<le> length s2 \<and> s2 ! 0 = 48 \<and> (s2 ! 1 = 120 \<or> s2 ! 1 = 88) \<and> isxdigit (s2 ! 2) then 2 else 0) = px"
    and "takeWhile isxdigit (drop px s2) = ds" and "ds \<noteq> []" and "hex_number ds < 2 ^ 32"
  shows "strtoul16 s = ((if neg then - of_nat (hex_number ds) else of_nat (hex_number ds)), sp + sg + px + length ds)"
  unfolding strtoul16_def Let_def assms(1-7) using assms(8,9) by (simp only: if_False if_True)

end
