(* ===== verification/Pci.thy ===== *)
theory Pci
  imports C_Strings
begin

text \<open>
  \<open>src/platform/windows/pci_enum_windows.c\<close>: identification of PCI functions from the PnP
  registry strings, their allocated resources, and the enumeration loop. Properties are in
  \<open>Pci_Correct\<close>.

  The PnP manager is a parameter: the list of device nodes in enumeration order, with what each
  query on a node answers (\<open>devnode\<close>), and for a node with an allocated configuration its handle
  and resource descriptors (\<open>res_des\<close>). Closing a handle is an event of a log.
\<close>

section \<open>Data\<close>

record PciResource =
  pr_is_memory :: bool
  pr_is_prefetchable :: bool
  pr_base :: u64
  pr_length :: u64

definition PCI_MAX_RESOURCES :: nat where "PCI_MAX_RESOURCES = 12"
definition PCI_MAX_DEVICES :: nat where "PCI_MAX_DEVICES = 512"

text \<open>\<open>pd_resources\<close> is the used prefix of \<open>resources[12]\<close>; its length is \<open>resource_count\<close>.\<close>

record PciDevice =
  pd_bus :: u8
  pd_device :: u8
  pd_function :: u8
  pd_vendor_id :: u16
  pd_device_id :: u16
  pd_class_info_available :: bool
  pd_class_code :: u8
  pd_subclass :: u8
  pd_prog_if :: u8
  pd_revision :: u8
  pd_bar :: "u64 list"
  pd_bar_available :: bool
  pd_resources :: "PciResource list"
  pd_interrupt_available :: bool
  pd_interrupt_line :: u32
  pd_description :: bytes

record PciEnumeration =
  pn_devices :: "PciDevice list"
  pn_truncated :: u32

definition pci_device0 :: PciDevice where
  "pci_device0 = \<lparr>pd_bus = 0, pd_device = 0, pd_function = 0, pd_vendor_id = 0, pd_device_id = 0,
     pd_class_info_available = False, pd_class_code = 0, pd_subclass = 0, pd_prog_if = 0,
     pd_revision = 0, pd_bar = replicate 6 0, pd_bar_available = False, pd_resources = [],
     pd_interrupt_available = False, pd_interrupt_line = 0, pd_description = zeros 128\<rparr>"

definition pci_enumeration0 :: PciEnumeration where
  "pci_enumeration0 = \<lparr>pn_devices = [], pn_truncated = 0\<rparr>"

section \<open>The PnP manager\<close>

datatype resource_type = ResType_Mem | ResType_IO | ResType_IRQ | ResType_Other

text \<open>
  A resource descriptor: its handle and type, what the size query answers, whether the data can
  be fetched, and the fields of the data.
\<close>

record res_des =
  rs_handle :: nat
  rs_type :: resource_type
  rs_size :: "u32 option"
  rs_fetch :: bool
  rs_flags :: u32
  rs_alloc_base :: u64
  rs_alloc_end :: u64
  rs_alloc_num :: u32

record devnode =
  dn_hardware_id :: "(bytes \<times> u32) option"
  dn_compatible_ids :: "(bytes \<times> u32) option"
  dn_bus_number :: "u32 option"
  dn_address :: "u32 option"
  dn_description :: "(bytes \<times> u32) option"
  dn_log_conf :: "(nat \<times> res_des list) option"

text \<open>Sizes and a flag of the platform headers, and which allocations succeed.\<close>

record pnp =
  pnp_nodes :: "devnode list option"
  sizeof_MEM_RESOURCE :: nat
  sizeof_IO_RESOURCE :: nat
  sizeof_IRQ_RESOURCE :: nat
  fMD_PrefetchAllowed :: u32
  pnp_alloc_ok :: "nat \<Rightarrow> bool"

datatype pnp_event = FreeResDes nat | FreeLogConf nat | DestroyList

section \<open>Strings\<close>

text \<open>The result is the return value and \<open>*out\<close>.\<close>

definition extract_hex_token :: "bytes \<Rightarrow> bytes \<Rightarrow> u32 \<Rightarrow> (bool \<times> u32) option" where
  "extract_hex_token hwid key out =
     do { s \<leftarrow> c_string hwid 0;
          Some (case strstr s key of
            None \<Rightarrow> (False, out)
          | Some i \<Rightarrow>
              (case strtoul16 (drop (i + length key) s) of
                 (v, consumed) \<Rightarrow> if consumed = 0 then (False, out) else (True, v))) }"

text \<open>One compatible ID: its number of digits after CC_ and their value, when at least two.\<close>

definition class_digits :: "bytes \<Rightarrow> nat \<Rightarrow> (nat \<times> u32) option" where
  "class_digits p slen =
     (case strstr p (ascii ''CC_'') of
        None \<Rightarrow> None
      | Some i \<Rightarrow>
          if i < slen then
            let digits = drop (i + 3) p;
                n = length (takeWhile isxdigit (take 6 digits)) in
            if 2 \<le> n then Some (n, fst (strtoul16 (take n digits))) else None
          else None)"

definition better :: "nat \<times> u32 \<Rightarrow> (nat \<times> u32) option \<Rightarrow> nat \<times> u32" where
  "better best found =
     (case found of None \<Rightarrow> best | Some (n, v) \<Rightarrow> if fst best < n then (n, v) else best)"

function class_scan :: "bytes \<Rightarrow> nat \<Rightarrow> nat \<Rightarrow> nat \<times> u32 \<Rightarrow> (nat \<times> u32) option" where
  "class_scan buf e p best =
     (if p < e then
        do { c \<leftarrow> rd8 buf p;
             if c = 0 then Some best
             else do { slen \<leftarrow> strnlen buf p (e - p);
                       s \<leftarrow> c_string buf p;
                       class_scan buf e (p + slen + 1) (better best (class_digits s slen)) } }
      else Some best)"
  by pat_completeness auto
termination
  by (relation "measure (\<lambda>(buf, e, p, best). e - p)") auto

declare class_scan.simps [simp del]

definition class_fields :: "nat \<times> u32 \<Rightarrow> PciDevice \<Rightarrow> bool \<times> PciDevice" where
  "class_fields best dev =
     (case best of (best_digits, best_value) \<Rightarrow>
        if 2 \<le> best_digits then
          let dev = dev\<lparr>pd_class_code := ucast (drop_bit ((best_digits - 2) * 4) best_value AND 0xFF)\<rparr>;
              dev = (if 4 \<le> best_digits
                then dev\<lparr>pd_subclass := ucast (drop_bit ((best_digits - 4) * 4) best_value AND 0xFF)\<rparr> else dev);
              dev = (if 6 \<le> best_digits
                then dev\<lparr>pd_prog_if := ucast (best_value AND 0xFF)\<rparr> else dev) in
          (True, dev\<lparr>pd_class_info_available := True\<rparr>)
        else (False, dev))"

definition extract_class_code :: "bytes \<Rightarrow> nat \<Rightarrow> PciDevice \<Rightarrow> (bool \<times> PciDevice) option" where
  "extract_class_code multi_sz total_len dev =
     map_option (\<lambda>best. class_fields best dev) (class_scan multi_sz total_len 0 (0, 0))"

section \<open>Resources\<close>

definition range_length :: "u64 \<Rightarrow> u64 \<Rightarrow> u64" where
  "range_length base last_addr = (if base \<le> last_addr then last_addr - base + 1 else 0)"

text \<open>The three branches on a fetched descriptor.\<close>

definition decode_resource :: "pnp \<Rightarrow> res_des \<Rightarrow> nat \<Rightarrow> PciDevice \<Rightarrow> PciDevice option" where
  "decode_resource e d dataSize dev =
     (if rs_type d = ResType_Mem \<and> sizeof_MEM_RESOURCE e \<le> dataSize then
        map_option (\<lambda>rs. dev\<lparr>pd_resources := rs\<rparr>) (tbl_store PCI_MAX_RESOURCES (pd_resources dev)
          \<lparr>pr_is_memory = True, pr_is_prefetchable = (rs_flags d AND fMD_PrefetchAllowed e \<noteq> 0),
           pr_base = rs_alloc_base d, pr_length = range_length (rs_alloc_base d) (rs_alloc_end d)\<rparr>)
      else if rs_type d = ResType_IO \<and> sizeof_IO_RESOURCE e \<le> dataSize then
        map_option (\<lambda>rs. dev\<lparr>pd_resources := rs\<rparr>) (tbl_store PCI_MAX_RESOURCES (pd_resources dev)
          \<lparr>pr_is_memory = False, pr_is_prefetchable = False,
           pr_base = rs_alloc_base d, pr_length = range_length (rs_alloc_base d) (rs_alloc_end d)\<rparr>)
      else if rs_type d = ResType_IRQ \<and> sizeof_IRQ_RESOURCE e \<le> dataSize then
        Some (dev\<lparr>pd_interrupt_available := True, pd_interrupt_line := rs_alloc_num d\<rparr>)
      else Some dev)"

definition read_resource :: "pnp \<Rightarrow> res_des \<Rightarrow> PciDevice \<Rightarrow> heap \<Rightarrow> (PciDevice \<times> heap) option" where
  "read_resource e d dev h =
     (case rs_size d of
        None \<Rightarrow> Some (dev, h)
      | Some dataSize \<Rightarrow>
          if 0 < dataSize then
            case h_malloc (pnp_alloc_ok e) h of
              (None, h) \<Rightarrow> Some (dev, h)
            | (Some data, h) \<Rightarrow>
                do { dev \<leftarrow> (if rs_fetch d then decode_resource e d (unat dataSize) dev else Some dev);
                     h \<leftarrow> h_free data h;
                     Some (dev, h) }
          else Some (dev, h))"

text \<open>
  The descriptor loop. \<open>prev\<close> is \<open>prevResDes\<close>, which starts as the configuration's own handle;
  the result carries its value after the loop and the handles freed in it.
\<close>

fun resource_loop :: "pnp \<Rightarrow> nat \<Rightarrow> res_des list \<Rightarrow> nat \<Rightarrow> PciDevice \<Rightarrow> heap \<Rightarrow>
    (PciDevice \<times> nat \<times> pnp_event list \<times> heap) option" where
  "resource_loop e logConf [] prev dev h =
     (if length (pd_resources dev) < PCI_MAX_RESOURCES
      then Some (dev, prev, (if prev \<noteq> logConf then [FreeResDes prev] else []), h)
      else Some (dev, prev, [], h))"
| "resource_loop e logConf (d # ds) prev dev h =
     (if length (pd_resources dev) < PCI_MAX_RESOURCES then
        do { (dev, h) \<leftarrow> read_resource e d dev h;
             (dev, last_prev, log, h) \<leftarrow> resource_loop e logConf ds (rs_handle d) dev h;
             Some (dev, last_prev, (if prev \<noteq> logConf then [FreeResDes prev] else []) @ log, h) }
      else Some (dev, prev, [], h))"

definition collect_resources :: "pnp \<Rightarrow> devnode \<Rightarrow> PciDevice \<Rightarrow> heap \<Rightarrow>
    (PciDevice \<times> pnp_event list \<times> heap) option" where
  "collect_resources e node dev h =
     (case dn_log_conf node of
        None \<Rightarrow> Some (dev, [], h)
      | Some (logConf, ds) \<Rightarrow>
          do { (dev, prev, log, h) \<leftarrow> resource_loop e logConf ds logConf dev h;
               Some (dev, log @ (if prev \<noteq> logConf then [FreeResDes prev] else []) @ [FreeLogConf logConf], h) })"

section \<open>Enumeration\<close>

definition set_address :: "devnode \<Rightarrow> PciDevice \<Rightarrow> PciDevice" where
  "set_address node dev =
     (let dev = (case dn_bus_number node of None \<Rightarrow> dev | Some busNumber \<Rightarrow> dev\<lparr>pd_bus := ucast busNumber\<rparr>) in
      case dn_address node of
        None \<Rightarrow> dev
      | Some addressVal \<Rightarrow> dev\<lparr>pd_device := ucast (drop_bit 16 addressVal AND 0xFF),
          pd_function := ucast (addressVal AND 0xFF)\<rparr>)"

definition set_class :: "devnode \<Rightarrow> PciDevice \<Rightarrow> PciDevice option" where
  "set_class node dev =
     (case dn_compatible_ids node of
        None \<Rightarrow> Some dev
      | Some (ids, len) \<Rightarrow> map_option snd (extract_class_code ids (unat len) dev))"

definition set_description :: "devnode \<Rightarrow> PciDevice \<Rightarrow> PciDevice option" where
  "set_description node dev =
     (case dn_description node of
        None \<Rightarrow> Some dev
      | Some (desc, len) \<Rightarrow>
          if 0 < len then map_option (\<lambda>s. dev\<lparr>pd_description := s\<rparr>) (strncpy_trunc 128 desc)
          else Some dev)"

text \<open>The body of the loop for a node below the capacity.\<close>

definition add_device :: "pnp \<Rightarrow> devnode \<Rightarrow> PciEnumeration \<Rightarrow> heap \<Rightarrow>
    (PciEnumeration \<times> pnp_event list \<times> heap) option" where
  "add_device e node out h =
     (case dn_hardware_id node of
        None \<Rightarrow> Some (out, [], h)
      | Some (hwid, len) \<Rightarrow>
          do { ven \<leftarrow> extract_hex_token hwid (ascii ''VEN_'') 0;
               devid \<leftarrow> extract_hex_token hwid (ascii ''DEV_'') 0;
               if \<not> fst ven \<or> \<not> fst devid then Some (out, [], h)
               else do {
                 rev \<leftarrow> extract_hex_token hwid (ascii ''REV_'') 0;
                 let dev = pci_device0\<lparr>pd_vendor_id := ucast (snd ven), pd_device_id := ucast (snd devid)\<rparr>;
                 let dev = (if fst rev then dev\<lparr>pd_revision := ucast (snd rev)\<rparr> else dev);
                 dev \<leftarrow> set_class node dev;
                 let dev = set_address node dev;
                 dev \<leftarrow> set_description node dev;
                 (dev, log, h) \<leftarrow> collect_resources e node dev h;
                 devs \<leftarrow> tbl_store PCI_MAX_DEVICES (pn_devices out) dev;
                 Some (out\<lparr>pn_devices := devs\<rparr>, log, h) } })"

fun enum_loop :: "pnp \<Rightarrow> devnode list \<Rightarrow> PciEnumeration \<Rightarrow> heap \<Rightarrow>
    (PciEnumeration \<times> pnp_event list \<times> heap) option" where
  "enum_loop e [] out h = Some (out, [], h)"
| "enum_loop e (node # nodes) out h =
     (if PCI_MAX_DEVICES \<le> length (pn_devices out)
      then enum_loop e nodes (out\<lparr>pn_truncated := pn_truncated out + 1\<rparr>) h
      else do { (out, log, h) \<leftarrow> add_device e node out h;
                (out, log', h) \<leftarrow> enum_loop e nodes out h;
                Some (out, log @ log', h) })"

text \<open>\<open>pnp_nodes\<close> is \<open>None\<close> when \<open>SetupDiGetClassDevsA\<close> fails.\<close>

definition pci_enumerate :: "pnp \<Rightarrow> heap \<Rightarrow> (bool \<times> PciEnumeration \<times> pnp_event list \<times> heap) option" where
  "pci_enumerate e h =
     (case pnp_nodes e of
        None \<Rightarrow> Some (False, pci_enumeration0, [], h)
      | Some nodes \<Rightarrow>
          do { (out, log, h) \<leftarrow> enum_loop e nodes pci_enumeration0 h;
               Some (True, out, log @ [DestroyList], h) })"

end
