(* ===== verification/Pci_Correct.thy ===== *)
theory Pci_Correct
  imports Pci
begin

text \<open>
  Correctness of the PCI enumeration: the invariant of the result, which handles are closed how
  often, and what the identifiers and class codes decode to.
\<close>

section \<open>The invariant\<close>

definition resource_ok :: "PciResource \<Rightarrow> bool" where
  "resource_ok r \<longleftrightarrow> pr_length r = 0 \<or> unat (pr_base r) + unat (pr_length r) \<le> 2 ^ 64"

definition device_ok :: "PciDevice \<Rightarrow> bool" where
  "device_ok d \<longleftrightarrow> length (pd_resources d) \<le> PCI_MAX_RESOURCES \<and> (\<forall>r \<in> set (pd_resources d). resource_ok r) \<and>
     length (pd_description d) = 128 \<and> nul_terminated (pd_description d) \<and>
     pd_bar d = replicate 6 0 \<and> \<not> pd_bar_available d"

definition enumeration_ok :: "PciEnumeration \<Rightarrow> bool" where
  "enumeration_ok out \<longleftrightarrow> length (pn_devices out) \<le> PCI_MAX_DEVICES \<and> (\<forall>d \<in> set (pn_devices out). device_ok d)"

text \<open>
  What the registry promises for a string property: a NUL in the buffer, and for a list of
  strings a reported length within the buffer whose last byte is NUL.
\<close>

definition node_ok :: "devnode \<Rightarrow> bool" where
  "node_ok n \<longleftrightarrow>
     (case dn_hardware_id n of None \<Rightarrow> True | Some (b, len) \<Rightarrow> nul_terminated b) \<and>
     (case dn_compatible_ids n of None \<Rightarrow> True
      | Some (b, len) \<Rightarrow> unat len \<le> length b \<and> (0 < len \<longrightarrow> b ! (unat len - 1) = 0)) \<and>
     (case dn_description n of None \<Rightarrow> True | Some (b, len) \<Rightarrow> length b = 128)"

lemma range_length_ok: "range_length base l = 0 \<or> unat base + unat (range_length base l) \<le> 2 ^ 64"
proof (cases "base \<le> l")
  case True
  have "unat l < 2 ^ 64" using unsigned_less [where 'a = nat, of l] by simp
  moreover have d: "unat (l - base) = unat l - unat base" using True by (simp add: unat_sub)
  moreover have "unat base \<le> unat l" using True by (simp add: word_le_nat_alt)
  moreover have "unat (l - base + 1) \<le> unat (l - base) + 1"
    by (simp only: unat_word_ariths(1) unsigned_1 mod_less_eq_dividend)
  ultimately have "unat base + unat (l - base + 1) \<le> 2 ^ 64" by linarith
  with True show ?thesis unfolding range_length_def by (simp only: if_True simp_thms)
qed (simp add: range_length_def)

lemma decode_resource_in:
  assumes "device_ok dev" and "length (pd_resources dev) < PCI_MAX_RESOURCES"
  shows "\<exists>dev'. decode_resource e d n dev = Some dev' \<and> device_ok dev'"
  using assms range_length_ok [of "rs_alloc_base d" "rs_alloc_end d"]
  by (auto simp: decode_resource_def device_ok_def resource_ok_def)

lemma read_resource_in:
  assumes "device_ok dev" and "length (pd_resources dev) < PCI_MAX_RESOURCES"
  shows "\<exists>dev' h'. read_resource e d dev h = Some (dev', h') \<and> device_ok dev' \<and> balanced h h'"
proof (cases "\<exists>n. rs_size d = Some n \<and> 0 < n")
  case False
  with assms(1) show ?thesis by (auto simp: read_resource_def split: option.splits)
next
  case True
  then obtain n where n: "rs_size d = Some n" "0 < n" by blast
  obtain dev' where dev': "(if rs_fetch d then decode_resource e d (unat n) dev else Some dev) = Some dev'"
    "device_ok dev'"
    using decode_resource_in [OF assms, of e d "unat n"] assms(1) by (cases "rs_fetch d") (auto intro: that)
  show ?thesis
  proof (cases "h_malloc (pnp_alloc_ok e) h")
    case (Pair r h1)
    show ?thesis
    proof (cases r)
      case None
      with Pair n assms(1) h_malloc_none [of "pnp_alloc_ok e" h h1] show ?thesis
        by (simp add: read_resource_def)
    next
      case (Some b)
      with Pair have "owns b h h1" by (simp add: h_malloc_owns)
      then obtain h2 where "h_free b h1 = Some h2" "balanced h h2" using owns_free by blast
      with Pair Some n dev' show ?thesis by (simp add: read_resource_def)
    qed
  qed
qed

section \<open>Handles\<close>

text \<open>
  The loop consumes a prefix of the descriptors, up to the first point where the device's table
  is full, and frees the handle it came from before it looks for the next one.
\<close>

lemma resource_loop_in:
  "device_ok dev \<Longrightarrow> \<exists>k dev' h'.
     resource_loop e lc ds prev dev h = Some (dev', last (prev # map rs_handle (take k ds)),
       map FreeResDes (filter (\<lambda>x. x \<noteq> lc) (if length (pd_resources dev') < PCI_MAX_RESOURCES
         then prev # map rs_handle (take k ds) else butlast (prev # map rs_handle (take k ds)))), h') \<and>
     k \<le> length ds \<and> (length (pd_resources dev') < PCI_MAX_RESOURCES \<longrightarrow> k = length ds) \<and>
     device_ok dev' \<and> balanced h h'"
proof (induction ds arbitrary: prev dev h)
  case Nil
  then show ?case by auto
next
  case (Cons d ds)
  show ?case
  proof (cases "length (pd_resources dev) < PCI_MAX_RESOURCES")
    case False
    with Cons.prems show ?thesis by (intro exI [of _ 0]) auto
  next
    case True
    obtain dev1 h1 where r: "read_resource e d dev h = Some (dev1, h1)" "device_ok dev1" "balanced h h1"
      using read_resource_in [OF Cons.prems True] by blast
    from Cons.IH [OF r(2), of "rs_handle d" h1] obtain k dev' h' where
      k: "resource_loop e lc ds (rs_handle d) dev1 h1 = Some (dev', last (rs_handle d # map rs_handle (take k ds)),
         map FreeResDes (filter (\<lambda>x. x \<noteq> lc) (if length (pd_resources dev') < PCI_MAX_RESOURCES
           then rs_handle d # map rs_handle (take k ds) else butlast (rs_handle d # map rs_handle (take k ds)))), h')"
      "k \<le> length ds" "length (pd_resources dev') < PCI_MAX_RESOURCES \<longrightarrow> k = length ds"
      "device_ok dev'" "balanced h1 h'" by blast
    then show ?thesis
      using True r balanced_trans [OF r(3) k(5)] by (intro exI [of _ "Suc k"] exI [of _ dev'] exI [of _ h']) auto
  qed
qed

text \<open>
  C28. How often resource handles are closed. For a configuration whose descriptors have
  distinct handles, collecting the resources of a device closes the configuration once, and the
  handle of every descriptor it obtained exactly once, except in one case: when the enumeration
  of descriptors ends before the table of 12 is full and at least one was obtained, the last
  handle is closed twice.
\<close>

theorem resource_handles_closed:
  assumes "dn_log_conf node = Some (lc, ds)" and "distinct (map rs_handle ds)" and "lc \<notin> rs_handle ` set ds"
    and "device_ok dev"
  shows "\<exists>dev' log h' k. collect_resources e node dev h = Some (dev', log, h') \<and> balanced h h' \<and>
    device_ok dev' \<and> k \<le> length ds \<and> (length (pd_resources dev') < PCI_MAX_RESOURCES \<longrightarrow> k = length ds) \<and>
    log = map (FreeResDes \<circ> rs_handle) (take k ds) @
      (if 0 < k \<and> length (pd_resources dev') < PCI_MAX_RESOURCES then [FreeResDes (rs_handle (ds ! (k - 1)))] else []) @
      [FreeLogConf lc]"
proof -
  obtain k dev' h' where
    l: "resource_loop e lc ds lc dev h = Some (dev', last (lc # map rs_handle (take k ds)),
       map FreeResDes (filter (\<lambda>x. x \<noteq> lc) (if length (pd_resources dev') < PCI_MAX_RESOURCES
         then lc # map rs_handle (take k ds) else butlast (lc # map rs_handle (take k ds)))), h')"
    and k: "k \<le> length ds" "length (pd_resources dev') < PCI_MAX_RESOURCES \<longrightarrow> k = length ds"
      "device_ok dev'" "balanced h h'"
    using resource_loop_in [OF assms(4)] by blast
  have nlc: "x \<in> set (map rs_handle (take k ds)) \<Longrightarrow> x \<noteq> lc" for x
    using assms(3) set_take_subset [of k ds] by auto
  have f: "filter (\<lambda>x. x \<noteq> lc) (map rs_handle (take k ds)) = map rs_handle (take k ds)"
    "filter (\<lambda>x. x \<noteq> lc) (butlast (map rs_handle (take k ds))) = butlast (map rs_handle (take k ds))"
    using nlc in_set_butlastD by (fastforce simp: filter_id_conv)+
  show ?thesis
  proof (cases "k = 0")
    case True
    with assms(1) l k show ?thesis
      by (intro exI [of _ dev'] exI exI [of _ h'] exI [of _ 0]) (auto simp: collect_resources_def)
  next
    case False
    then have ne: "map rs_handle (take k ds) \<noteq> []" using k(1) by (cases ds) auto
    then have lst: "last (map rs_handle (take k ds)) = rs_handle (ds ! (k - 1))"
      using False k(1) by (simp add: last_conv_nth)
    have lne: "rs_handle (ds ! (k - 1)) \<noteq> lc"
      using nlc [OF last_in_set [OF ne]] lst by simp
    have app: "butlast (map rs_handle (take k ds)) @ [rs_handle (ds ! (k - 1))] = map rs_handle (take k ds)"
      using append_butlast_last_id [OF ne] lst by simp
    show ?thesis
    proof (cases "length (pd_resources dev') < PCI_MAX_RESOURCES")
      case True
      with assms(1) l k f ne lst lne False show ?thesis
        by (intro exI [of _ dev'] exI exI [of _ h'] exI [of _ k]) (auto simp: collect_resources_def)
    next
      case full: False
      have "map FreeResDes (butlast (map rs_handle (take k ds))) @ [FreeResDes (rs_handle (ds ! (k - 1)))] =
          map (FreeResDes \<circ> rs_handle) (take k ds)"
        using arg_cong [OF app, of "map FreeResDes"] by simp
      with full assms(1) l k f ne lst lne False show ?thesis
        by (intro exI [of _ dev'] exI exI [of _ h'] exI [of _ k]) (auto simp: collect_resources_def)
    qed
  qed
qed

section \<open>Class codes\<close>

lemma strtoul16_digits:
  assumes d: "\<forall>c \<in> set ds. isxdigit c" and l: "2 \<le> length ds" "length ds \<le> 7"
    and t: "tail = [] \<or> \<not> isxdigit (hd tail)"
  shows "strtoul16 (ds @ tail) = (of_nat (hex_number ds), length ds)"
proof -
  obtain c cs where ds: "ds = c # cs" "cs \<noteq> []" using l(1) by (cases ds; cases "tl ds") auto
  have "isxdigit c" using d ds by simp
  then have h: "\<not> isspace c" "c \<noteq> 45" "c \<noteq> 43"
    by (auto simp: isxdigit_def hex_value_def isspace_def word_le_nat_alt split: if_splits)
  have "isxdigit (hd cs)" using d ds by (cases cs) auto
  then have x: "((ds @ tail) ! 1 = 120 \<or> (ds @ tail) ! 1 = 88) = False"
    using ds by (cases cs) (auto simp: isxdigit_def hex_value_def)
  have tw: "takeWhile isxdigit (ds @ tail) = ds"
    using d t by (cases tail) (auto simp: takeWhile_append)
  have "hex_number ds < 16 ^ length ds" by (rule hex_number_bound [OF d])
  also have "\<dots> \<le> (16 :: nat) ^ 7" using l(2) by (intro power_increasing) auto
  finally have lt: "hex_number ds < 2 ^ 32" by simp
  have s0: "length (takeWhile isspace (ds @ tail)) = 0" using h(1) by (simp add: ds)
  have g: "(hd (ds @ tail) = 45) = False" "(hd (ds @ tail) = 43) = False"
    using h by (simp_all add: ds)
  have ne: "(ds = []) = False" using ds by simp
  show ?thesis
    unfolding strtoul16_def Let_def
    by (simp only: s0 drop_0 g x tw lt ne simp_thms if_True if_False add_0)
qed

text \<open>
  The digits of an ID: up to six hexadecimal digits after the first \<open>CC_\<close>. The list's entry is
  the first with the most digits, when that is at least two.
\<close>

definition class_text :: "bytes \<Rightarrow> bytes" where
  "class_text s =
     (case strstr s (ascii ''CC_'') of None \<Rightarrow> [] | Some i \<Rightarrow> takeWhile isxdigit (take 6 (drop (i + 3) s)))"

definition longer :: "bytes \<Rightarrow> bytes \<Rightarrow> bytes" where
  "longer best t = (if 2 \<le> length t \<and> length best < length t then t else best)"

definition digits_of :: "bytes \<Rightarrow> nat \<times> u32" where
  "digits_of t = (length t, of_nat (hex_number t))"

lemma class_text_props: "length (class_text s) \<le> 6" "\<forall>c \<in> set (class_text s). isxdigit c"
  by (auto simp: class_text_def split: option.splits dest!: set_takeWhileD intro: order_trans [OF length_takeWhile_le])

lemma class_digits_text:
  "class_digits s (length s) =
     (if 2 \<le> length (class_text s) then Some (digits_of (class_text s)) else None)"
proof (cases "strstr s (ascii ''CC_'')")
  case None
  then show ?thesis by (simp add: class_digits_def class_text_def)
next
  case (Some i)
  have "i + length (ascii ''CC_'') \<le> length s" using strstr_sound [OF Some] by simp
  then have i: "i < length s" by (simp add: ascii_def)
  define ds where "ds = takeWhile isxdigit (take 6 (drop (i + 3) s))"
  have ct: "class_text s = ds" by (simp add: class_text_def Some ds_def)
  have "take (length ds) (drop (i + 3) s) = ds"
  proof -
    have "length ds \<le> length (take 6 (drop (i + 3) s))" "length ds \<le> 6"
      using length_takeWhile_le [of isxdigit "take 6 (drop (i + 3) s)"] by (auto simp: ds_def)
    then have "take (length ds) (drop (i + 3) s) = take (length ds) (take 6 (drop (i + 3) s))"
      by (simp only: take_take min_absorb1)
    also have "\<dots> = ds" unfolding ds_def by (rule takeWhile_eq_take [symmetric])
    finally show ?thesis .
  qed
  moreover have "2 \<le> length ds \<Longrightarrow> strtoul16 ds = (of_nat (hex_number ds), length ds)"
    using class_text_props [of s] ct strtoul16_digits [of ds "[]"] by simp
  ultimately show ?thesis
    using i by (simp add: class_digits_def Some ct digits_of_def Let_def ds_def [symmetric])
qed

lemma better_digits: "better (digits_of b) (class_digits s (length s)) = digits_of (longer b (class_text s))"
  by (simp add: better_def class_digits_text longer_def digits_of_def)

text \<open>The registry's encoding of a list of strings.\<close>

definition multi_sz :: "bytes list \<Rightarrow> bytes" where
  "multi_sz ids = concat (map (\<lambda>s. s @ [0]) ids) @ [0]"

lemma c_string_mid: "0 \<notin> set s \<Longrightarrow> c_string (pre @ s @ 0 # rest) (length pre) = Some s"
  by (simp add: c_string_def cstr_append)

lemma strnlen_mid:
  "0 \<notin> set s \<Longrightarrow> length s < m \<Longrightarrow> length pre + m \<le> length (pre @ s @ 0 # rest) \<Longrightarrow>
     strnlen (pre @ s @ 0 # rest) (length pre) m = Some (length s)"
proof -
  assume a: "0 \<notin> set s" "length s < m" "length pre + m \<le> length (pre @ s @ 0 # rest)"
  have t: "take m (s @ 0 # rest) = s @ 0 # take (m - length s - 1) rest"
    using a(2) by (cases "m - length s") auto
  have "strnlen (pre @ s @ 0 # rest) (length pre) m =
      Some (length (takeWhile (\<lambda>b. b \<noteq> 0) (take m (s @ 0 # rest))))"
    using strnlen_in [OF a(3)] by simp
  then show ?thesis using cstr_append [OF a(1)] by (simp only: t cstr_def)
qed

lemma class_scan_step:
  "p < e \<Longrightarrow> rd8 buf p = Some c \<Longrightarrow> c \<noteq> 0 \<Longrightarrow> strnlen buf p (e - p) = Some n \<Longrightarrow> c_string buf p = Some s \<Longrightarrow>
     class_scan buf e p best = class_scan buf e (p + n + 1) (better best (class_digits s n))"
  by (subst class_scan.simps) simp

lemma class_scan_multi:
  "\<forall>s \<in> set ids. s \<noteq> [] \<and> 0 \<notin> set s \<Longrightarrow>
   class_scan (pre @ multi_sz ids @ rest) (length pre + length (multi_sz ids)) (length pre) (digits_of b) =
     Some (digits_of (foldl longer b (map class_text ids)))"
proof (induction ids arbitrary: pre b)
  case Nil
  show ?case by (subst class_scan.simps) (simp add: multi_sz_def nth_append)
next
  case (Cons s ids)
  let ?tail = "multi_sz ids @ rest"
  have m: "multi_sz (s # ids) = s @ 0 # multi_sz ids" by (simp add: multi_sz_def)
  have buf: "pre @ multi_sz (s # ids) @ rest = pre @ s @ 0 # ?tail" by (simp add: m)
  have s: "s \<noteq> []" "0 \<notin> set s" using Cons.prems by auto
  have c: "rd8 (pre @ s @ 0 # ?tail) (length pre) = Some (hd s)" "hd s \<noteq> 0"
    using s by (cases s; simp add: nth_append)+
  have n: "strnlen (pre @ s @ 0 # ?tail) (length pre) (length s + 1 + length (multi_sz ids)) = Some (length s)"
    by (rule strnlen_mid [OF s(2)]) simp_all
  have IH: "class_scan ((pre @ s @ [0]) @ multi_sz ids @ rest) (length (pre @ s @ [0]) + length (multi_sz ids))
      (length (pre @ s @ [0])) (digits_of (longer b (class_text s))) =
      Some (digits_of (foldl longer (longer b (class_text s)) (map class_text ids)))"
    using Cons.prems by (intro Cons.IH) auto
  have "class_scan (pre @ s @ 0 # ?tail) (length pre + (length s + 1 + length (multi_sz ids)))
      (length pre) (digits_of b) =
    class_scan (pre @ s @ 0 # ?tail) (length pre + (length s + 1 + length (multi_sz ids)))
      (length pre + length s + 1) (better (digits_of b) (class_digits s (length s)))"
    using n by (intro class_scan_step [OF _ c _ c_string_mid [OF s(2)]]) simp_all
  with IH show ?case by (simp add: m better_digits ac_simps)
qed

lemma hex_number_append: "hex_number (a @ b) = hex_number a * 16 ^ length b + hex_number b"
proof (induction b rule: rev_induct)
  case (snoc x b)
  then show ?case by (simp add: hex_number_def algebra_simps flip: append_assoc)
qed (simp add: hex_number_def)

lemma hex_pair_field:
  assumes "\<forall>x \<in> set (a @ b @ c). isxdigit x" and "length b = 2" and "length (a @ b @ c) \<le> 6"
  shows "(ucast (drop_bit (length c * 4) (of_nat (hex_number (a @ b @ c)) :: u32) AND 0xFF) :: u8) =
    of_nat (hex_number b)"
proof -
  let ?n = "hex_number (a @ b @ c)"
  have "?n < 16 ^ length (a @ b @ c)" by (rule hex_number_bound [OF assms(1)])
  also have "\<dots> \<le> (16 :: nat) ^ 6" using assms(3) by (intro power_increasing) auto
  finally have n: "unat (of_nat ?n :: u32) = ?n" "take_bit LENGTH(32) ?n = ?n"
    by (simp_all add: unat_of_nat take_bit_nat_eq_self)
  have c: "hex_number c < 16 ^ length c" and b: "hex_number b < 16 ^ 2"
    using hex_number_bound [of c] hex_number_bound [of b] assms(1,2) by auto
  have q: "(2 :: nat) ^ (length c * 4) = 16 ^ length c" by (simp add: power_mult [symmetric] mult.commute [of _ 4] power_mult)
  have "?n = (hex_number a * 256 + hex_number b) * 16 ^ length c + hex_number c"
    using assms(2) by (simp add: hex_number_append power_add algebra_simps)
  then have d: "?n div 2 ^ (length c * 4) = hex_number a * 256 + hex_number b"
    unfolding q using c by simp
  have "unat (drop_bit (length c * 4) (of_nat ?n :: u32)) = ?n div 2 ^ (length c * 4)"
    by (simp only: unsigned_drop_bit_eq n) (simp only: drop_bit_eq_div)
  moreover have "unat (drop_bit (length c * 4) (of_nat ?n :: u32) AND 0xFF) =
      unat (drop_bit (length c * 4) (of_nat ?n :: u32)) mod 2 ^ 8"
    using unat_and_mask [of "drop_bit (length c * 4) (of_nat ?n :: u32)" 8] by (simp add: mask_eq_exp_minus_1)
  ultimately have "unat (drop_bit (length c * 4) (of_nat ?n :: u32) AND 0xFF) = ?n div 2 ^ (length c * 4) mod 2 ^ 8"
    by simp
  also have "\<dots> = hex_number b" using b by (simp add: d)
  finally have u: "unat (drop_bit (length c * 4) (of_nat ?n :: u32) AND 0xFF) = hex_number b" .
  have "unat (ucast (drop_bit (length c * 4) (of_nat ?n :: u32) AND 0xFF) :: u8) = unat (of_nat (hex_number b) :: u8)"
    using b by (simp add: unsigned_ucast_eq u take_bit_eq_mod unat_of_nat)
  then show ?thesis by (rule word_unat_eq_iff [THEN iffD2])
qed

lemma foldl_longer_props:
  assumes "length b \<le> 6" and "\<forall>c \<in> set b. isxdigit c" and "\<forall>t \<in> set ts. length t \<le> 6 \<and> (\<forall>c \<in> set t. isxdigit c)"
  shows "length (foldl longer b ts) \<le> 6 \<and> (\<forall>c \<in> set (foldl longer b ts). isxdigit c)"
  using assms by (induction ts arbitrary: b) (auto simp: longer_def)

text \<open>What the digits say: pairs of hexadecimal digits, from the left.\<close>

definition class_spec :: "bytes \<Rightarrow> PciDevice \<Rightarrow> PciDevice" where
  "class_spec t dev =
     (if 2 \<le> length t then
        dev\<lparr>pd_class_info_available := True,
            pd_class_code := of_nat (hex_number (take 2 t)),
            pd_subclass := (if 4 \<le> length t then of_nat (hex_number (take 2 (drop 2 t))) else pd_subclass dev),
            pd_prog_if := (if 6 \<le> length t then of_nat (hex_number (take 2 (drop 4 t))) else pd_prog_if dev)\<rparr>
      else dev)"

lemma class_fields_spec:
  assumes "length t \<le> 6" and "\<forall>c \<in> set t. isxdigit c"
  shows "class_fields (digits_of t) dev = (2 \<le> length t, class_spec t dev)"
proof -
  have f: "(ucast (drop_bit ((length t - (i + 2)) * 4) (of_nat (hex_number t) :: u32) AND 0xFF) :: u8) =
      of_nat (hex_number (take 2 (drop i t)))" if "i + 2 \<le> length t" for i
  proof -
    have t: "t = take i t @ take 2 (drop i t) @ drop (i + 2) t"
      using append_take_drop_id [of i t] append_take_drop_id [of 2 "drop i t"] by (simp only: drop_drop add.commute)
    have "length (take 2 (drop i t)) = 2" using that by simp
    then show ?thesis
      using hex_pair_field [of "take i t" "take 2 (drop i t)" "drop (i + 2) t"] assms
      by (simp only: t [symmetric] length_drop)
  qed
  show ?thesis
  proof (cases "2 \<le> length t")
    case False
    then show ?thesis by (simp add: class_fields_def digits_of_def class_spec_def)
  next
    case True
    have f0: "(ucast (drop_bit ((length t - 2) * 4) (of_nat (hex_number t) :: u32) AND 0xFF) :: u8) =
        of_nat (hex_number (take 2 t))" using f [of 0] True by (simp only: add_0 drop_0)
    have f2: "(ucast (drop_bit ((length t - 4) * 4) (of_nat (hex_number t) :: u32) AND 0xFF) :: u8) =
        of_nat (hex_number (take 2 (drop 2 t)))" if "4 \<le> length t"
      using f [of 2] that by (simp only: numeral_plus_numeral add_num_simps)
    have f4: "(ucast ((of_nat (hex_number t) :: u32) AND 0xFF) :: u8) = of_nat (hex_number (take 2 (drop 4 t)))"
      if "6 \<le> length t"
    proof -
      have "length t - 6 = 0" using assms(1) by simp
      then show ?thesis using f [of 4] that
        by (simp only: numeral_plus_numeral add_num_simps mult_0 drop_bit_0 id_apply)
    qed
    show ?thesis
      using True f0 f2 f4
      by (simp only: class_fields_def digits_of_def class_spec_def Let_def prod.case if_True)
        (cases "4 \<le> length t"; cases "6 \<le> length t"; simp)
  qed
qed

text \<open>
  C27. The class code of a device is read from its list of compatible IDs as it is meant to be:
  for every list of IDs as the registry stores it, whatever follows it in the buffer, the fields
  are those spelled by the ID with the most hexadecimal digits after its \<open>CC_\<close> (the first of
  them, at most six digits, at least two), pair by pair: class, subclass when four digits are
  there, programming interface when six are; when there is no such ID nothing is set.
\<close>

theorem class_code_exact:
  assumes "\<forall>s \<in> set ids. s \<noteq> [] \<and> 0 \<notin> set s"
  shows "extract_class_code (multi_sz ids @ rest) (length (multi_sz ids)) dev =
    (let t = foldl longer [] (map class_text ids) in Some (2 \<le> length t, class_spec t dev))"
proof -
  have "digits_of [] = (0, 0)" by (simp add: digits_of_def hex_number_def)
  moreover have "length (foldl longer [] (map class_text ids)) \<le> 6 \<and>
      (\<forall>c \<in> set (foldl longer [] (map class_text ids)). isxdigit c)"
    using class_text_props by (intro foldl_longer_props) auto
  ultimately show ?thesis
    using class_scan_multi [OF assms, of "[]" rest "[]"]
    by (simp add: extract_class_code_def class_fields_spec Let_def)
qed

theorem class_code_exact_witness:
  "extract_class_code (multi_sz [ascii ''X/VEN_1&CC_0300'', ascii ''CC_030201''] @ [7])
     (length (multi_sz [ascii ''X/VEN_1&CC_0300'', ascii ''CC_030201''])) pci_device0 =
     Some (True, pci_device0\<lparr>pd_class_info_available := True, pd_class_code := 3, pd_subclass := 2, pd_prog_if := 1\<rparr>)"
proof -
  let ?ids = "[ascii ''X/VEN_1&CC_0300'', ascii ''CC_030201'']"
  have "\<forall>s \<in> set ?ids. s \<noteq> [] \<and> 0 \<notin> set s" by (simp add: ascii_def)
  note e = class_code_exact [OF this, of "[7]" pci_device0]
  have t: "foldl longer [] (map class_text ?ids) = ascii ''030201''" by code_simp
  have "(let t = ascii ''030201'' in Some (2 \<le> length t, class_spec t pci_device0)) =
      Some (True, pci_device0\<lparr>pd_class_info_available := True, pd_class_code := 3, pd_subclass := 2, pd_prog_if := 1\<rparr>)"
    by code_simp
  with e show ?thesis by (simp only: t)
qed

section \<open>Enumeration\<close>

lemma hex_token_total: "nul_terminated hwid \<Longrightarrow> \<exists>r. extract_hex_token hwid key out = Some r"
  by (simp add: extract_hex_token_def c_string_def nul_terminated_def)

lemma class_scan_total:
  assumes "e \<le> length buf" and "0 < e \<longrightarrow> buf ! (e - 1) = 0"
  shows "\<exists>best'. class_scan buf e p best = Some best'"
proof (induction "e - p" arbitrary: p best rule: less_induct)
  case less
  show ?case
  proof (cases "p < e \<and> buf ! p \<noteq> 0")
    case False
    with assms(1) show ?thesis by (subst class_scan.simps) auto
  next
    case True
    then obtain n where n: "strnlen buf p (e - p) = Some n"
      using assms(1) strnlen_in [of p "e - p" buf] by simp
    have "drop p buf ! (e - 1 - p) = 0" "e - 1 - p < length (drop p buf)" using True assms by auto
    then have "0 \<in> set (drop p buf)" by (metis nth_mem)
    then have c: "c_string buf p = Some (cstr (drop p buf))" by (simp add: c_string_def)
    have r: "rd8 buf p = Some (buf ! p)" using True assms(1) by simp
    have "e - (p + n + 1) < e - p" using True by arith
    then show ?thesis
      using less.hyps [of "p + n + 1" "better best (class_digits (cstr (drop p buf)) n)"]
        class_scan_step [OF _ r _ n c, of best] True by simp
  qed
qed

lemma device_ok_fields [simp]:
  "device_ok (dev\<lparr>pd_class_code := c\<rparr>) = device_ok dev" "device_ok (dev\<lparr>pd_subclass := c\<rparr>) = device_ok dev"
  "device_ok (dev\<lparr>pd_prog_if := c\<rparr>) = device_ok dev" "device_ok (dev\<lparr>pd_class_info_available := b\<rparr>) = device_ok dev"
  "device_ok (dev\<lparr>pd_bus := c\<rparr>) = device_ok dev" "device_ok (dev\<lparr>pd_device := c, pd_function := d\<rparr>) = device_ok dev"
  by (simp_all add: device_ok_def)

lemma class_fields_ok: "device_ok dev \<Longrightarrow> device_ok (snd (class_fields best dev))"
  by (cases best; cases "2 \<le> fst best"; cases "4 \<le> fst best"; cases "6 \<le> fst best")
    (simp_all only: class_fields_def Let_def prod.case fst_conv snd_conv if_True if_False device_ok_fields)

lemma set_class_ok: "node_ok node \<Longrightarrow> device_ok dev \<Longrightarrow> \<exists>dev'. set_class node dev = Some dev' \<and> device_ok dev'"
proof -
  assume n: "node_ok node" and d: "device_ok dev"
  show ?thesis
  proof (cases "dn_compatible_ids node")
    case None
    with d show ?thesis by (simp add: set_class_def)
  next
    case (Some c)
    obtain b len where c: "c = (b, len)" by (cases c)
    have "unat len \<le> length b" "0 < unat len \<longrightarrow> b ! (unat len - 1) = 0"
      using n Some c by (simp_all add: node_ok_def word_less_nat_alt)
    then obtain best where "class_scan b (unat len) 0 (0, 0) = Some best"
      using class_scan_total [of "unat len" b 0 "(0, 0)"] by auto
    with class_fields_ok [OF d, of best] show ?thesis by (simp add: set_class_def Some c extract_class_code_def)
  qed
qed

lemma set_address_ok: "device_ok dev \<Longrightarrow> device_ok (set_address node dev)"
  by (simp add: set_address_def Let_def split: option.splits)

lemma set_description_ok:
  assumes "node_ok node" and "device_ok dev"
  shows "\<exists>dev'. set_description node dev = Some dev' \<and> device_ok dev'"
proof (cases "dn_description node")
  case None
  with assms(2) show ?thesis by (simp add: set_description_def)
next
  case (Some c)
  obtain b len where c: "c = (b, len)" by (cases c)
  have "length b = 128" using assms(1) Some c by (simp add: node_ok_def)
  moreover from this have "length (take 127 (cstr b)) \<le> 127" by simp
  ultimately show ?thesis
    using assms(2)
    by (cases "0 < len")
      (auto simp: set_description_def Some c strncpy_trunc_def Let_def device_ok_def nul_terminated_def zeros_def)
qed

lemma collect_resources_ok:
  assumes "device_ok dev"
  shows "\<exists>dev' log h'. collect_resources e node dev h = Some (dev', log, h') \<and> device_ok dev' \<and> balanced h h'"
proof (cases "dn_log_conf node")
  case None
  with assms show ?thesis by (simp add: collect_resources_def)
next
  case (Some c)
  obtain lc ds where c: "c = (lc, ds)" by (cases c)
  from resource_loop_in [OF assms, of e lc ds lc h] show ?thesis
    by (auto simp: collect_resources_def Some c)
qed

text \<open>The nodes that become devices: both tokens are found in the hardware ID.\<close>

definition identified :: "devnode \<Rightarrow> bool" where
  "identified n \<longleftrightarrow>
     (case dn_hardware_id n of
        None \<Rightarrow> False
      | Some (b, len) \<Rightarrow>
          (case (extract_hex_token b (ascii ''VEN_'') 0, extract_hex_token b (ascii ''DEV_'') 0) of
             (Some v, Some d) \<Rightarrow> fst v \<and> fst d | _ \<Rightarrow> False))"

lemma device0_ok: "device_ok (pci_device0\<lparr>pd_vendor_id := v, pd_device_id := d\<rparr>)"
  "device_ok (pci_device0\<lparr>pd_vendor_id := v, pd_device_id := d, pd_revision := r\<rparr>)"
  by (simp_all add: device_ok_def pci_device0_def nul_terminated_def zeros_def)

lemma add_device_ok:
  assumes "node_ok node" and "length (pn_devices out) < PCI_MAX_DEVICES"
  shows "\<exists>out' log h'. add_device e node out h = Some (out', log, h') \<and> balanced h h' \<and>
    pn_truncated out' = pn_truncated out \<and>
    (if identified node then \<exists>d. pn_devices out' = pn_devices out @ [d] \<and> device_ok d
     else pn_devices out' = pn_devices out)"
proof (cases "dn_hardware_id node")
  case None
  then show ?thesis by (simp add: add_device_def identified_def)
next
  case (Some c)
  obtain b len where c: "c = (b, len)" by (cases c)
  have nt: "nul_terminated b" using assms(1) Some c by (simp add: node_ok_def)
  obtain v where v: "extract_hex_token b (ascii ''VEN_'') 0 = Some v" using hex_token_total [OF nt] by blast
  obtain d where d: "extract_hex_token b (ascii ''DEV_'') 0 = Some d" using hex_token_total [OF nt] by blast
  obtain r where r: "extract_hex_token b (ascii ''REV_'') 0 = Some r" using hex_token_total [OF nt] by blast
  show ?thesis
  proof (cases "fst v \<and> fst d")
    case False
    then show ?thesis by (auto simp: add_device_def identified_def Some c v d)
  next
    case True
    define dev where "dev = (if fst r then pci_device0\<lparr>pd_vendor_id := ucast (snd v), pd_device_id := ucast (snd d), pd_revision := ucast (snd r)\<rparr>
      else pci_device0\<lparr>pd_vendor_id := ucast (snd v), pd_device_id := ucast (snd d)\<rparr>)"
    have "device_ok dev" by (simp add: dev_def device0_ok)
    then obtain d1 where d1: "set_class node dev = Some d1" "device_ok d1" using set_class_ok assms(1) by blast
    obtain d2 where d2: "set_description node (set_address node d1) = Some d2" "device_ok d2"
      using set_description_ok assms(1) set_address_ok d1(2) by blast
    obtain d3 log h' where d3: "collect_resources e node d2 h = Some (d3, log, h')" "device_ok d3" "balanced h h'"
      using collect_resources_ok [OF d2(2)] by blast
    have "add_device e node out h = Some (out\<lparr>pn_devices := pn_devices out @ [d3]\<rparr>, log, h')"
      using True assms(2) d1(1) d2(1) d3(1)
      by (cases "fst r") (simp_all add: add_device_def Some c v d r dev_def Let_def)
    with True d3 show ?thesis by (simp add: identified_def Some c v d)
  qed
qed

lemma enum_loop_full:
  "length (pn_devices out) = PCI_MAX_DEVICES \<Longrightarrow>
     enum_loop e nodes out h = Some (out\<lparr>pn_truncated := pn_truncated out + of_nat (length nodes)\<rparr>, [], h)"
proof (induction nodes arbitrary: out)
  case (Cons n nodes)
  show ?case using Cons.prems Cons.IH [of "out\<lparr>pn_truncated := pn_truncated out + 1\<rparr>"] by (simp add: add.assoc)
qed simp

lemma enum_loop_ok:
  assumes "\<forall>n \<in> set nodes. node_ok n" and "enumeration_ok out"
  shows "\<exists>out' log h' i. enum_loop e nodes out h = Some (out', log, h') \<and> balanced h h' \<and> enumeration_ok out' \<and>
    i \<le> length nodes \<and> pn_truncated out' = pn_truncated out + of_nat (length nodes - i) \<and>
    (i < length nodes \<longrightarrow> length (pn_devices out') = PCI_MAX_DEVICES) \<and>
    length (pn_devices out') = length (pn_devices out) + length (filter identified (take i nodes))"
  using assms
proof (induction nodes arbitrary: out h)
  case Nil
  then show ?case by auto
next
  case (Cons n nodes)
  have ns: "\<forall>n \<in> set nodes. node_ok n" using Cons.prems by simp
  show ?case
  proof (cases "length (pn_devices out) < PCI_MAX_DEVICES")
    case False
    then have full: "length (pn_devices out) = PCI_MAX_DEVICES" using Cons.prems(2) by (simp add: enumeration_ok_def)
    show ?thesis
      using enum_loop_full [OF full, of e "n # nodes" h] full Cons.prems(2)
      by (intro exI [of _ 0] exI) (auto simp: enumeration_ok_def)
  next
    case True
    obtain out1 log1 h1 where a: "add_device e n out h = Some (out1, log1, h1)" "balanced h h1"
      "pn_truncated out1 = pn_truncated out"
      "if identified n then \<exists>d. pn_devices out1 = pn_devices out @ [d] \<and> device_ok d
       else pn_devices out1 = pn_devices out"
      using add_device_ok [OF _ True] Cons.prems(1) by (metis list.set_intros(1))
    have "enumeration_ok out1"
      using a(4) True Cons.prems(2) by (auto simp: enumeration_ok_def split: if_splits)
    from Cons.IH [OF ns this, of h1] obtain out' log h' i where
      "enum_loop e nodes out1 h1 = Some (out', log, h')" "balanced h1 h'" "enumeration_ok out'" "i \<le> length nodes"
      "pn_truncated out' = pn_truncated out1 + of_nat (length nodes - i)"
      "i < length nodes \<longrightarrow> length (pn_devices out') = PCI_MAX_DEVICES"
      "length (pn_devices out') = length (pn_devices out1) + length (filter identified (take i nodes))"
      by blast
    then show ?thesis
      using a True by (intro exI [of _ out'] exI [of _ "log1 @ log"] exI [of _ h'] exI [of _ "Suc i"])
        (auto intro: balanced_trans split: if_splits)
  qed
qed

lemma enumeration0_simps: "pn_truncated pci_enumeration0 + n = n" "length (pn_devices pci_enumeration0) + k = k"
  by (simp_all add: pci_enumeration0_def)

text \<open>
  C6. Enumerating the PCI bus is total and safe. When the registry terminates its strings, the
  enumeration always returns: at most 512 devices, each with at most 12 resources that do not
  run past 2^64, a NUL-terminated description and no base-address registers claimed; every
  buffer allocated is freed; and no function is silently lost: the devices are exactly as many
  as the identified nodes among those looked at, and a node is left unlooked at only when the
  table is full, each such node being counted in \<open>truncated\<close>.
\<close>

theorem pci_enumerate_safe:
  assumes "pnp_nodes e = Some nodes" and "\<forall>n \<in> set nodes. node_ok n"
  shows "\<exists>out log h' i. pci_enumerate e h = Some (True, out, log, h') \<and> balanced h h' \<and> enumeration_ok out \<and>
    i \<le> length nodes \<and> pn_truncated out = of_nat (length nodes - i) \<and>
    (i < length nodes \<longrightarrow> length (pn_devices out) = PCI_MAX_DEVICES) \<and>
    length (pn_devices out) = length (filter identified (take i nodes))"
proof -
  have "enumeration_ok pci_enumeration0" by (simp add: enumeration_ok_def pci_enumeration0_def)
  from enum_loop_ok [OF assms(2) this, of e h, unfolded enumeration0_simps] obtain out log h' i where
    "enum_loop e nodes pci_enumeration0 h = Some (out, log, h')" "balanced h h'" "enumeration_ok out"
    "i \<le> length nodes" "pn_truncated out = of_nat (length nodes - i)"
    "i < length nodes \<longrightarrow> length (pn_devices out) = PCI_MAX_DEVICES"
    "length (pn_devices out) = length (filter identified (take i nodes))"
    by blast
  with assms(1) show ?thesis by (auto simp: pci_enumerate_def)
qed

definition sample_node :: devnode where
  "sample_node = \<lparr>dn_hardware_id = Some (ascii ''PCI/VEN_10DE&DEV_2704&REV_A1'' @ [0], 29), dn_compatible_ids = None,
     dn_bus_number = Some 1, dn_address = Some 0, dn_description = None,
     dn_log_conf = Some (5, [\<lparr>rs_handle = 6, rs_type = ResType_IRQ, rs_size = None, rs_fetch = False, rs_flags = 0,
       rs_alloc_base = 0, rs_alloc_end = 0, rs_alloc_num = 0\<rparr>])\<rparr>"

definition sample_pnp :: "devnode list \<Rightarrow> pnp" where
  "sample_pnp nodes = \<lparr>pnp_nodes = Some nodes, sizeof_MEM_RESOURCE = 32, sizeof_IO_RESOURCE = 32,
     sizeof_IRQ_RESOURCE = 16, fMD_PrefetchAllowed = 4, pnp_alloc_ok = (\<lambda>_. True)\<rparr>"

theorem pci_enumerate_safe_witness:
  "\<exists>out log h' i. pci_enumerate (sample_pnp [sample_node]) \<lparr>hp_next = 0, hp_live = []\<rparr> = Some (True, out, log, h') \<and>
    balanced \<lparr>hp_next = 0, hp_live = []\<rparr> h' \<and> enumeration_ok out \<and>
    i \<le> length [sample_node] \<and> pn_truncated out = of_nat (length [sample_node] - i) \<and>
    (i < length [sample_node] \<longrightarrow> length (pn_devices out) = PCI_MAX_DEVICES) \<and>
    length (pn_devices out) = length (filter identified (take i [sample_node]))"
  by (rule pci_enumerate_safe)
    (simp_all add: sample_pnp_def sample_node_def node_ok_def nul_terminated_def)

theorem resource_handles_closed_witness:
  "\<exists>dev' log h' k. collect_resources (sample_pnp []) sample_node pci_device0 \<lparr>hp_next = 0, hp_live = []\<rparr> = Some (dev', log, h') \<and>
    log = [FreeResDes 6, FreeResDes 6, FreeLogConf 5]"
proof -
  have d: "device_ok pci_device0" by (simp add: device_ok_def pci_device0_def nul_terminated_def zeros_def)
  define r where "r = \<lparr>rs_handle = 6, rs_type = ResType_IRQ, rs_size = None, rs_fetch = False, rs_flags = 0,
       rs_alloc_base = 0, rs_alloc_end = 0, rs_alloc_num = 0\<rparr>"
  have c: "dn_log_conf sample_node = Some (5, [r])" by (simp add: sample_node_def r_def)
  have "distinct (map rs_handle [r])" "5 \<notin> rs_handle ` set [r]" by (simp_all add: r_def)
  from resource_handles_closed [OF c this d, of "sample_pnp []" "\<lparr>hp_next = 0, hp_live = []\<rparr>"] obtain dev' log h' k where
    l: "collect_resources (sample_pnp []) sample_node pci_device0 \<lparr>hp_next = 0, hp_live = []\<rparr> = Some (dev', log, h')"
    and k: "length (pd_resources dev') < PCI_MAX_RESOURCES \<longrightarrow> k = length [r]"
    and log: "log = map (FreeResDes \<circ> rs_handle) (take k [r]) @
      (if 0 < k \<and> length (pd_resources dev') < PCI_MAX_RESOURCES then [FreeResDes (rs_handle ([r] ! (k - 1)))] else []) @
      [FreeLogConf 5]" by blast
  have "pd_resources dev' = []"
    using l by (simp add: collect_resources_def c read_resource_def r_def pci_device0_def PCI_MAX_RESOURCES_def)
      (auto simp: pci_device0_def)
  then have "k = 1" "length (pd_resources dev') < PCI_MAX_RESOURCES" using k by (simp_all add: PCI_MAX_RESOURCES_def)
  with l log show ?thesis by (auto simp: r_def)
qed

section \<open>Hardware IDs\<close>

definition hex_char :: "nat \<Rightarrow> u8" where
  "hex_char n = (if n < 10 then of_nat (48 + n) else of_nat (55 + n))"

primrec hex_digits :: "nat \<Rightarrow> nat \<Rightarrow> bytes" where
  "hex_digits 0 v = []"
| "hex_digits (Suc n) v = hex_char (v div 16 ^ n mod 16) # hex_digits n v"

lemma hex_char_cases: "hex_char (n mod 16) \<in> hex_char ` {..<16}"
  by auto

lemma hex_chars: "hex_char ` {..<16} = set (ascii ''0123456789ABCDEF'')"
  by (simp add: hex_char_def ascii_def lessThan_nat_numeral lessThan_Suc) auto

lemma hex_value_char: "hex_value (hex_char (n mod 16)) = Some (n mod 16)"
proof -
  have "\<forall>k \<in> {..<16}. hex_value (hex_char k) = Some k"
    by (simp add: hex_char_def hex_value_def lessThan_nat_numeral lessThan_Suc)
  then show ?thesis by simp
qed

lemma hex_char_not [simp]: "hex_char (n mod 16) \<noteq> 86" "hex_char (n mod 16) \<noteq> 82"
    "hex_char (n mod 16) \<noteq> 95" "hex_char (n mod 16) \<noteq> 0"
  using hex_char_cases [of n] unfolding hex_chars by (auto simp: ascii_def)

lemma length_hex_digits [simp]: "length (hex_digits n v) = n"
  by (induction n) auto

lemma hex_digits_xdigit: "\<forall>c \<in> set (hex_digits n v). isxdigit c"
  by (induction n) (auto simp: isxdigit_def hex_value_char)

lemma hex_digits_not: "x \<in> set (hex_digits n v) \<Longrightarrow> x \<noteq> 86 \<and> x \<noteq> 82 \<and> x \<noteq> 95 \<and> x \<noteq> 0"
  by (induction n) auto

lemma hex_digits4:
  obtains a b c d where "hex_digits 4 v = [a, b, c, d]" "a \<noteq> 86" "b \<noteq> 86" "c \<noteq> 86" "d \<noteq> 86"
    "a \<noteq> 82" "b \<noteq> 82" "c \<noteq> 82" "d \<noteq> 82"
proof -
  let ?h = "\<lambda>k. hex_char (v div 16 ^ k mod 16)"
  have four: "(4 :: nat) = Suc (Suc (Suc (Suc 0)))" by simp
  have "hex_digits 4 v = [?h (Suc (Suc (Suc 0))), ?h (Suc (Suc 0)), ?h (Suc 0), ?h 0]"
    by (simp only: four hex_digits.simps)
  then show thesis by (rule that) (rule hex_char_not)+
qed

lemma hex_digits_add: "hex_digits (m + n) v = hex_digits m (v div 16 ^ n) @ hex_digits n v"
  by (induction m) (simp_all add: power_add div_mult2_eq [symmetric] mult.commute)

lemma hex_digits_half: "hex_digits 8 v = hex_digits 4 (v div 16 ^ 4) @ hex_digits 4 v"
  using hex_digits_add [of 4 4 v] by simp

lemma hex_number_digits: "hex_number (hex_digits n v) = v mod 16 ^ n"
proof (induction n)
  case (Suc n)
  have "hex_number (hex_digits (Suc n) v) = (v div 16 ^ n mod 16) * 16 ^ n + hex_number (hex_digits n v)"
    using hex_number_append [of "[hex_char (v div 16 ^ n mod 16)]" "hex_digits n v"]
    by (simp add: hex_number_def hex_value_char)
  also have "\<dots> = v mod 16 ^ Suc n"
    using Suc mod_mult2_eq [of v "16 ^ n" 16] by (simp add: mult.commute)
  finally show ?case .
qed (simp add: hex_number_def)

lemma hex_token_found:
  assumes "c_string hwid 0 = Some s" and "s = pre @ key @ ds @ tail" and "strstr s key = Some (length pre)"
    and "\<forall>c \<in> set ds. isxdigit c" and "2 \<le> length ds" and "length ds \<le> 7" and "tail = [] \<or> \<not> isxdigit (hd tail)"
  shows "extract_hex_token hwid key out = Some (True, of_nat (hex_number ds))"
  using assms strtoul16_digits [of ds tail] by (auto simp: extract_hex_token_def)

text \<open>The hardware ID of a PCI function, as the bus driver writes it.\<close>

definition hardware_id :: "u16 \<Rightarrow> u16 \<Rightarrow> u32 \<Rightarrow> u8 \<Rightarrow> bytes" where
  "hardware_id v d s r = ascii ''PCI'' @ [92] @ ascii ''VEN_'' @ hex_digits 4 (unat v) @ ascii ''&DEV_'' @ hex_digits 4 (unat d) @
     ascii ''&SUBSYS_'' @ hex_digits 8 (unat s) @ ascii ''&REV_'' @ hex_digits 2 (unat r)"

lemma strstr_Cons:
  "strstr (c # cs) key = (if take (length key) (c # cs) = key then Some 0 else map_option Suc (strstr cs key))"
  by (subst strstr.simps) simp

lemma hardware_id_tokens:
  assumes "hwid = hardware_id v d s r @ 0 # rest"
  shows "extract_hex_token hwid (ascii ''VEN_'') 0 = Some (True, ucast v)"
    "extract_hex_token hwid (ascii ''DEV_'') 0 = Some (True, ucast d)"
    "extract_hex_token hwid (ascii ''REV_'') 0 = Some (True, ucast r)"
proof -
  let ?s = "hardware_id v d s r"
  have "0 \<notin> set ?s"
    using hex_digits_not [of 0] by (auto simp: hardware_id_def ascii_def)
  then have c: "c_string hwid 0 = Some ?s"
    using c_string_mid [of ?s "[]" rest] assms by simp
  obtain v1 v2 v3 v4 where v: "hex_digits 4 (unat v) = [v1, v2, v3, v4]"
    and v': "v1 \<noteq> 86" "v2 \<noteq> 86" "v3 \<noteq> 86" "v4 \<noteq> 86" "v1 \<noteq> 82" "v2 \<noteq> 82" "v3 \<noteq> 82" "v4 \<noteq> 82"
    by (rule hex_digits4)
  obtain d1 d2 d3 d4 where d: "hex_digits 4 (unat d) = [d1, d2, d3, d4]"
    and d': "d1 \<noteq> 86" "d2 \<noteq> 86" "d3 \<noteq> 86" "d4 \<noteq> 86" "d1 \<noteq> 82" "d2 \<noteq> 82" "d3 \<noteq> 82" "d4 \<noteq> 82"
    by (rule hex_digits4)
  obtain s1 s2 s3 s4 where s: "hex_digits 4 (unat s) = [s1, s2, s3, s4]"
    and s': "s1 \<noteq> 86" "s2 \<noteq> 86" "s3 \<noteq> 86" "s4 \<noteq> 86" "s1 \<noteq> 82" "s2 \<noteq> 82" "s3 \<noteq> 82" "s4 \<noteq> 82"
    by (rule hex_digits4)
  obtain t1 t2 t3 t4 where t: "hex_digits 4 (unat s div 16 ^ 4) = [t1, t2, t3, t4]"
    and t': "t1 \<noteq> 86" "t2 \<noteq> 86" "t3 \<noteq> 86" "t4 \<noteq> 86" "t1 \<noteq> 82" "t2 \<noteq> 82" "t3 \<noteq> 82" "t4 \<noteq> 82"
    by (rule hex_digits4)
  define r' where "r' = hex_digits 2 (unat r)"
  have e: "?s = [80, 67, 73, 92, 86, 69, 78, 95, v1, v2, v3, v4, 38, 68, 69, 86, 95, d1, d2, d3, d4, 38,
      83, 85, 66, 83, 89, 83, 95, t1, t2, t3, t4, s1, s2, s3, s4, 38, 82, 69, 86, 95] @ r'"
    by (simp only: hardware_id_def hex_digits_half v d s t r'_def [symmetric]) (simp add: ascii_def)
  have ven: "strstr ?s (ascii ''VEN_'') = Some 4"
    by (simp add: e ascii_def strstr_Cons)
  have dev: "strstr ?s (ascii ''DEV_'') = Some 13"
    by (simp add: e ascii_def strstr_Cons v')
  have rev: "strstr ?s (ascii ''REV_'') = Some 38"
    by (simp add: e ascii_def strstr_Cons v' d' s' t')
  have nv: "of_nat (hex_number (hex_digits 4 (unat w))) = (ucast w :: u32)" for w :: u16
    using unsigned_less [where 'a = nat, of w] by (simp add: hex_number_digits)
  have nr: "of_nat (hex_number (hex_digits 2 (unat r))) = (ucast r :: u32)"
    using unsigned_less [where 'a = nat, of r] by (simp add: hex_number_digits)
  show "extract_hex_token hwid (ascii ''VEN_'') 0 = Some (True, ucast v)"
    unfolding nv [symmetric]
    by (rule hex_token_found [OF c _ _ hex_digits_xdigit, of "ascii ''PCI'' @ [92]" "ascii ''VEN_''" _ _
        "ascii ''&DEV_'' @ hex_digits 4 (unat d) @ ascii ''&SUBSYS_'' @ hex_digits 8 (unat s) @ ascii ''&REV_'' @ hex_digits 2 (unat r)"])
      (simp_all add: ven, simp_all add: hardware_id_def ascii_def isxdigit_def hex_value_def)
  show "extract_hex_token hwid (ascii ''DEV_'') 0 = Some (True, ucast d)"
    unfolding nv [symmetric]
    by (rule hex_token_found [OF c _ _ hex_digits_xdigit, of "ascii ''PCI'' @ [92] @ ascii ''VEN_'' @ hex_digits 4 (unat v) @ ascii ''&''"
        "ascii ''DEV_''" _ _ "ascii ''&SUBSYS_'' @ hex_digits 8 (unat s) @ ascii ''&REV_'' @ hex_digits 2 (unat r)"])
      (simp_all add: dev, simp_all add: hardware_id_def ascii_def isxdigit_def hex_value_def)
  show "extract_hex_token hwid (ascii ''REV_'') 0 = Some (True, ucast r)"
    unfolding nr [symmetric]
    by (rule hex_token_found [OF c _ _ hex_digits_xdigit, of "ascii ''PCI'' @ [92] @ ascii ''VEN_'' @ hex_digits 4 (unat v) @ ascii ''&DEV_'' @
        hex_digits 4 (unat d) @ ascii ''&SUBSYS_'' @ hex_digits 8 (unat s) @ ascii ''&''" "ascii ''REV_''" _ _ "[]"])
      (simp_all add: rev, simp_all add: hardware_id_def ascii_def isxdigit_def hex_value_def)
qed

text \<open>The identity of a device, which later steps leave alone.\<close>

definition identity :: "PciDevice \<Rightarrow> u16 \<times> u16 \<times> u8 \<times> u8 \<times> u8 \<times> u8" where
  "identity d = (pd_vendor_id d, pd_device_id d, pd_revision d, pd_bus d, pd_device d, pd_function d)"

lemma identity_fields [simp]:
  "identity (d\<lparr>pd_class_code := c\<rparr>) = identity d" "identity (d\<lparr>pd_subclass := c\<rparr>) = identity d"
  "identity (d\<lparr>pd_prog_if := c\<rparr>) = identity d" "identity (d\<lparr>pd_class_info_available := b\<rparr>) = identity d"
  "identity (d\<lparr>pd_description := t\<rparr>) = identity d" "identity (d\<lparr>pd_resources := rs\<rparr>) = identity d"
  "identity (d\<lparr>pd_interrupt_available := b, pd_interrupt_line := l\<rparr>) = identity d"
  by (simp_all add: identity_def)

lemma set_class_identity: "set_class node dev = Some dev' \<Longrightarrow> identity dev' = identity dev"
proof -
  have "identity (snd (class_fields best dev)) = identity dev" for best
    by (cases best; cases "2 \<le> fst best"; cases "4 \<le> fst best"; cases "6 \<le> fst best")
      (simp_all only: class_fields_def Let_def prod.case fst_conv snd_conv if_True if_False identity_fields)
  then have "class_fields best dev = (b, dev') \<Longrightarrow> identity dev' = identity dev" for best b by (metis snd_conv)
  then show "set_class node dev = Some dev' \<Longrightarrow> identity dev' = identity dev"
    by (auto simp: set_class_def extract_class_code_def split: option.splits)
qed

lemma set_description_identity: "set_description node dev = Some dev' \<Longrightarrow> identity dev' = identity dev"
  by (auto simp: set_description_def split: option.splits if_splits)

lemma read_resource_identity:
  "read_resource e d dev h = Some (dev', h') \<Longrightarrow> identity dev' = identity dev"
  by (auto simp: read_resource_def decode_resource_def bind_eq_Some_conv split: option.splits if_splits prod.splits)

lemma resource_loop_identity:
  "resource_loop e lc ds prev dev h = Some (dev', p, log, h') \<Longrightarrow> identity dev' = identity dev"
proof (induction ds arbitrary: prev dev h p log h')
  case Nil
  then show ?case by (auto split: if_splits)
next
  case (Cons d ds)
  show ?case
  proof (cases "length (pd_resources dev) < PCI_MAX_RESOURCES")
    case False
    with Cons.prems show ?thesis by simp
  next
    case True
    with Cons.prems obtain dev1 h1 log1 where "read_resource e d dev h = Some (dev1, h1)"
      "resource_loop e lc ds (rs_handle d) dev1 h1 = Some (dev', p, log1, h')"
      by (auto simp: bind_eq_Some_conv)
    with Cons.IH read_resource_identity show ?thesis by metis
  qed
qed

lemma collect_resources_identity:
  "collect_resources e node dev h = Some (dev', log, h') \<Longrightarrow> identity dev' = identity dev"
  by (auto simp: collect_resources_def bind_eq_Some_conv split: option.splits dest: resource_loop_identity)

text \<open>
  C26. The identity of a device is read back exactly. For every vendor, device, subsystem and
  revision number, a node whose hardware ID spells them the way the bus driver does is added
  with exactly these numbers, and with the bus number and the device and function halves of the
  address the node reports.
\<close>

theorem device_identity_roundtrip:
  assumes "node_ok node" and "length (pn_devices out) < PCI_MAX_DEVICES"
    and "dn_hardware_id node = Some (hardware_id v d s r @ 0 # rest, len)"
    and "dn_bus_number node = Some b" and "dn_address node = Some a"
  shows "\<exists>out' log h' dev. add_device e node out h = Some (out', log, h') \<and> pn_devices out' = pn_devices out @ [dev] \<and>
    pd_vendor_id dev = v \<and> pd_device_id dev = d \<and> pd_revision dev = r \<and>
    pd_bus dev = ucast b \<and> pd_device dev = ucast (drop_bit 16 a) \<and> pd_function dev = ucast a"
proof -
  define d0 where "d0 = pci_device0\<lparr>pd_vendor_id := v, pd_device_id := d, pd_revision := r\<rparr>"
  have "device_ok d0" unfolding d0_def by (rule device0_ok)
  then obtain d1 where d1: "set_class node d0 = Some d1" "device_ok d1"
    using set_class_ok [OF assms(1)] by blast
  obtain d2 where d2: "set_description node (set_address node d1) = Some d2" "device_ok d2"
    using set_description_ok [OF assms(1) set_address_ok [OF d1(2)]] by blast
  obtain d3 log h' where d3: "collect_resources e node d2 h = Some (d3, log, h')"
    using collect_resources_ok [OF d2(2)] by blast
  have "ucast (ucast w :: u32) = w" for w :: u16 by (rule bit_word_eqI) (simp add: bit_simps)
  moreover have "ucast (ucast r :: u32) = r" by (rule bit_word_eqI) (simp add: bit_simps)
  ultimately have add: "add_device e node out h = Some (out\<lparr>pn_devices := pn_devices out @ [d3]\<rparr>, log, h')"
    using assms(2) d1(1) d2(1) d3 hardware_id_tokens [of _ v d s r rest, OF refl]
    by (simp add: add_device_def assms(3) Let_def d0_def)
  have "identity d3 = identity (set_address node d1)"
    using collect_resources_identity [OF d3] set_description_identity [OF d2(1)] by simp
  moreover have "identity d1 = identity d0" by (rule set_class_identity [OF d1(1)])
  moreover have "(ucast (x AND 0xFF) :: u8) = ucast x" for x :: u32
  proof -
    have "x AND 0xFF = take_bit 8 x" by (simp add: take_bit_eq_mask mask_eq_exp_minus_1)
    then show ?thesis by (intro bit_word_eqI) (simp add: bit_simps)
  qed
  ultimately have "pd_vendor_id d3 = v \<and> pd_device_id d3 = d \<and> pd_revision d3 = r \<and>
      pd_bus d3 = ucast b \<and> pd_device d3 = ucast (drop_bit 16 a) \<and> pd_function d3 = ucast a"
    by (simp add: identity_def set_address_def assms(4,5) d0_def Let_def)
  with add show ?thesis by simp
qed

theorem device_identity_roundtrip_witness:
  "\<exists>out' log h' dev. add_device (sample_pnp []) (sample_node\<lparr>dn_hardware_id := Some (hardware_id 0x10DE 0x2704 0 0xA1 @ [0], 38)\<rparr>)
     pci_enumeration0 \<lparr>hp_next = 0, hp_live = []\<rparr> = Some (out', log, h') \<and> pn_devices out' = pn_devices pci_enumeration0 @ [dev] \<and>
    pd_vendor_id dev = 0x10DE \<and> pd_device_id dev = 0x2704 \<and> pd_revision dev = 0xA1 \<and>
    pd_bus dev = ucast (1 :: u32) \<and> pd_device dev = ucast (drop_bit 16 (0 :: u32)) \<and> pd_function dev = ucast (0 :: u32)"
  by (rule device_identity_roundtrip)
    (simp_all add: sample_node_def node_ok_def nul_terminated_def pci_enumeration0_def PCI_MAX_DEVICES_def)

text \<open>
  A token that is not four hexadecimal digits is not refused. The parser accepts whatever
  \<open>strtoul\<close> accepts after the key: white space, a sign and a 0x prefix. From a minus sign and a
  one it makes the vendor 0xFFFFFFFF, although a token that is not valid is to be rejected.
\<close>

theorem hex_token_accepts_sign:
  "extract_hex_token (ascii ''VEN_-1&DEV_ 0x2'' @ [0]) (ascii ''VEN_'') 0 = Some (True, 0xFFFFFFFF) \<and>
   extract_hex_token (ascii ''VEN_-1&DEV_ 0x2'' @ [0]) (ascii ''DEV_'') 0 = Some (True, 2)"
proof -
  let ?s = "ascii ''VEN_-1&DEV_ 0x2''"
  have c: "c_string (?s @ [0]) 0 = Some ?s" by (simp add: c_string_def cstr_def ascii_def)
  have i: "strstr ?s (ascii ''VEN_'') = Some 0" "strstr ?s (ascii ''DEV_'') = Some 7"
    by (simp_all add: strstr_Cons ascii_def)
  have v: "strtoul16 (drop (0 + length (ascii ''VEN_'')) ?s) = (0xFFFFFFFF, 2)"
    by (subst strtoul16_eval [OF refl refl refl refl refl refl refl])
      (simp_all add: ascii_def isspace_def isxdigit_def hex_value_def hex_number_def)
  have d: "strtoul16 (drop (7 + length (ascii ''DEV_'')) ?s) = (2, 4)"
    by (subst strtoul16_eval [OF refl refl refl refl refl refl refl])
      (simp_all add: ascii_def isspace_def isxdigit_def hex_value_def hex_number_def)
  show ?thesis unfolding extract_hex_token_def c by (simp only: bind.bind_lunit i option.case v d) simp
qed

end
