(* ===== verification/Storage.thy ===== *)
theory Storage
  imports HW_Prelude
begin

text \<open>
  \<open>src/platform/windows/storage_enum_windows.c\<close>: trimming of identify strings, the device query
  and the enumeration of the physical drives. Properties are in \<open>Storage_Correct\<close>.

  What the operating system answers for a drive is a parameter (\<open>drive\<close>): whether it can be
  opened, the buffer the property query fills and the number of bytes it reports, the NVMe
  identify data, and the capacity as seen through either handle. The model logs every handle
  opened or closed, with the access mask and disposition passed, and every request sent through
  it, by the number of its control code.
\<close>

section \<open>Data\<close>

datatype StorageBusType =
  STORAGE_BUS_UNKNOWN | STORAGE_BUS_ATA | STORAGE_BUS_SATA | STORAGE_BUS_NVME | STORAGE_BUS_SCSI
| STORAGE_BUS_USB | STORAGE_BUS_OTHER

record StorageDevice =
  sd_index :: nat
  sd_bus_type :: StorageBusType
  sd_model :: bytes
  sd_firmware_revision :: bytes
  sd_serial :: bytes
  sd_capacity_available :: bool
  sd_capacity_bytes :: u64
  sd_nvme_identify_used :: bool

definition STORAGE_MAX_DEVICES :: nat where "STORAGE_MAX_DEVICES = 32"

text \<open>\<open>memset(dev, 0, sizeof(*dev)); dev->index = index\<close>.\<close>

definition storage_device0 :: "nat \<Rightarrow> StorageDevice" where
  "storage_device0 index = \<lparr>sd_index = index, sd_bus_type = STORAGE_BUS_UNKNOWN, sd_model = zeros 80,
     sd_firmware_revision = zeros 32, sd_serial = zeros 80, sd_capacity_available = False,
     sd_capacity_bytes = 0, sd_nvme_identify_used = False\<rparr>"

section \<open>The operating system\<close>

text \<open>The values the SDK headers give the constants the calls pass.\<close>

definition GENERIC_READ :: u32 where "GENERIC_READ = 0x80000000"
definition OPEN_EXISTING :: u32 where "OPEN_EXISTING = 3"
definition IOCTL_STORAGE_QUERY_PROPERTY :: u32 where "IOCTL_STORAGE_QUERY_PROPERTY = 0x2D1400"
definition IOCTL_DISK_GET_LENGTH_INFO :: u32 where "IOCTL_DISK_GET_LENGTH_INFO = 0x7405C"

lemmas storage_constants = GENERIC_READ_def OPEN_EXISTING_def IOCTL_STORAGE_QUERY_PROPERTY_def IOCTL_DISK_GET_LENGTH_INFO_def

text \<open>
  A call of \<open>CreateFileW\<close> that gave a handle, with its access mask and disposition; a call of
  \<open>DeviceIoControl\<close>, with the access mask of its handle and the control code; a call of
  \<open>CloseHandle\<close>, with the access mask of its handle.
\<close>

datatype storage_event =
  Opened u32 u32
| Sent u32 u32
| Closed u32

record drive =
  dv_opens :: bool
  dv_descriptor :: "(bytes \<times> u32) option"
  dv_identify :: "bytes option"
  dv_length :: "u64 option"
  dv_read_handle :: "u64 option option"

text \<open>
  Fields of \<open>STORAGE_DEVICE_DESCRIPTOR\<close>, at the offsets \<open>winioctl.h\<close> documents. Whether the name
  \<open>STORAGE_PROTOCOL_SPECIFIC_DATA\<close> is a preprocessor macro is a fact of that header too
  (\<open>protocol_macro\<close>).
\<close>

definition VendorIdOffset :: nat where "VendorIdOffset = 12"
definition ProductIdOffset :: nat where "ProductIdOffset = 16"
definition ProductRevisionOffset :: nat where "ProductRevisionOffset = 20"
definition SerialNumberOffset :: nat where "SerialNumberOffset = 24"
definition BusTypeOffset :: nat where "BusTypeOffset = 28"

section \<open>Strings\<close>

text \<open>The two trimming loops: the length after the first, the start after the second.\<close>

fun trim_end :: "bytes \<Rightarrow> nat \<Rightarrow> nat \<Rightarrow> nat option" where
  "trim_end buf src 0 = Some 0"
| "trim_end buf src (Suc n) =
     do { c \<leftarrow> rd8 buf (src + n);
          if c = 32 \<or> c = 0 then trim_end buf src n else Some (Suc n) }"

function trim_start :: "bytes \<Rightarrow> nat \<Rightarrow> nat \<Rightarrow> nat \<Rightarrow> nat option" where
  "trim_start buf src src_len start =
     (if start < src_len then
        do { c \<leftarrow> rd8 buf (src + start);
             if c = 32 then trim_start buf src src_len (start + 1) else Some start }
      else Some start)"
  by pat_completeness auto
termination
  by (relation "measure (\<lambda>(buf, src, src_len, start). src_len - start)") auto

declare trim_start.simps [simp del]

definition trim_copy :: "bytes \<Rightarrow> nat \<Rightarrow> bytes \<Rightarrow> nat \<Rightarrow> nat \<Rightarrow> bytes option" where
  "trim_copy dst dst_size buf src src_len =
     do { src_len \<leftarrow> trim_end buf src src_len;
          start \<leftarrow> trim_start buf src src_len 0;
          let n = src_len - start;
          let n = (if dst_size \<le> n then dst_size - 1 else n);
          bs \<leftarrow> rd_bytes buf (src + start) n;
          dst \<leftarrow> wr_bytes dst 0 bs;
          wr8 dst n 0 }"

section \<open>Devices\<close>

definition map_bus_type :: "u32 \<Rightarrow> StorageBusType" where
  "map_bus_type wbt =
     (if wbt = 0x03 then STORAGE_BUS_ATA
      else if wbt = 0x0B then STORAGE_BUS_SATA
      else if wbt = 0x11 then STORAGE_BUS_NVME
      else if wbt = 0x01 then STORAGE_BUS_SCSI
      else if wbt = 0x07 then STORAGE_BUS_USB
      else STORAGE_BUS_OTHER)"

text \<open>The string a descriptor's offset field names, when it lies inside the returned bytes.\<close>

definition copy_descriptor_string :: "bytes \<Rightarrow> u32 \<Rightarrow> nat \<Rightarrow> nat \<Rightarrow> bytes \<Rightarrow> (bool \<times> bytes) option" where
  "copy_descriptor_string buf returned field dst_size dst =
     do { off \<leftarrow> rd32 buf field;
          if off \<noteq> 0 \<and> off < returned then
            do { n \<leftarrow> strnlen buf (unat off) (unat (returned - off));
                 dst \<leftarrow> trim_copy dst dst_size buf (unat off) n;
                 Some (True, dst) }
          else Some (False, dst) }"

definition read_descriptor :: "bytes \<Rightarrow> u32 \<Rightarrow> StorageDevice \<Rightarrow> StorageDevice option" where
  "read_descriptor buf returned dev =
     do { wbt \<leftarrow> rd32 buf BusTypeOffset;
          let dev = dev\<lparr>sd_bus_type := map_bus_type wbt\<rparr>;
          (found, s) \<leftarrow> copy_descriptor_string buf returned ProductIdOffset 80 (sd_model dev);
          (_, s) \<leftarrow> (if found then Some (True, s)
             else copy_descriptor_string buf returned VendorIdOffset 80 (sd_model dev));
          let dev = dev\<lparr>sd_model := s\<rparr>;
          (_, s) \<leftarrow> copy_descriptor_string buf returned ProductRevisionOffset 32 (sd_firmware_revision dev);
          let dev = dev\<lparr>sd_firmware_revision := s\<rparr>;
          (_, s) \<leftarrow> copy_descriptor_string buf returned SerialNumberOffset 80 (sd_serial dev);
          Some (dev\<lparr>sd_serial := s\<rparr>) }"

definition try_nvme_identify :: "bool \<Rightarrow> drive \<Rightarrow> StorageDevice \<Rightarrow> (StorageDevice \<times> storage_event list) option" where
  "try_nvme_identify protocol_macro dv dev =
     (if protocol_macro then
        case dv_identify dv of
          None \<Rightarrow> Some (dev, [Sent 0 IOCTL_STORAGE_QUERY_PROPERTY])
        | Some identify \<Rightarrow>
            do { serial \<leftarrow> trim_copy (sd_serial dev) 80 identify 4 20;
                 model \<leftarrow> trim_copy (sd_model dev) 80 identify 24 40;
                 fw \<leftarrow> trim_copy (sd_firmware_revision dev) 32 identify 64 8;
                 Some (dev\<lparr>sd_serial := serial, sd_model := model, sd_firmware_revision := fw,
                   sd_nvme_identify_used := True\<rparr>, [Sent 0 IOCTL_STORAGE_QUERY_PROPERTY]) }
      else Some (dev, []))"

text \<open>The capacity, through the query handle or a second one opened for reading.\<close>

definition query_capacity :: "drive \<Rightarrow> StorageDevice \<Rightarrow> StorageDevice \<times> storage_event list" where
  "query_capacity dv dev =
     (case dv_length dv of
        Some n \<Rightarrow> (dev\<lparr>sd_capacity_available := True, sd_capacity_bytes := n\<rparr>, [Sent 0 IOCTL_DISK_GET_LENGTH_INFO])
      | None \<Rightarrow>
          (case dv_read_handle dv of
             None \<Rightarrow> (dev, [Sent 0 IOCTL_DISK_GET_LENGTH_INFO])
           | Some r \<Rightarrow>
               ((case r of None \<Rightarrow> dev | Some n \<Rightarrow> dev\<lparr>sd_capacity_available := True, sd_capacity_bytes := n\<rparr>),
                [Sent 0 IOCTL_DISK_GET_LENGTH_INFO, Opened GENERIC_READ OPEN_EXISTING,
                 Sent GENERIC_READ IOCTL_DISK_GET_LENGTH_INFO, Closed GENERIC_READ])))"

text \<open>\<open>None\<close> in the result: the drive does not exist.\<close>

definition query_device :: "bool \<Rightarrow> nat \<Rightarrow> drive \<Rightarrow> (StorageDevice option \<times> storage_event list) option" where
  "query_device protocol_macro index dv =
     (if \<not> dv_opens dv then Some (None, [])
      else
        do { let dev = storage_device0 index;
             dev \<leftarrow> (case dv_descriptor dv of None \<Rightarrow> Some dev | Some (buf, returned) \<Rightarrow> read_descriptor buf returned dev);
             (dev, ev) \<leftarrow> (if sd_bus_type dev = STORAGE_BUS_NVME then try_nvme_identify protocol_macro dv dev else Some (dev, []));
             let (dev, ev') = query_capacity dv dev;
             Some (Some dev, [Opened 0 OPEN_EXISTING, Sent 0 IOCTL_STORAGE_QUERY_PROPERTY] @ ev @ ev' @ [Closed 0]) })"

function storage_loop :: "bool \<Rightarrow> (nat \<Rightarrow> drive) \<Rightarrow> nat \<Rightarrow> StorageDevice list \<Rightarrow> (StorageDevice list \<times> storage_event list) option" where
  "storage_loop protocol_macro drives i out =
     (if i < STORAGE_MAX_DEVICES then
        do { (r, ev) \<leftarrow> query_device protocol_macro i (drives i);
             case r of
               None \<Rightarrow> Some (out, ev)
             | Some dev \<Rightarrow>
                 do { out \<leftarrow> tbl_store STORAGE_MAX_DEVICES out dev;
                      (out, ev') \<leftarrow> storage_loop protocol_macro drives (i + 1) out;
                      Some (out, ev @ ev') } }
      else Some (out, []))"
  by pat_completeness auto
termination
  by (relation "measure (\<lambda>(m, drives, i, out). STORAGE_MAX_DEVICES - i)") auto

declare storage_loop.simps [simp del]

definition storage_enumerate :: "bool \<Rightarrow> (nat \<Rightarrow> drive) \<Rightarrow> (StorageDevice list \<times> storage_event list) option" where
  "storage_enumerate protocol_macro drives = storage_loop protocol_macro drives 0 []"

end
