(* ===== verification/Storage_Correct.thy ===== *)
theory Storage_Correct
  imports Storage
begin

text \<open>
  Correctness of the storage enumeration: what trimming does, what each field of a device is,
  which drives are listed, and that only read-only requests are made on handles that are closed.
\<close>

section \<open>Trimming\<close>

definition is_pad :: "u8 \<Rightarrow> bool" where
  "is_pad b \<longleftrightarrow> b = 32 \<or> b = 0"

definition trimmed :: "bytes \<Rightarrow> bytes" where
  "trimmed s = dropWhile (\<lambda>b. b = 32) (rev (dropWhile is_pad (rev s)))"

lemma trim_end_in:
  "src + n \<le> length buf \<Longrightarrow>
     trim_end buf src n = Some (length (dropWhile is_pad (rev (take n (drop src buf)))))"
proof (induction n)
  case (Suc n)
  then have "take (Suc n) (drop src buf) = take n (drop src buf) @ [buf ! (src + n)]"
    by (simp add: take_Suc_conv_app_nth)
  with Suc show ?case by (auto simp: is_pad_def)
qed simp

lemma trim_start_in:
  "src + n \<le> length buf \<Longrightarrow> start \<le> n \<Longrightarrow>
     trim_start buf src n start =
       Some (n - length (dropWhile (\<lambda>b. b = 32) (drop start (take n (drop src buf)))))"
proof (induction "n - start" arbitrary: start)
  case 0
  then show ?case by (subst trim_start.simps) simp
next
  case (Suc k)
  then have lt: "start < n" by simp
  have d: "drop start (take n (drop src buf)) = buf ! (src + start) # drop (Suc start) (take n (drop src buf))"
    using lt Suc.prems Cons_nth_drop_Suc [of start "take n (drop src buf)"] by simp
  have "trim_start buf src n (Suc start) =
      Some (n - length (dropWhile (\<lambda>b. b = 32) (drop (Suc start) (take n (drop src buf)))))"
    using Suc lt by simp
  with lt Suc.prems d show ?case by (subst trim_start.simps) simp
qed

lemma rev_dropWhile_prefix: "rev (dropWhile P (rev s)) = take (length (dropWhile P (rev s))) s"
proof -
  have "s = rev (dropWhile P (rev s)) @ rev (takeWhile P (rev s))"
    by (metis rev_append rev_rev_ident takeWhile_dropWhile_id)
  then show ?thesis by (metis append_eq_conv_conj length_rev)
qed

lemma dropWhile_suffix: "drop (length s - length (dropWhile P s)) s = dropWhile P s"
proof -
  have "s = takeWhile P s @ dropWhile P s" by simp
  then have "length (takeWhile P s) = length s - length (dropWhile P s)"
    by (metis add_diff_cancel_right' length_append)
  then show ?thesis by (metis append_eq_conv_conj takeWhile_dropWhile_id)
qed

text \<open>The new contents of a fixed-size array whose first bytes are overwritten by a string.\<close>

definition stored :: "nat \<Rightarrow> bytes \<Rightarrow> bytes \<Rightarrow> bytes" where
  "stored n s dst = (let t = take (n - 1) s in t @ 0 # drop (length t + 1) dst)"

lemma trim_copy_in:
  assumes "src + n \<le> length buf" and "length dst = sz" and "0 < sz"
  shows "trim_copy dst sz buf src n = Some (stored sz (trimmed (take n (drop src buf))) dst)"
proof -
  let ?s = "take n (drop src buf)"
  define m where "m = length (dropWhile is_pad (rev ?s))"
  define u where "u = take m ?s"
  define st where "st = m - length (dropWhile (\<lambda>b. b = 32) u)"
  have m: "m \<le> n" "m \<le> length ?s"
    using length_dropWhile_le [of is_pad "rev ?s"] by (simp_all add: m_def)
  have lu: "length u = m" using m by (simp add: u_def)
  have tu: "take m (drop src buf) = u" using m by (simp add: u_def min_def)
  have tr: "trimmed ?s = drop st u"
    using dropWhile_suffix [of u "\<lambda>b. b = 32"] lu
    by (simp only: trimmed_def rev_dropWhile_prefix m_def [symmetric] u_def [symmetric] st_def)
  have e: "trim_end buf src n = Some m" using trim_end_in [OF assms(1)] by (simp add: m_def)
  have b: "trim_start buf src m 0 = Some st"
    using trim_start_in [of src m buf 0] assms(1) m tu by (simp add: st_def)
  define k where "k = (if sz \<le> m - st then sz - 1 else m - st)"
  have st: "st \<le> m" by (simp add: st_def)
  have k: "k \<le> m - st" "k < sz" using assms(3) by (auto simp: k_def)
  have bs: "take k (drop (src + st) buf) = take (sz - 1) (drop st u)"
  proof -
    have "take (sz - 1) (drop st u) = take k (drop st u)"
      using lu assms(3) by (cases "sz \<le> m - st") (auto simp: k_def)
    also have "\<dots> = take k (drop st (take m (drop src buf)))" by (simp add: tu)
    also have "\<dots> = take k (drop (src + st) buf)"
      using k(1) by (simp add: drop_take min_def add.commute)
    finally show ?thesis by simp
  qed
  have lk: "length (take k (drop (src + st) buf)) = k"
    using k m st assms(1) by simp
  have "rd_bytes buf (src + st) k = Some (take k (drop (src + st) buf))"
    using k m st assms(1) by (intro rd_bytes_in) linarith
  moreover have "wr_bytes dst 0 (take k (drop (src + st) buf)) = Some (take k (drop (src + st) buf) @ drop k dst)"
    using lk k assms(2) by simp
  moreover have "wr8 (take k (drop (src + st) buf) @ drop k dst) k 0 =
      Some (take k (drop (src + st) buf) @ 0 # drop (k + 1) dst)"
  proof -
    have "drop k dst = dst ! k # drop (Suc k) dst" using k assms(2) by (simp add: Cons_nth_drop_Suc)
    then show ?thesis using lk k assms(2) by (simp add: list_update_append)
  qed
  moreover have "stored sz (drop st u) dst = take k (drop (src + st) buf) @ 0 # drop (k + 1) dst"
    by (simp only: stored_def Let_def bs [symmetric] lk)
  ultimately show ?thesis
    using e b by (simp add: trim_copy_def k_def [symmetric] tr)
qed

lemma length_stored [simp]: "length dst = n \<Longrightarrow> 0 < n \<Longrightarrow> length (stored n s dst) = n"
  by (simp add: stored_def Let_def)

lemma stored_nul: "nul_terminated (stored n s dst)"
  by (simp add: stored_def nul_terminated_def Let_def)

lemma cstr_stored: "0 \<notin> set s \<Longrightarrow> cstr (stored n s dst) = take (n - 1) s"
  by (auto simp: stored_def Let_def intro!: cstr_append dest: in_set_takeD)

section \<open>Descriptors\<close>

definition descriptor_offset :: "bytes \<Rightarrow> nat \<Rightarrow> u32" where
  "descriptor_offset buf field = le_word (take 4 (drop field buf))"

definition named :: "bytes \<Rightarrow> u32 \<Rightarrow> nat \<Rightarrow> bool" where
  "named buf returned field \<longleftrightarrow> descriptor_offset buf field \<noteq> 0 \<and> descriptor_offset buf field < returned"

text \<open>The string a field names: up to its NUL or the end of the returned bytes, trimmed.\<close>

definition named_string :: "bytes \<Rightarrow> u32 \<Rightarrow> nat \<Rightarrow> bytes" where
  "named_string buf returned field =
     (let off = unat (descriptor_offset buf field) in trimmed (cstr (take (unat returned - off) (drop off buf))))"

definition padded :: "nat \<Rightarrow> bytes \<Rightarrow> bytes" where
  "padded n s = take (n - 1) s @ zeros (n - length (take (n - 1) s))"

lemma stored_zeros: "0 < n \<Longrightarrow> stored n s (zeros n) = padded n s"
proof -
  assume n: "0 < n"
  let ?t = "take (n - 1) s"
  have "length ?t < n" using n by simp
  then obtain k where "n - length ?t = Suc k" "n - (length ?t + 1) = k" by (metis Suc_diff_Suc Suc_eq_plus1)
  then show ?thesis by (simp add: stored_def padded_def zeros_def Let_def)
qed

lemma padded_Nil: "padded n [] = zeros n"
  by (simp add: padded_def)

lemma copy_descriptor_string_in:
  assumes "length buf = 1024" and "unat returned \<le> 1024" and "field + 4 \<le> 1024" and "0 < n"
  shows "copy_descriptor_string buf returned field n (zeros n) =
    Some (if named buf returned field then (True, padded n (named_string buf returned field)) else (False, zeros n))"
proof -
  define off where "off = descriptor_offset buf field"
  have r: "rd32 buf field = Some off" using assms(1,3) by (simp add: off_def descriptor_offset_def)
  show ?thesis
  proof (cases "off \<noteq> 0 \<and> off < returned")
    case False
    with r show ?thesis by (auto simp: copy_descriptor_string_def named_def off_def [symmetric])
  next
    case True
    then have lt: "unat off < unat returned" by (simp add: word_less_nat_alt)
    have sub: "unat (returned - off) = unat returned - unat off" using True by (simp add: unat_sub word_le_nat_alt less_imp_le lt)
    let ?d = "take (unat returned - unat off) (drop (unat off) buf)"
    have len: "strnlen buf (unat off) (unat returned - unat off) = Some (length (cstr ?d))"
      using strnlen_in [of "unat off" "unat returned - unat off" buf] assms(1,2) lt by (simp add: cstr_def)
    have pre: "take (length (cstr ?d)) (drop (unat off) buf) = cstr ?d"
    proof -
      have "length (cstr ?d) \<le> length ?d" unfolding cstr_def by (rule length_takeWhile_le)
      then have "length (cstr ?d) \<le> unat returned - unat off" by simp
      then have "take (length (cstr ?d)) (drop (unat off) buf) = take (length (cstr ?d)) ?d"
        by (simp only: take_take min_absorb1)
      then show ?thesis unfolding cstr_def by (simp only: takeWhile_eq_take [symmetric])
    qed
    have "unat off + length (cstr ?d) \<le> length buf"
      using length_takeWhile_le [of "\<lambda>b. b \<noteq> 0" ?d] assms(1,2) lt by (simp add: cstr_def)
    then have "trim_copy (zeros n) n buf (unat off) (length (cstr ?d)) = Some (stored n (trimmed (cstr ?d)) (zeros n))"
      using trim_copy_in [of "unat off" "length (cstr ?d)" buf "zeros n" n] assms(4) pre by simp
    then show ?thesis
      using r True sub len assms(4)
      by (simp add: copy_descriptor_string_def named_def off_def [symmetric] named_string_def stored_zeros Let_def)
  qed
qed

text \<open>
  C29. Every field of a storage descriptor is read exactly: the bus type by its code, and each
  string as the bytes from the offset its field names up to the first NUL or the end of what the
  drive returned, with padding removed at both ends, cut to the array and NUL-terminated. The
  model falls back from the product to the vendor string; a field whose offset is zero or
  outside the returned bytes leaves an empty string. No read leaves the buffer.
\<close>

theorem read_descriptor_exact:
  assumes "length buf = 1024" and "unat returned \<le> 1024"
  shows "read_descriptor buf returned (storage_device0 i) =
    Some ((storage_device0 i)\<lparr>
      sd_bus_type := map_bus_type (le_word (take 4 (drop BusTypeOffset buf))),
      sd_model := padded 80 (if named buf returned ProductIdOffset then named_string buf returned ProductIdOffset
        else if named buf returned VendorIdOffset then named_string buf returned VendorIdOffset else []),
      sd_firmware_revision := padded 32 (if named buf returned ProductRevisionOffset
        then named_string buf returned ProductRevisionOffset else []),
      sd_serial := padded 80 (if named buf returned SerialNumberOffset
        then named_string buf returned SerialNumberOffset else [])\<rparr>)"
proof -
  note c = copy_descriptor_string_in [OF assms]
  have f: "ProductIdOffset + 4 \<le> 1024" "VendorIdOffset + 4 \<le> 1024" "ProductRevisionOffset + 4 \<le> 1024"
    "SerialNumberOffset + 4 \<le> 1024" "BusTypeOffset + 4 \<le> length buf"
    by (simp_all add: ProductIdOffset_def VendorIdOffset_def ProductRevisionOffset_def SerialNumberOffset_def
      BusTypeOffset_def assms)
  show ?thesis
    using c [OF f(1), of 80] c [OF f(2), of 80] c [OF f(3), of 32] c [OF f(4), of 80]
    by (simp add: read_descriptor_def rd32_in [OF f(5)] storage_device0_def padded_Nil)
qed

text \<open>A descriptor with a product string at offset 40 and nothing else.\<close>

definition sample_descriptor :: bytes where
  "sample_descriptor = zeros 16 @ [40, 0, 0, 0] @ zeros 4 @ [0, 0, 0, 0] @ [0x0B, 0, 0, 0] @ zeros 8 @ ascii ''  WD 1TB  '' @ zeros 974"

theorem read_descriptor_exact_witness:
  "\<exists>d. read_descriptor sample_descriptor 50 (storage_device0 0) = Some d \<and> sd_bus_type d = STORAGE_BUS_SATA \<and>
     cstr (sd_model d) = ascii ''WD 1TB'' \<and> sd_serial d = zeros 80"
proof -
  have l: "length sample_descriptor = 1024" by (simp add: sample_descriptor_def ascii_def)
  have r: "unat (50 :: u32) \<le> 1024" by simp
  note e = read_descriptor_exact [OF l r, of 0]
  have o: "descriptor_offset sample_descriptor ProductIdOffset = 40"
    "descriptor_offset sample_descriptor SerialNumberOffset = 0"
    "le_word (take 4 (drop BusTypeOffset sample_descriptor)) = (0x0B :: u32)"
    by (simp_all add: descriptor_offset_def sample_descriptor_def ProductIdOffset_def SerialNumberOffset_def
      BusTypeOffset_def drop_append take_append)
  have n: "named sample_descriptor 50 ProductIdOffset" "\<not> named sample_descriptor 50 SerialNumberOffset"
    by (simp_all add: named_def o)
  have s: "named_string sample_descriptor 50 ProductIdOffset = ascii ''WD 1TB''"
    unfolding named_string_def o Let_def
    by (simp add: sample_descriptor_def ascii_def zeros_def cstr_def trimmed_def is_pad_def)
  have "cstr (padded 80 (ascii ''WD 1TB'')) = ascii ''WD 1TB''"
    by (simp add: padded_def ascii_def cstr_def zeros_def)
  with e n s o show ?thesis by (simp add: map_bus_type_def padded_Nil)
qed

section \<open>Enumeration\<close>

text \<open>
  A log run against the open handles, by their access masks, the innermost first. What is allowed
  is written in numbers: a handle is opened on an existing drive (disposition 3) with no access
  right at all or with \<open>GENERIC_READ\<close> (0x80000000); only the property query (0x2D1400) and the
  length query (0x7405C) are sent, each through an open handle, the first only through one
  without rights, and neither a code that demands write access of its handle (bit 15 of a control
  code); handles are closed in the reverse order they were opened. \<open>None\<close> is a violation.
\<close>

definition open_allowed :: "u32 \<Rightarrow> u32 \<Rightarrow> bool" where
  "open_allowed a d \<longleftrightarrow> (a = 0 \<or> a = 0x80000000) \<and> d = 3"

definition request_allowed :: "u32 \<Rightarrow> u32 \<Rightarrow> bool" where
  "request_allowed a c \<longleftrightarrow> (c = 0x2D1400 \<and> a = 0 \<or> c = 0x7405C) \<and> \<not> bit c 15"

fun run_log :: "u32 list \<Rightarrow> storage_event list \<Rightarrow> u32 list option" where
  "run_log hs [] = Some hs"
| "run_log hs (Opened a d # ev) = (if open_allowed a d then run_log (a # hs) ev else None)"
| "run_log hs (Sent a c # ev) = (if a \<in> set hs \<and> request_allowed a c then run_log hs ev else None)"
| "run_log [] (Closed a # ev) = None"
| "run_log (h # hs) (Closed a # ev) = (if h = a then run_log hs ev else None)"

lemma calls_allowed [simp]:
  "open_allowed 0 OPEN_EXISTING" "open_allowed GENERIC_READ OPEN_EXISTING"
  "request_allowed 0 IOCTL_STORAGE_QUERY_PROPERTY" "request_allowed a IOCTL_DISK_GET_LENGTH_INFO"
  by (simp_all add: open_allowed_def request_allowed_def storage_constants)

lemma run_log_append: "run_log hs (ev @ ev') = Option.bind (run_log hs ev) (\<lambda>hs. run_log hs ev')"
  by (induction hs ev rule: run_log.induct) auto

definition drive_ok :: "drive \<Rightarrow> bool" where
  "drive_ok dv \<longleftrightarrow>
     (case dv_descriptor dv of None \<Rightarrow> True | Some (buf, returned) \<Rightarrow> length buf = 1024 \<and> unat returned \<le> 1024) \<and>
     (case dv_identify dv of None \<Rightarrow> True | Some b \<Rightarrow> length b = 4096)"

definition strings_ok :: "StorageDevice \<Rightarrow> bool" where
  "strings_ok d \<longleftrightarrow> length (sd_model d) = 80 \<and> length (sd_firmware_revision d) = 32 \<and> length (sd_serial d) = 80 \<and>
     nul_terminated (sd_model d) \<and> nul_terminated (sd_firmware_revision d) \<and> nul_terminated (sd_serial d)"

text \<open>The capacity a drive lets itself be asked for.\<close>

definition capacity :: "drive \<Rightarrow> u64 option" where
  "capacity dv = (case dv_length dv of Some n \<Rightarrow> Some n | None \<Rightarrow> Option.bind (dv_read_handle dv) id)"

definition capacity_ok :: "drive \<Rightarrow> StorageDevice \<Rightarrow> bool" where
  "capacity_ok dv d \<longleftrightarrow>
     (case capacity dv of
        Some n \<Rightarrow> sd_capacity_available d \<and> sd_capacity_bytes d = n
      | None \<Rightarrow> \<not> sd_capacity_available d \<and> sd_capacity_bytes d = 0)"

lemma padded_ok: "0 < n \<Longrightarrow> length (padded n s) = n \<and> nul_terminated (padded n s)"
  by (auto simp: padded_def nul_terminated_def zeros_def)

lemma read_descriptor_ok:
  assumes "length buf = 1024" and "unat returned \<le> 1024"
  shows "\<exists>d. read_descriptor buf returned (storage_device0 i) = Some d \<and> strings_ok d \<and> sd_index d = i \<and>
    \<not> sd_capacity_available d \<and> sd_capacity_bytes d = 0"
proof -
  have "copy_descriptor_string buf returned ProductIdOffset 80 (zeros 80) =
      Some (if named buf returned ProductIdOffset then (True, padded 80 (named_string buf returned ProductIdOffset)) else (False, zeros 80))"
    "copy_descriptor_string buf returned VendorIdOffset 80 (zeros 80) =
      Some (if named buf returned VendorIdOffset then (True, padded 80 (named_string buf returned VendorIdOffset)) else (False, zeros 80))"
    "copy_descriptor_string buf returned ProductRevisionOffset 32 (zeros 32) =
      Some (if named buf returned ProductRevisionOffset then (True, padded 32 (named_string buf returned ProductRevisionOffset)) else (False, zeros 32))"
    "copy_descriptor_string buf returned SerialNumberOffset 80 (zeros 80) =
      Some (if named buf returned SerialNumberOffset then (True, padded 80 (named_string buf returned SerialNumberOffset)) else (False, zeros 80))"
    by (rule copy_descriptor_string_in [OF assms];
      simp add: ProductIdOffset_def VendorIdOffset_def ProductRevisionOffset_def SerialNumberOffset_def)+
  moreover have "BusTypeOffset + 4 \<le> length buf" by (simp add: BusTypeOffset_def assms(1))
  ultimately show ?thesis
    using padded_ok [of 80] padded_ok [of 32] padded_ok [of _ "[]", unfolded padded_Nil]
    by (auto simp: read_descriptor_def storage_device0_def strings_ok_def)
qed

lemma try_nvme_identify_ok:
  assumes "drive_ok dv" and "strings_ok d"
  shows "\<exists>d' ev. try_nvme_identify m dv d = Some (d', ev) \<and> strings_ok d' \<and> sd_index d' = sd_index d \<and>
    sd_capacity_available d' = sd_capacity_available d \<and> sd_capacity_bytes d' = sd_capacity_bytes d \<and>
    run_log [0] ev = Some [0]"
proof (cases "m \<and> dv_identify dv \<noteq> None")
  case False
  with assms(2) show ?thesis by (auto simp: try_nvme_identify_def split: option.splits)
next
  case True
  then obtain b where b: "dv_identify dv = Some b" by auto
  then have l: "length b = 4096" using assms(1) by (simp add: drive_ok_def)
  have t: "trim_copy (sd_serial d) 80 b 4 20 = Some (stored 80 (trimmed (take 20 (drop 4 b))) (sd_serial d))"
    "trim_copy (sd_model d) 80 b 24 40 = Some (stored 80 (trimmed (take 40 (drop 24 b))) (sd_model d))"
    "trim_copy (sd_firmware_revision d) 32 b 64 8 = Some (stored 32 (trimmed (take 8 (drop 64 b))) (sd_firmware_revision d))"
    using assms(2) l by (intro trim_copy_in; simp add: strings_ok_def)+
  with True b assms(2) show ?thesis by (simp add: try_nvme_identify_def strings_ok_def stored_nul)
qed

lemma query_capacity_ok:
  assumes "query_capacity dv d = (d', ev)" and "\<not> sd_capacity_available d" and "sd_capacity_bytes d = 0"
  shows "capacity_ok dv d' \<and> run_log [0] ev = Some [0] \<and> sd_index d' = sd_index d \<and>
    (strings_ok d \<longrightarrow> strings_ok d')"
  using assms by (auto simp: query_capacity_def capacity_ok_def capacity_def strings_ok_def split: option.splits)

lemma query_device_ok:
  assumes "drive_ok dv"
  shows "\<exists>r ev. query_device m i dv = Some (r, ev) \<and> run_log [] ev = Some [] \<and>
    (if dv_opens dv then \<exists>d. r = Some d \<and> sd_index d = i \<and> strings_ok d \<and> capacity_ok dv d else r = None)"
proof (cases "dv_opens dv")
  case False
  then show ?thesis by (simp add: query_device_def)
next
  case True
  obtain d1 where d1: "(case dv_descriptor dv of None \<Rightarrow> Some (storage_device0 i)
      | Some (buf, returned) \<Rightarrow> read_descriptor buf returned (storage_device0 i)) = Some d1"
    "strings_ok d1" "sd_index d1 = i" "\<not> sd_capacity_available d1" "sd_capacity_bytes d1 = 0"
  proof (cases "dv_descriptor dv")
    case None
    have "strings_ok (storage_device0 i)" by (simp add: strings_ok_def storage_device0_def nul_terminated_def zeros_def)
    with None that [of "storage_device0 i"] show thesis by (simp add: storage_device0_def)
  next
    case (Some c)
    obtain buf returned where c: "c = (buf, returned)" by (cases c)
    with Some assms read_descriptor_ok [of buf returned i] that show thesis by (auto simp: drive_ok_def)
  qed
  obtain d2 ev2 where d2: "(if sd_bus_type d1 = STORAGE_BUS_NVME then try_nvme_identify m dv d1 else Some (d1, [])) = Some (d2, ev2)"
    "strings_ok d2" "sd_index d2 = i" "\<not> sd_capacity_available d2" "sd_capacity_bytes d2 = 0"
    "run_log [0] ev2 = Some [0]"
    using try_nvme_identify_ok [OF assms d1(2), of m] d1(2-5) that
    by (cases "sd_bus_type d1 = STORAGE_BUS_NVME") auto
  obtain d3 ev3 where d3: "query_capacity dv d2 = (d3, ev3)" by (cases "query_capacity dv d2")
  with query_capacity_ok [OF d3 d2(4,5)] d1 d2 True show ?thesis
    by (simp add: query_device_def run_log_append)
qed

lemma storage_loop_ok:
  assumes "\<forall>i. drive_ok (drives i)"
  shows "i \<le> STORAGE_MAX_DEVICES \<Longrightarrow> length out = i \<Longrightarrow> \<exists>ds ev. storage_loop m drives i out = Some (out @ ds, ev) \<and>
    run_log [] ev = Some [] \<and> i + length ds \<le> STORAGE_MAX_DEVICES \<and>
    (\<forall>k < length ds. dv_opens (drives (i + k)) \<and> sd_index (ds ! k) = i + k \<and> strings_ok (ds ! k) \<and>
       capacity_ok (drives (i + k)) (ds ! k)) \<and>
    (i + length ds < STORAGE_MAX_DEVICES \<longrightarrow> \<not> dv_opens (drives (i + length ds)))"
proof (induction "STORAGE_MAX_DEVICES - i" arbitrary: i out)
  case 0
  then show ?case by (subst storage_loop.simps) (auto intro!: exI [of _ "[]"])
next
  case (Suc n)
  then have lt: "i < STORAGE_MAX_DEVICES" by simp
  obtain r ev where q: "query_device m i (drives i) = Some (r, ev)" "run_log [] ev = Some []"
    "if dv_opens (drives i) then \<exists>d. r = Some d \<and> sd_index d = i \<and> strings_ok d \<and> capacity_ok (drives i) d else r = None"
    using query_device_ok [of "drives i" m i] assms by auto
  show ?case
  proof (cases "dv_opens (drives i)")
    case False
    with q lt show ?thesis by (subst storage_loop.simps) (auto intro!: exI [of _ "[]"])
  next
    case True
    with q(3) obtain d where d: "r = Some d" "sd_index d = i" "strings_ok d" "capacity_ok (drives i) d" by auto
    have "n = STORAGE_MAX_DEVICES - Suc i" "Suc i \<le> STORAGE_MAX_DEVICES" "length (out @ [d]) = Suc i"
      using Suc.hyps(2) lt Suc.prems by auto
    from Suc.hyps(1) [OF this] obtain ds ev' where
      l: "storage_loop m drives (Suc i) ((out @ [d]) ) = Some ((out @ [d]) @ ds, ev')" "run_log [] ev' = Some []"
        "Suc i + length ds \<le> STORAGE_MAX_DEVICES"
        "\<forall>k < length ds. dv_opens (drives (Suc i + k)) \<and> sd_index (ds ! k) = Suc i + k \<and> strings_ok (ds ! k) \<and>
           capacity_ok (drives (Suc i + k)) (ds ! k)"
        "Suc i + length ds < STORAGE_MAX_DEVICES \<longrightarrow> \<not> dv_opens (drives (Suc i + length ds))"
      by blast
    have "storage_loop m drives i out = Some (out @ d # ds, ev @ ev')"
      using l(1) q(1) d(1) lt Suc.prems(2) by (subst storage_loop.simps) simp
    moreover have "\<forall>k < length (d # ds). dv_opens (drives (i + k)) \<and> sd_index ((d # ds) ! k) = i + k \<and>
        strings_ok ((d # ds) ! k) \<and> capacity_ok (drives (i + k)) ((d # ds) ! k)"
      using l(4) True d by (auto simp: less_Suc_eq_0_disj)
    ultimately show ?thesis
      using l q(2) by (intro exI [of _ "d # ds"] exI [of _ "ev @ ev'"]) (simp add: run_log_append)
  qed
qed

text \<open>
  C9. Enumerating the drives is total, complete up to the cap of 32 drives, and sends only
  read-only requests. Whatever the drives answer, the result lists, in order and with their
  numbers, exactly the drives before the first that does not exist, or the first 32 when there are
  more; every string is NUL-terminated in its array; the capacity is available exactly when the
  drive gave one through either handle, and is that number. In the log of the calls, drives are
  opened with no access right or, for the capacity, with \<open>GENERIC_READ\<close>, never with a right to
  write; the only control codes sent are the property query, on a handle without rights, and the
  length query; and every handle opened is closed. (\<open>storage.h\<close> promises handles without rights only.)
\<close>

theorem storage_enumerate_exact:
  assumes "\<forall>i. drive_ok (drives i)"
  shows "\<exists>ds ev. storage_enumerate m drives = Some (ds, ev) \<and> run_log [] ev = Some [] \<and>
    length ds \<le> 32 \<and>
    (\<forall>i < length ds. dv_opens (drives i) \<and> sd_index (ds ! i) = i \<and> strings_ok (ds ! i) \<and> capacity_ok (drives i) (ds ! i)) \<and>
    (length ds < 32 \<longrightarrow> \<not> dv_opens (drives (length ds)))"
  using storage_loop_ok [OF assms, of 0 "[]" m] by (auto simp: storage_enumerate_def STORAGE_MAX_DEVICES_def)

definition sample_drives :: "nat \<Rightarrow> drive" where
  "sample_drives i = \<lparr>dv_opens = i < 2, dv_descriptor = Some (sample_descriptor, 50), dv_identify = None,
     dv_length = None, dv_read_handle = Some (Some 1000204886016)\<rparr>"

theorem storage_enumerate_exact_witness:
  "\<exists>ds ev. storage_enumerate False sample_drives = Some (ds, ev) \<and> length ds = 2 \<and> run_log [] ev = Some [] \<and>
     sd_capacity_bytes (ds ! 1) = 1000204886016"
proof -
  have "length sample_descriptor = 1024" by (simp add: sample_descriptor_def ascii_def)
  then have "\<forall>i. drive_ok (sample_drives i)" by (simp add: drive_ok_def sample_drives_def)
  from storage_enumerate_exact [OF this, of False] obtain ds ev where
    e: "storage_enumerate False sample_drives = Some (ds, ev)" "run_log [] ev = Some []"
      "\<forall>i < length ds. dv_opens (sample_drives i) \<and> capacity_ok (sample_drives i) (ds ! i)"
      "length ds < 32 \<longrightarrow> \<not> dv_opens (sample_drives (length ds))" by blast
  have "\<forall>i < length ds. i < 2" using e(3) by (simp add: sample_drives_def)
  moreover have "\<not> length ds < 2" using e(4) by (auto simp: sample_drives_def)
  ultimately have l: "length ds = 2" by (meson lessI less_antisym not_less_iff_gr_or_eq)
  then have "capacity_ok (sample_drives 1) (ds ! 1)" using e(3) by simp
  with e l show ?thesis by (simp add: capacity_ok_def capacity_def sample_drives_def)
qed

text \<open>
  The NVMe identify query is compiled only where \<open>STORAGE_PROTOCOL_SPECIFIC_DATA\<close> is a macro. The
  header declares a structure type of that name, so no device is ever read that way.
\<close>

lemma query_device_no_identify:
  "query_device False i dv = Some (Some d, ev) \<Longrightarrow> \<not> sd_nvme_identify_used d"
  by (auto simp: query_device_def try_nvme_identify_def read_descriptor_def query_capacity_def storage_device0_def
      bind_eq_Some_conv Let_def split: option.splits if_splits)

end
