(* ===== verification/Uefi.thy ===== *)
theory Uefi
  imports Cpu_Id
begin

text \<open>
  \<open>src/uefi/HwMonPkg/Application/HwMonUefi/HwMonUefi.c\<close>: the pre-boot inventory. Properties are
  in \<open>Uefi_Correct\<close>.

  A routine that prints is modelled as the values it prints, one constructor for each way it
  can end. Parameters are what the firmware supplies: CPUID as \<open>AsmCpuid\<close> executes it, the two
  answers of \<open>GetMemoryMap\<close>, physical memory (\<open>None\<close> where nothing is mapped), and the
  configuration table. Addresses are 64-bit words and wrap around.
\<close>

section \<open>Checksums and reads of physical memory\<close>

type_synonym phys = "u64 \<Rightarrow> u8 option"

fun checksum_loop :: "phys \<Rightarrow> u64 \<Rightarrow> nat \<Rightarrow> u8 \<Rightarrow> u8 option" where
  "checksum_loop mem a 0 acc = Some acc"
| "checksum_loop mem a (Suc n) acc = do { b \<leftarrow> mem a; checksum_loop mem (a + 1) n (acc + b) }"

definition ChecksumOk :: "phys \<Rightarrow> u64 \<Rightarrow> nat \<Rightarrow> bool option" where
  "ChecksumOk mem a len = map_option (\<lambda>s. s = 0) (checksum_loop mem a len 0)"

fun phys_bytes :: "phys \<Rightarrow> u64 \<Rightarrow> nat \<Rightarrow> bytes option" where
  "phys_bytes mem a 0 = Some []"
| "phys_bytes mem a (Suc n) = do { b \<leftarrow> mem a; bs \<leftarrow> phys_bytes mem (a + 1) n; Some (b # bs) }"

text \<open>A field of a structure at address \<open>a\<close>: \<open>n\<close> bytes at an offset, little-endian.\<close>

definition field :: "phys \<Rightarrow> u64 \<Rightarrow> nat \<Rightarrow> nat \<Rightarrow> 'a::len word option" where
  "field mem a off n = map_option le_word (phys_bytes mem (a + of_nat off) n)"

text \<open>
  A packed structure is the list of its fields with their sizes; a field's offset is the sum of
  the sizes before it.
\<close>

type_synonym layout = "(string \<times> nat) list"

fun offsetof :: "layout \<Rightarrow> string \<Rightarrow> nat" where
  "offsetof [] f = 0"
| "offsetof ((g, n) # fs) f = (if g = f then 0 else n + offsetof fs f)"

fun widthof :: "layout \<Rightarrow> string \<Rightarrow> nat" where
  "widthof [] f = 0"
| "widthof ((g, n) # fs) f = (if g = f then n else widthof fs f)"

definition sizeof :: "layout \<Rightarrow> nat" where
  "sizeof fs = sum_list (map snd fs)"

definition member :: "phys \<Rightarrow> u64 \<Rightarrow> layout \<Rightarrow> string \<Rightarrow> 'a::len word option" where
  "member mem a l f = field mem a (offsetof l f) (widthof l f)"

definition HWMON_RSDP :: layout where
  "HWMON_RSDP = [(''Signature'', 8), (''Checksum'', 1), (''OemId'', 6), (''Revision'', 1), (''RsdtAddress'', 4),
     (''Length'', 4), (''XsdtAddress'', 8), (''ExtendedChecksum'', 1), (''Reserved'', 3)]"

definition HWMON_ACPI_HEADER :: layout where
  "HWMON_ACPI_HEADER = [(''Signature'', 4), (''Length'', 4), (''Revision'', 1), (''Checksum'', 1), (''OemId'', 6),
     (''OemTableId'', 8), (''OemRevision'', 4), (''CreatorId'', 4), (''CreatorRevision'', 4)]"

definition HWMON_SMBIOS_ENTRY_32 :: layout where
  "HWMON_SMBIOS_ENTRY_32 = [(''AnchorString'', 4), (''Checksum'', 1), (''Length'', 1), (''MajorVersion'', 1),
     (''MinorVersion'', 1), (''MaxStructureSize'', 2), (''EntryPointRevision'', 1), (''FormattedArea'', 5),
     (''IntermediateAnchor'', 5), (''IntermediateChecksum'', 1), (''TableLength'', 2), (''TableAddress'', 4),
     (''NumberOfStructures'', 2), (''BcdRevision'', 1)]"

definition HWMON_SMBIOS_ENTRY_64 :: layout where
  "HWMON_SMBIOS_ENTRY_64 = [(''AnchorString'', 5), (''Checksum'', 1), (''Length'', 1), (''MajorVersion'', 1),
     (''MinorVersion'', 1), (''DocRev'', 1), (''EntryPointRevision'', 1), (''Reserved'', 1),
     (''TableMaximumSize'', 4), (''TableAddress'', 8)]"

section \<open>The processor\<close>

record uefi_cpu =
  uc_vendor :: bytes
  uc_family :: u32
  uc_model :: u32
  uc_stepping :: u32
  uc_features :: "bool list"
  uc_brand :: "bytes option"

definition copy_regs :: "CpuidResult \<Rightarrow> nat \<Rightarrow> bytes \<Rightarrow> bytes option" where
  "copy_regs r off out =
     do { out \<leftarrow> wr_bytes out (off + 0) (le_bytes 4 (r_eax r));
          out \<leftarrow> wr_bytes out (off + 4) (le_bytes 4 (r_ebx r));
          out \<leftarrow> wr_bytes out (off + 8) (le_bytes 4 (r_ecx r));
          wr_bytes out (off + 12) (le_bytes 4 (r_edx r)) }"

definition uefi_signature :: "u32 \<Rightarrow> u32 \<times> u32 \<times> u32" where
  "uefi_signature eax =
     (let BaseFamily = drop_bit 8 eax AND 0xF;
          BaseModel = drop_bit 4 eax AND 0xF;
          ExtFamily = drop_bit 20 eax AND 0xFF;
          ExtModel = drop_bit 16 eax AND 0xF;
          Stepping = eax AND 0xF;
          Family = (if BaseFamily = 0xF then BaseFamily + ExtFamily else BaseFamily);
          Model = (if BaseFamily = 0x6 \<or> BaseFamily = 0xF then push_bit 4 ExtModel OR BaseModel else BaseModel) in
      (Family, Model, Stepping))"

text \<open>The arrays on the stack start with any contents (\<open>vendor0\<close>, \<open>brand0\<close>).\<close>

definition PrintCpuInfo :: "(u32 \<Rightarrow> CpuidResult) \<Rightarrow> bytes \<Rightarrow> bytes \<Rightarrow> uefi_cpu option" where
  "PrintCpuInfo AsmCpuid vendor0 brand0 =
     do { let r = AsmCpuid 0;
          Vendor \<leftarrow> wr_bytes vendor0 0 (le_bytes 4 (r_ebx r));
          Vendor \<leftarrow> wr_bytes Vendor 4 (le_bytes 4 (r_edx r));
          Vendor \<leftarrow> wr_bytes Vendor 8 (le_bytes 4 (r_ecx r));
          Vendor \<leftarrow> wr8 Vendor 12 0;
          let r1 = AsmCpuid 1;
          let sig = uefi_signature (r_eax r1);
          let feats = [bit_at (r_edx r1) 25, bit_at (r_edx r1) 26, bit_at (r_ecx r1) 0, bit_at (r_ecx r1) 28,
             bit_at (r_ecx r1) 5, bit_at (r_ecx r1) 31];
          let MaxExtLeaf = r_eax (AsmCpuid 0x80000000);
          brand \<leftarrow> (if 0x80000004 \<le> MaxExtLeaf then
             do { Brand \<leftarrow> copy_regs (AsmCpuid 0x80000002) 0 brand0;
                  Brand \<leftarrow> copy_regs (AsmCpuid 0x80000003) 16 Brand;
                  Brand \<leftarrow> copy_regs (AsmCpuid 0x80000004) 32 Brand;
                  Brand \<leftarrow> wr8 Brand 48 0;
                  Some (Some Brand) }
             else Some None);
          Some \<lparr>uc_vendor = Vendor, uc_family = fst sig, uc_model = fst (snd sig), uc_stepping = snd (snd sig),
            uc_features = feats, uc_brand = brand\<rparr> }"

section \<open>The memory map\<close>

text \<open>
  The probe's status, size and descriptor size, and the answer of the second call for the size
  of the buffer it is given: status, size, descriptor size and the buffer's contents.
\<close>

record boot_services =
  bs_probe_status :: u64
  bs_probe_size :: u64
  bs_probe_desc_size :: u64
  bs_get_map :: "u64 \<Rightarrow> u64 \<times> u64 \<times> u64 \<times> bytes"
  bs_alloc_ok :: "nat \<Rightarrow> bool"

datatype memory_map_report =
  Probe_failed u64 | Allocation_failed | Get_map_failed u64 | Map_ok u64 u64

definition EFI_BUFFER_TOO_SMALL :: u64 where "EFI_BUFFER_TOO_SMALL = 0x8000000000000005"

definition EFI_ERROR :: "u64 \<Rightarrow> bool" where
  "EFI_ERROR status \<longleftrightarrow> sint status < 0"

definition EfiBootServicesCode :: u32 where "EfiBootServicesCode = 3"
definition EfiBootServicesData :: u32 where "EfiBootServicesData = 4"
definition EfiConventionalMemory :: u32 where "EfiConventionalMemory = 7"
definition EFI_PAGE_SIZE :: u64 where "EFI_PAGE_SIZE = 4096"

text \<open>The summing loop over \<open>n\<close> further descriptors; \<open>Type\<close> is at offset 0, \<open>NumberOfPages\<close> at 24.\<close>

fun usable_loop :: "bytes \<Rightarrow> nat \<Rightarrow> nat \<Rightarrow> nat \<Rightarrow> u64 \<Rightarrow> u64 option" where
  "usable_loop buf DescSize index 0 acc = Some acc"
| "usable_loop buf DescSize index (Suc n) acc =
     do { ty \<leftarrow> rd32 buf (index * DescSize);
          acc \<leftarrow> (if ty = EfiConventionalMemory \<or> ty = EfiBootServicesCode \<or> ty = EfiBootServicesData
             then map_option (\<lambda>pages. acc + pages * EFI_PAGE_SIZE) (rd64 buf (index * DescSize + 24))
             else Some acc);
          usable_loop buf DescSize (Suc index) n acc }"

text \<open>A division by zero is \<open>None\<close>.\<close>

definition PrintMemoryMap :: "boot_services \<Rightarrow> heap \<Rightarrow> (memory_map_report \<times> heap) option" where
  "PrintMemoryMap bs h =
     (if bs_probe_status bs \<noteq> EFI_BUFFER_TOO_SMALL then Some (Probe_failed (bs_probe_status bs), h)
      else
        let MapSize = bs_probe_size bs + 2 * bs_probe_desc_size bs in
        case h_malloc (bs_alloc_ok bs) h of
          (None, h) \<Rightarrow> Some (Allocation_failed, h)
        | (Some Map, h) \<Rightarrow>
            (case bs_get_map bs MapSize of
               (Status, MapSize, DescSize, buf) \<Rightarrow>
                 if EFI_ERROR Status then do { h \<leftarrow> h_free Map h; Some (Get_map_failed Status, h) }
                 else if DescSize = 0 then None
                 else
                   do { let EntryCount = MapSize div DescSize;
                        UsableBytes \<leftarrow> usable_loop buf (unat DescSize) 0 (unat EntryCount) 0;
                        h \<leftarrow> h_free Map h;
                        Some (Map_ok EntryCount (UsableBytes div (1024 * 1024)), h) }))"

section \<open>ACPI\<close>

text \<open>A listed table: signature, length and whether its checksum is right.\<close>

datatype acpi_report =
  Acpi_1_only bool
| Rsdp_invalid bool bool
| Xsdt_invalid
| Xsdt_tables u64 "(bytes \<times> u32 \<times> bool) list"

fun table_loop :: "phys \<Rightarrow> u64 \<Rightarrow> nat \<Rightarrow> (bytes \<times> u32 \<times> bool) list option" where
  "table_loop mem entries 0 = Some []"
| "table_loop mem entries (Suc n) =
     do { T \<leftarrow> field mem entries 0 8;
          len \<leftarrow> member mem T HWMON_ACPI_HEADER ''Length'';
          ok \<leftarrow> ChecksumOk mem T (unat len);
          sig \<leftarrow> phys_bytes mem (T + of_nat (offsetof HWMON_ACPI_HEADER ''Signature'')) 4;
          rest \<leftarrow> table_loop mem (entries + 8) n;
          Some ((sig, len, ok) # rest) }"

definition PrintAcpi :: "phys \<Rightarrow> u64 \<Rightarrow> acpi_report option" where
  "PrintAcpi mem R =
     do { V1Ok \<leftarrow> ChecksumOk mem R 20;
          Revision \<leftarrow> member mem R HWMON_RSDP ''Revision'';
          if (Revision :: u8) < 2 then Some (Acpi_1_only V1Ok)
          else do {
            len \<leftarrow> member mem R HWMON_RSDP ''Length'';
            V2Ok \<leftarrow> ChecksumOk mem R (unat (len :: u32));
            if \<not> V1Ok \<or> \<not> V2Ok then Some (Rsdp_invalid V1Ok V2Ok)
            else do {
              Hdr \<leftarrow> member mem R HWMON_RSDP ''XsdtAddress'';
              xlen \<leftarrow> member mem Hdr HWMON_ACPI_HEADER ''Length'';
              xok \<leftarrow> ChecksumOk mem Hdr (unat (xlen :: u32));
              if \<not> xok then Some Xsdt_invalid
              else do {
                let EntryCount = (ucast xlen - of_nat (sizeof HWMON_ACPI_HEADER)) div 8;
                tables \<leftarrow> table_loop mem (Hdr + of_nat (sizeof HWMON_ACPI_HEADER)) (unat EntryCount);
                Some (Xsdt_tables EntryCount tables) } } } }"

section \<open>SMBIOS\<close>

datatype smbios_report =
  Entry_64 bool u8 u8 u64 u32
| Entry_32 bool u8 u8 u32 u16 u16

definition PrintSmbios :: "phys \<Rightarrow> u64 \<Rightarrow> bool \<Rightarrow> smbios_report option" where
  "PrintSmbios mem E Is64 =
     (if Is64 then
        do { len \<leftarrow> member mem E HWMON_SMBIOS_ENTRY_64 ''Length'';
             ok \<leftarrow> ChecksumOk mem E (unat (len :: u8));
             major \<leftarrow> member mem E HWMON_SMBIOS_ENTRY_64 ''MajorVersion'';
             minor \<leftarrow> member mem E HWMON_SMBIOS_ENTRY_64 ''MinorVersion'';
             addr \<leftarrow> member mem E HWMON_SMBIOS_ENTRY_64 ''TableAddress'';
             max_size \<leftarrow> member mem E HWMON_SMBIOS_ENTRY_64 ''TableMaximumSize'';
             Some (Entry_64 ok major minor addr max_size) }
      else
        do { len \<leftarrow> member mem E HWMON_SMBIOS_ENTRY_32 ''Length'';
             ok \<leftarrow> ChecksumOk mem E (unat (len :: u8));
             major \<leftarrow> member mem E HWMON_SMBIOS_ENTRY_32 ''MajorVersion'';
             minor \<leftarrow> member mem E HWMON_SMBIOS_ENTRY_32 ''MinorVersion'';
             addr \<leftarrow> member mem E HWMON_SMBIOS_ENTRY_32 ''TableAddress'';
             tlen \<leftarrow> member mem E HWMON_SMBIOS_ENTRY_32 ''TableLength'';
             structures \<leftarrow> member mem E HWMON_SMBIOS_ENTRY_32 ''NumberOfStructures'';
             Some (Entry_32 ok major minor addr tlen structures) })"

section \<open>The application\<close>

datatype guid = gEfiAcpi20TableGuid | gEfiAcpi10TableGuid | gEfiSmbios3TableGuid | gEfiSmbiosTableGuid | OtherGuid nat

text \<open>The search of the configuration table; NULL is 0. The state is RSDP, SMBIOS entry, 64-bit.\<close>

fun select_step :: "guid \<times> u64 \<Rightarrow> u64 \<times> u64 \<times> bool \<Rightarrow> u64 \<times> u64 \<times> bool" where
  "select_step (g, t) (AcpiRsdp, SmbiosEntry, SmbiosIs64) =
     (if g = gEfiAcpi20TableGuid then (t, SmbiosEntry, SmbiosIs64)
      else if AcpiRsdp = 0 \<and> g = gEfiAcpi10TableGuid then (t, SmbiosEntry, SmbiosIs64)
      else if g = gEfiSmbios3TableGuid then (AcpiRsdp, t, True)
      else if SmbiosEntry = 0 \<and> g = gEfiSmbiosTableGuid then (AcpiRsdp, t, False)
      else (AcpiRsdp, SmbiosEntry, SmbiosIs64))"

definition select_tables :: "(guid \<times> u64) list \<Rightarrow> u64 \<times> u64 \<times> bool" where
  "select_tables cts = fold select_step cts (0, 0, False)"

record uefi_report =
  ur_cpu :: uefi_cpu
  ur_memory :: memory_map_report
  ur_acpi :: "acpi_report option"
  ur_smbios :: "smbios_report option"

definition UefiMain :: "(u32 \<Rightarrow> CpuidResult) \<Rightarrow> bytes \<Rightarrow> bytes \<Rightarrow> boot_services \<Rightarrow> phys \<Rightarrow> (guid \<times> u64) list \<Rightarrow> heap \<Rightarrow>
    (uefi_report \<times> heap) option" where
  "UefiMain AsmCpuid vendor0 brand0 bs mem cts h =
     do { cpu \<leftarrow> PrintCpuInfo AsmCpuid vendor0 brand0;
          (mm, h) \<leftarrow> PrintMemoryMap bs h;
          (case select_tables cts of
             (AcpiRsdp, SmbiosEntry, SmbiosIs64) \<Rightarrow>
               do { acpi \<leftarrow> (if AcpiRsdp \<noteq> 0 then map_option Some (PrintAcpi mem AcpiRsdp) else Some None);
                    smbios \<leftarrow> (if SmbiosEntry \<noteq> 0 then map_option Some (PrintSmbios mem SmbiosEntry SmbiosIs64) else Some None);
                    Some (\<lparr>ur_cpu = cpu, ur_memory = mm, ur_acpi = acpi, ur_smbios = smbios\<rparr>, h) }) }"

end
