(* ===== verification/Uefi_Correct.thy ===== *)
theory Uefi_Correct
  imports Uefi Cpu_Id_Correct
begin

text \<open>
  Correctness of the pre-boot inventory: agreement with the native identification, the memory
  map's total, the ACPI walk on mapped memory, and the choice among configuration tables.
\<close>

section \<open>Mapped memory\<close>

definition mapped :: "phys \<Rightarrow> u64 \<Rightarrow> nat \<Rightarrow> bool" where
  "mapped mem a n \<longleftrightarrow> (\<forall>i < n. mem (a + of_nat i) \<noteq> None)"

definition region :: "phys \<Rightarrow> u64 \<Rightarrow> nat \<Rightarrow> bytes" where
  "region mem a n = map (\<lambda>i. the (mem (a + of_nat i))) [0..<n]"

lemma region_Suc: "region mem a (Suc n) = the (mem a) # region mem (a + 1) n"
  by (simp add: region_def upt_conv_Cons del: upt_Suc) (simp add: map_Suc_upt [symmetric] add.assoc comp_def del: upt_Suc)

lemma mapped_Suc: "mapped mem a (Suc n) \<longleftrightarrow> mem a \<noteq> None \<and> mapped mem (a + 1) n"
  by (auto simp: mapped_def less_Suc_eq_0_disj add.assoc)

lemma mapped_mono: "mapped mem a n \<Longrightarrow> m \<le> n \<Longrightarrow> mapped mem a m"
  by (simp add: mapped_def)

lemma mapped_shift: "mapped mem a n \<Longrightarrow> k + m \<le> n \<Longrightarrow> mapped mem (a + of_nat k) m"
  by (auto simp: mapped_def add.assoc simp flip: of_nat_add)

lemma phys_bytes_in: "mapped mem a n \<Longrightarrow> phys_bytes mem a n = Some (region mem a n)"
proof (induction n arbitrary: a)
  case (Suc n)
  then show ?case by (auto simp: mapped_Suc region_Suc)
qed (simp add: region_def)

lemma checksum_loop_in: "mapped mem a n \<Longrightarrow> checksum_loop mem a n acc = Some (acc + sum_list (region mem a n))"
proof (induction n arbitrary: a acc)
  case (Suc n)
  then show ?case by (auto simp: mapped_Suc region_Suc add.assoc)
qed (simp add: region_def)

lemma ChecksumOk_in: "mapped mem a n \<Longrightarrow> ChecksumOk mem a n = Some (sum_list (region mem a n) = 0)"
  by (simp add: ChecksumOk_def checksum_loop_in)

lemma field_in: "mapped mem a m \<Longrightarrow> off + n \<le> m \<Longrightarrow> field mem a off n = Some (le_word (region mem (a + of_nat off) n))"
  by (simp add: field_def phys_bytes_in mapped_shift)

text \<open>A read of memory that is not mapped anywhere in its range fails.\<close>

lemma checksum_loop_fails: "\<not> mapped mem a n \<Longrightarrow> checksum_loop mem a n acc = None"
proof (induction n arbitrary: a acc)
  case (Suc n)
  then show ?case by (cases "mem a") (auto simp: mapped_Suc)
qed (simp add: mapped_def)

text \<open>The layouts, field by field.\<close>

lemma layouts [simp]:
  "member mem a HWMON_RSDP ''Revision'' = field mem a 15 1" "member mem a HWMON_RSDP ''Length'' = field mem a 20 4"
  "member mem a HWMON_RSDP ''XsdtAddress'' = field mem a 24 8" "member mem a HWMON_ACPI_HEADER ''Length'' = field mem a 4 4"
  "offsetof HWMON_ACPI_HEADER ''Signature'' = 0" "sizeof HWMON_ACPI_HEADER = 36" "sizeof HWMON_RSDP = 36"
  "sizeof HWMON_SMBIOS_ENTRY_32 = 31" "sizeof HWMON_SMBIOS_ENTRY_64 = 24"
  by (simp_all add: member_def HWMON_RSDP_def HWMON_ACPI_HEADER_def HWMON_SMBIOS_ENTRY_32_def
      HWMON_SMBIOS_ENTRY_64_def sizeof_def)

section \<open>The processor\<close>

lemma max_extended_reach: "0x80000004 \<le> max_extended c \<longleftrightarrow> 0x80000004 \<le> r_eax (cp_cpuid c 0x80000000 0)"
proof -
  let ?e = "r_eax (cp_cpuid c 0x80000000 0)"
  have "?e AND 0x80000000 \<noteq> 0" if "0x80000004 \<le> ?e"
  proof
    assume "?e AND 0x80000000 = 0"
    then have "\<not> bit ?e 31" using and_exp_eq_0_iff_not_bit [of ?e 31] by simp
    then have "take_bit 31 ?e = ?e"
      by (intro bit_word_eqI) (auto simp: bit_take_bit_iff less_Suc_eq numeral_eq_Suc)
    then have "unat ?e < 2 ^ 31" by (simp only: take_bit_self_iff)
    with that show False by (simp add: word_le_nat_alt)
  qed
  then show ?thesis by (auto simp: max_extended_def Let_def)
qed

lemma copy_regs_in:
  "length pre = off \<Longrightarrow> 16 \<le> length suf \<Longrightarrow> copy_regs r off (pre @ suf) = Some (pre @ words_of r @ drop 16 suf)"
  by (simp add: copy_regs_def words_of_def)

lemma uefi_brand:
  assumes "length brand0 = 49"
  shows "do { Brand \<leftarrow> copy_regs r2 0 brand0; Brand \<leftarrow> copy_regs r3 16 Brand; Brand \<leftarrow> copy_regs r4 32 Brand;
    Brand \<leftarrow> wr8 Brand 48 0; Some (Some Brand) } = Some (Some (words_of r2 @ words_of r3 @ words_of r4 @ [0]))"
proof -
  have l: "length (words_of r) = 16" for r by (simp add: words_of_def)
  have d: "drop 48 brand0 = [brand0 ! 48]" using assms by (simp add: Cons_nth_drop_Suc [symmetric])
  show ?thesis
    using assms copy_regs_in [of "[]" 0 brand0 r2] copy_regs_in [of "words_of r2" 16 "drop 16 brand0" r3]
      copy_regs_in [of "words_of r2 @ words_of r3" 32 "drop 32 brand0" r4]
    by (simp add: l d list_update_append)
qed

lemma uefi_features:
  "let f = features_of c mb me l1 vendor in
   [bit_at (r_edx l1) 25, bit_at (r_edx l1) 26, bit_at (r_ecx l1) 0, bit_at (r_ecx l1) 28, bit_at (r_ecx l1) 5,
     bit_at (r_ecx l1) 31] = [cf_sse f, cf_sse2 f, cf_sse3 f, cf_avx f, cf_vmx f, cf_hypervisor_present f]"
  by (simp add: feature_defs Let_def)

text \<open>
  C30. The pre-boot inventory and the native program agree about the processor. On a processor
  that has leaf 1, where the leaves used do not depend on a subleaf, both finish and report the
  same vendor string, family, model, stepping, brand string (or its absence) and the same six
  features; whatever the stack arrays held before, nothing of it is printed.
\<close>

theorem uefi_cpu_agrees:
  assumes "\<forall>leaf \<in> {0, 1, 0x80000000, 0x80000002, 0x80000003, 0x80000004}. A leaf = cp_cpuid c leaf 0"
    and "1 \<le> r_eax (cp_cpuid c 0 0)" and "length vendor0 = 13" and "length brand0 = 49"
  shows "\<exists>u out log. PrintCpuInfo A vendor0 brand0 = Some u \<and>
    run_state (cpu_id_collect c active info) [] = (Some out, log) \<and>
    uc_vendor u = ci_vendor_string out \<and> uc_family u = ci_family out \<and> uc_model u = ci_model out \<and>
    uc_stepping u = ci_stepping out \<and>
    uc_brand u = (if ci_brand_string_available out then Some (ci_brand_string out) else None) \<and>
    uc_features u = (let f = ci_features out in
      [cf_sse f, cf_sse2 f, cf_sse3 f, cf_avx f, cf_vmx f, cf_hypervisor_present f])"
proof -
  obtain out log where o: "run_state (cpu_id_collect c active info) [] = (Some out, log)"
    "ci_vendor_string out = le_bytes 4 (r_ebx (cp_cpuid c 0 0)) @ le_bytes 4 (r_edx (cp_cpuid c 0 0)) @
       le_bytes 4 (r_ecx (cp_cpuid c 0 0)) @ [0]"
    "(ci_family out, ci_model out, ci_stepping out) = decode_family_model_stepping (r_eax (cp_cpuid c 1 0))"
    "ci_features out = features_of c (r_eax (cp_cpuid c 0 0)) (max_extended c) (cp_cpuid c 1 0) (ci_vendor out)"
    "if 0x80000004 \<le> max_extended c
     then ci_brand_string_available out \<and> ci_brand_string out =
       words_of (cp_cpuid c 0x80000002 0) @ words_of (cp_cpuid c 0x80000003 0) @ words_of (cp_cpuid c 0x80000004 0) @ [0]
     else \<not> ci_brand_string_available out \<and> ci_brand_string out = zeros 49"
    using identity_result [OF assms(2), of active info] by blast
  have d12: "drop 12 vendor0 = [vendor0 ! 12]" using assms(3) by (simp add: Cons_nth_drop_Suc [symmetric])
  have sig: "uefi_signature x = decode_family_model_stepping x" for x
    by (simp add: uefi_signature_def decode_family_model_stepping_def)
  have sig': "uefi_signature (r_eax (cp_cpuid c 1 0)) = (ci_family out, ci_model out, ci_stepping out)"
    by (simp only: sig o(3))
  define u where "u = \<lparr>uc_vendor = ci_vendor_string out, uc_family = ci_family out, uc_model = ci_model out,
    uc_stepping = ci_stepping out,
    uc_features = (let f = ci_features out in [cf_sse f, cf_sse2 f, cf_sse3 f, cf_avx f, cf_vmx f, cf_hypervisor_present f]),
    uc_brand = (if ci_brand_string_available out then Some (ci_brand_string out) else None)\<rparr>"
  note feats = uefi_features [of c "r_eax (cp_cpuid c 0 0)" "max_extended c" "cp_cpuid c 1 0" "ci_vendor out", folded o(4)]
  have "PrintCpuInfo A vendor0 brand0 = Some u"
    using assms o(2,5) uefi_brand [OF assms(4)] feats
    by (cases "0x80000004 \<le> r_eax (cp_cpuid c 0x80000000 0)")
      (simp_all add: PrintCpuInfo_def sig' u_def max_extended_reach d12 list_update_append Let_def)
  with o(1) show ?thesis by (intro exI [of _ u] exI [of _ out] exI [of _ log]) (simp add: u_def)
qed

definition sample_cpu :: cpu where
  "sample_cpu = \<lparr>cp_cpuid = (\<lambda>leaf _. \<lparr>r_eax = (if leaf = 0 then 1 else leaf), r_ebx = 0x756E6547, r_ecx = 0x6C65746E,
     r_edx = 0x49656E69\<rparr>), cp_xcr = (\<lambda>_. 0)\<rparr>"

theorem uefi_cpu_agrees_witness:
  "\<exists>u out log. PrintCpuInfo (\<lambda>leaf. cp_cpuid sample_cpu leaf 0) (zeros 13) (zeros 49) = Some u \<and>
    run_state (cpu_id_collect sample_cpu 4 4) [] = (Some out, log) \<and> uc_vendor u = ci_vendor_string out \<and>
    uc_family u = ci_family out"
  using uefi_cpu_agrees [of "\<lambda>leaf. cp_cpuid sample_cpu leaf 0" sample_cpu "zeros 13" "zeros 49" 4 4]
  by (auto simp: sample_cpu_def)

section \<open>The memory map\<close>

definition is_usable :: "u32 \<Rightarrow> bool" where
  "is_usable ty \<longleftrightarrow> ty = EfiConventionalMemory \<or> ty = EfiBootServicesCode \<or> ty = EfiBootServicesData"

text \<open>The usable bytes of the descriptors from \<open>index\<close> on, as a number that does not wrap.\<close>

definition usable_bytes :: "bytes \<Rightarrow> nat \<Rightarrow> nat \<Rightarrow> nat \<Rightarrow> nat" where
  "usable_bytes buf DescSize index n =
     sum_list (map (\<lambda>i. if is_usable (le_word (take 4 (drop (i * DescSize) buf)))
       then unat (le_word (take 8 (drop (i * DescSize + 24) buf)) :: u64) * 4096 else 0) [index..<index + n])"

lemma usable_bytes_Suc:
  "usable_bytes buf DescSize index (Suc n) =
     (if is_usable (le_word (take 4 (drop (index * DescSize) buf)))
      then unat (le_word (take 8 (drop (index * DescSize + 24) buf)) :: u64) * 4096 else 0) +
     usable_bytes buf DescSize (Suc index) n"
  by (simp add: usable_bytes_def upt_conv_Cons del: upt_Suc)

lemma usable_loop_in:
  "32 \<le> DescSize \<Longrightarrow> (index + n) * DescSize \<le> length buf \<Longrightarrow>
     usable_loop buf DescSize index n acc = Some (acc + of_nat (usable_bytes buf DescSize index n))"
proof (induction n arbitrary: index acc)
  case 0
  show ?case by (simp add: usable_bytes_def)
next
  case (Suc n)
  have "Suc index * DescSize \<le> length buf"
    using Suc.prems(2) mult_le_mono1 [of "Suc index" "index + Suc n" DescSize] by linarith
  then have b: "index * DescSize + 32 \<le> length buf" using Suc.prems(1) by simp
  have IH: "usable_loop buf DescSize (Suc index) n a = Some (a + of_nat (usable_bytes buf DescSize (Suc index) n))" for a
    using Suc.prems by (intro Suc.IH) simp_all
  show ?case
    using b by (simp add: IH usable_bytes_Suc is_usable_def EFI_PAGE_SIZE_def add.assoc)
qed

text \<open>
  C31. The memory map is summed exactly. When the firmware fills the buffer it is given and no
  further, in descriptors of at least 32 bytes, the routine always ends, frees the buffer on
  every path on which it was allocated, reads only inside it, counts every whole descriptor and
  reports the usable bytes, taken modulo 2^64, in whole megabytes.
\<close>

theorem memory_map_exact:
  assumes "\<And>n. case bs_get_map bs n of (st, sz, desc, buf) \<Rightarrow>
    \<not> EFI_ERROR st \<longrightarrow> 32 \<le> unat desc \<and> sz \<le> n \<and> length buf = unat n"
  shows "\<exists>r h'. PrintMemoryMap bs h = Some (r, h') \<and> balanced h h' \<and>
    (case r of
       Map_ok count mb \<Rightarrow>
         (case bs_get_map bs (bs_probe_size bs + 2 * bs_probe_desc_size bs) of (st, sz, desc, buf) \<Rightarrow>
            unat count = unat sz div unat desc \<and>
            unat mb = usable_bytes buf (unat desc) 0 (unat count) mod 2 ^ 64 div 2 ^ 20)
     | _ \<Rightarrow> True)"
proof (cases "bs_probe_status bs = EFI_BUFFER_TOO_SMALL")
  case False
  then show ?thesis by (simp add: PrintMemoryMap_def)
next
  case True
  let ?n = "bs_probe_size bs + 2 * bs_probe_desc_size bs"
  obtain st sz desc buf where g: "bs_get_map bs ?n = (st, sz, desc, buf)" by (cases "bs_get_map bs ?n")
  obtain r h1 where m: "h_malloc (bs_alloc_ok bs) h = (r, h1)" by (cases "h_malloc (bs_alloc_ok bs) h")
  show ?thesis
  proof (cases r)
    case None
    with m True h_malloc_none [of "bs_alloc_ok bs" h h1] show ?thesis by (simp add: PrintMemoryMap_def Let_def)
  next
    case (Some b)
    then obtain h2 where f: "h_free b h1 = Some h2" "balanced h h2" using m h_malloc_owns owns_free by blast
    show ?thesis
    proof (cases "EFI_ERROR st")
      case True
      with m Some f g \<open>bs_probe_status bs = _\<close> show ?thesis by (simp add: PrintMemoryMap_def Let_def)
    next
      case False
      then have l: "32 \<le> unat desc" "unat sz \<le> unat ?n" "length buf = unat ?n"
        using assms [of ?n] g by (simp_all add: word_le_nat_alt)
      then have nz: "desc \<noteq> 0" by auto
      have c: "unat (sz div desc) = unat sz div unat desc" by (rule unat_div)
      have "unat sz div unat desc * unat desc \<le> length buf"
        using l div_times_less_eq_dividend [of "unat sz" "unat desc"] by linarith
      then have u: "usable_loop buf (unat desc) 0 (unat (sz div desc)) 0 =
          Some (of_nat (usable_bytes buf (unat desc) 0 (unat (sz div desc))))"
        using usable_loop_in [OF l(1), of 0 "unat sz div unat desc" buf 0] by (simp add: c)
      have mb: "unat ((of_nat k :: u64) div (1024 * 1024)) = k mod 2 ^ 64 div 2 ^ 20" for k
        by (simp add: unat_div unat_of_nat)
      show ?thesis
        using m Some f g False nz u mb c \<open>bs_probe_status bs = _\<close> by (simp add: PrintMemoryMap_def Let_def)
    qed
  qed
qed

definition sample_boot :: boot_services where
  "sample_boot = \<lparr>bs_probe_status = EFI_BUFFER_TOO_SMALL, bs_probe_size = 48, bs_probe_desc_size = 48,
     bs_get_map = (\<lambda>n. if n < 96 then (EFI_BUFFER_TOO_SMALL, 0, 0, []) else (0, 96, 48, zeros (unat n))),
     bs_alloc_ok = (\<lambda>_. True)\<rparr>"

theorem memory_map_exact_witness:
  "\<exists>r h'. PrintMemoryMap sample_boot \<lparr>hp_next = 0, hp_live = []\<rparr> = Some (r, h') \<and> hp_live h' = []"
proof -
  have "case bs_get_map sample_boot n of (st, sz, desc, buf) \<Rightarrow>
    \<not> EFI_ERROR st \<longrightarrow> 32 \<le> unat desc \<and> sz \<le> n \<and> length buf = unat n" for n
    by (simp add: sample_boot_def EFI_ERROR_def EFI_BUFFER_TOO_SMALL_def not_less)
  from memory_map_exact [OF this, of "\<lparr>hp_next = 0, hp_live = []\<rparr>"] show ?thesis
    by (auto simp: balanced_def)
qed

section \<open>The ACPI walk\<close>

text \<open>What the listing says of the table an XSDT entry at address \<open>a\<close> points to.\<close>

definition listed :: "phys \<Rightarrow> u64 \<Rightarrow> bytes \<times> u32 \<times> bool" where
  "listed mem a =
     (let T = le_word (region mem a 8); len = le_word (region mem (T + 4) 4) :: u32 in
      (region mem T 4, len, sum_list (region mem T (unat len)) = 0))"

definition table_mapped :: "phys \<Rightarrow> u64 \<Rightarrow> bool" where
  "table_mapped mem a \<longleftrightarrow>
     (let T = le_word (region mem a 8) in
      mapped mem T 36 \<and> mapped mem T (unat (le_word (region mem (T + 4) 4) :: u32)))"

lemma field_at: "mapped mem a m \<Longrightarrow> n \<le> m \<Longrightarrow> field mem a 0 n = Some (le_word (region mem a n))"
  using field_in [of mem a m 0 n] by simp

lemma table_loop_in:
  "mapped mem a (8 * n) \<Longrightarrow> \<forall>i < n. table_mapped mem (a + of_nat (8 * i)) \<Longrightarrow>
     table_loop mem a n = Some (map (\<lambda>i. listed mem (a + of_nat (8 * i))) [0..<n])"
proof (induction n arbitrary: a)
  case (Suc n)
  define T where "T = (le_word (region mem a 8) :: u64)"
  have m8: "mapped mem a 8" using Suc.prems(1) by (rule mapped_mono) simp
  have "mapped mem (a + of_nat 8) (8 * n)" using Suc.prems(1) by (rule mapped_shift) simp
  moreover have "\<forall>i < n. table_mapped mem (a + 8 + of_nat (8 * i))"
    using Suc.prems(2) by (auto simp: algebra_simps dest: spec [of _ "Suc _"])
  ultimately have IH: "table_loop mem (a + 8) n = Some (map (\<lambda>i. listed mem (a + 8 + of_nat (8 * i))) [0..<n])"
    by (intro Suc.IH) simp_all
  have "table_mapped mem (a + of_nat (8 * 0))" using Suc.prems(2) by blast
  then have t: "mapped mem T 36" "mapped mem T (unat (le_word (region mem (T + 4) 4) :: u32))"
    by (simp_all add: table_mapped_def Let_def T_def)
  have f: "field mem a 0 8 = Some T" using field_at [OF m8, of 8] by (simp add: T_def)
  have l: "field mem T 4 4 = Some (le_word (region mem (T + 4) 4) :: u32)" using field_in [OF t(1), of 4 4] by simp
  have sg: "phys_bytes mem T 4 = Some (region mem T 4)" by (intro phys_bytes_in mapped_mono [OF t(1)]) simp
  have "map (\<lambda>i. listed mem (a + of_nat (8 * i))) [0..<Suc n] =
      listed mem a # map (\<lambda>i. listed mem (a + 8 + of_nat (8 * i))) [0..<n]"
    by (simp add: upt_conv_Cons del: upt_Suc) (simp add: map_Suc_upt [symmetric] comp_def algebra_simps del: upt_Suc)
  moreover have "listed mem a = (region mem T 4, le_word (region mem (T + 4) 4),
      sum_list (region mem T (unat (le_word (region mem (T + 4) 4) :: u32))) = 0)"
    by (simp add: listed_def T_def Let_def)
  ultimately show ?case using f l sg IH ChecksumOk_in [OF t(2)] by simp
qed simp

text \<open>An entry in unmapped memory stops the walk with a fault.\<close>

lemma phys_bytes_fails: "\<not> mapped mem a n \<Longrightarrow> phys_bytes mem a n = None"
proof (induction n arbitrary: a)
  case (Suc n)
  then show ?case by (cases "mem a") (auto simp: mapped_Suc)
qed (simp add: mapped_def)

lemma table_loop_fails:
  "k < n \<Longrightarrow> \<not> mapped mem (a + of_nat (8 * k)) 8 \<Longrightarrow> table_loop mem a n = None"
proof (induction k arbitrary: a n)
  case 0
  then obtain m where "n = Suc m" by (cases n) auto
  with 0 show ?case by (simp add: field_def phys_bytes_fails)
next
  case (Suc k)
  then obtain m where m: "n = Suc m" "k < m" by (cases n) auto
  have e: "a + 8 + of_nat (8 * k) = a + of_nat (8 * Suc k)" by (simp add: algebra_simps)
  have "\<not> mapped mem (a + 8 + of_nat (8 * k)) 8" unfolding e by (rule Suc.prems(2))
  then have "table_loop mem (a + 8) m = None" by (rule Suc.IH [OF m(2)])
  then show ?case using m(1) by (simp add: Option.bind_eq_None_conv)
qed

text \<open>The addresses and lengths the walk takes from the root pointer.\<close>

definition rsdp_length :: "phys \<Rightarrow> u64 \<Rightarrow> u32" where
  "rsdp_length mem R = le_word (region mem (R + 20) 4)"

definition xsdt_address :: "phys \<Rightarrow> u64 \<Rightarrow> u64" where
  "xsdt_address mem R = le_word (region mem (R + 24) 8)"

definition xsdt_length :: "phys \<Rightarrow> u64 \<Rightarrow> u32" where
  "xsdt_length mem R = le_word (region mem (xsdt_address mem R + 4) 4)"

definition revision :: "phys \<Rightarrow> u64 \<Rightarrow> u8" where
  "revision mem R = le_word (region mem (R + 15) 1)"

definition root_mapped :: "phys \<Rightarrow> u64 \<Rightarrow> bool" where
  "root_mapped mem R \<longleftrightarrow> mapped mem R 36 \<and> mapped mem R (unat (rsdp_length mem R)) \<and>
     mapped mem (xsdt_address mem R) 36 \<and> mapped mem (xsdt_address mem R) (unat (xsdt_length mem R))"

definition root_valid :: "phys \<Rightarrow> u64 \<Rightarrow> bool" where
  "root_valid mem R \<longleftrightarrow> 2 \<le> revision mem R \<and> sum_list (region mem R 20) = 0 \<and>
     sum_list (region mem R (unat (rsdp_length mem R))) = 0 \<and>
     sum_list (region mem (xsdt_address mem R) (unat (xsdt_length mem R))) = 0"

lemma PrintAcpi_root:
  assumes "root_mapped mem R"
  shows "PrintAcpi mem R =
    (if revision mem R < 2 then Some (Acpi_1_only (sum_list (region mem R 20) = 0))
     else if \<not> (sum_list (region mem R 20) = 0 \<and> sum_list (region mem R (unat (rsdp_length mem R))) = 0)
       then Some (Rsdp_invalid (sum_list (region mem R 20) = 0) (sum_list (region mem R (unat (rsdp_length mem R))) = 0))
     else if sum_list (region mem (xsdt_address mem R) (unat (xsdt_length mem R))) \<noteq> 0 then Some Xsdt_invalid
     else let n = (ucast (xsdt_length mem R) - 36) div 8 in
       map_option (Xsdt_tables n) (table_loop mem (xsdt_address mem R + 36) (unat n)))"
proof -
  have m: "mapped mem R 36" "mapped mem R (unat (rsdp_length mem R))"
    "mapped mem (xsdt_address mem R) 36" "mapped mem (xsdt_address mem R) (unat (xsdt_length mem R))"
    using assms by (simp_all add: root_mapped_def)
  have m20: "mapped mem R 20" using m(1) by (rule mapped_mono) simp
  have f: "field mem R 15 1 = Some (revision mem R)" "field mem R 20 4 = Some (rsdp_length mem R)"
    "field mem R 24 8 = Some (xsdt_address mem R)" "field mem (xsdt_address mem R) 4 4 = Some (xsdt_length mem R)"
    using field_in [OF m(1), of 15 1] field_in [OF m(1), of 20 4] field_in [OF m(1), of 24 8] field_in [OF m(3), of 4 4]
    by (simp_all add: revision_def rsdp_length_def xsdt_address_def xsdt_length_def)
  show ?thesis
    unfolding PrintAcpi_def layouts f ChecksumOk_in [OF m20] ChecksumOk_in [OF m(2)] ChecksumOk_in [OF m(4)] bind.bind_lunit
      layouts of_nat_numeral Let_def
    by (simp add: map_conv_bind_option comp_def)
qed

text \<open>
  C13. The ACPI listing is exact and guarded. When the root pointer, the XSDT it names and the
  tables the XSDT names are mapped over the lengths they claim, and the XSDT is at least a
  header long, the walk never faults. It lists tables only behind a revision of at least 2, both
  root checksums and the XSDT's; then it lists one table per 8-byte entry, in order, each with
  its own signature, its length and whether its bytes sum to zero.
\<close>

theorem acpi_listing_exact:
  assumes "root_mapped mem R" and "36 \<le> unat (xsdt_length mem R)"
    and "\<forall>i < (unat (xsdt_length mem R) - 36) div 8. table_mapped mem (xsdt_address mem R + 36 + of_nat (8 * i))"
  shows "\<exists>r. PrintAcpi mem R = Some r \<and>
    ((\<exists>n ts. r = Xsdt_tables n ts) \<longleftrightarrow> root_valid mem R) \<and>
    (root_valid mem R \<longrightarrow> r = Xsdt_tables (of_nat ((unat (xsdt_length mem R) - 36) div 8))
      (map (\<lambda>i. listed mem (xsdt_address mem R + 36 + of_nat (8 * i))) [0..<(unat (xsdt_length mem R) - 36) div 8]))"
proof -
  let ?x = "xsdt_length mem R" and ?H = "xsdt_address mem R"
  let ?n = "(unat ?x - 36) div 8"
  have u: "unat (ucast ?x :: u64) = unat ?x" by (rule unat_ucast_upcast) simp
  then have "(36 :: u64) \<le> ucast ?x" using assms(2) by (simp add: word_le_nat_alt)
  then have n: "unat (((ucast ?x :: u64) - 36) div 8) = ?n" using u by (simp add: unat_div unat_sub)
  then have n': "((ucast ?x :: u64) - 36) div 8 = of_nat ?n" by (simp flip: n)
  have "mapped mem (?H + of_nat 36) (8 * ?n)"
    using assms(1,2) by (intro mapped_shift [of _ _ "unat ?x"]) (auto simp: root_mapped_def)
  then have t: "table_loop mem (?H + 36) ?n = Some (map (\<lambda>i. listed mem (?H + 36 + of_nat (8 * i))) [0..<?n])"
    using assms(3) by (intro table_loop_in) simp_all
  have lt: "revision mem R < 2 \<longleftrightarrow> \<not> 2 \<le> revision mem R" by (simp only: not_le)
  show ?thesis
    unfolding PrintAcpi_root [OF assms(1)] root_valid_def lt Let_def n using t
    by (auto simp: n')
qed

text \<open>A root pointer at 0, an XSDT at 64 with one entry, and the table that entry names at 128.\<close>

definition sample_mem :: phys where
  "sample_mem a =
     (if a = 8 then Some 0xFE else if a = 15 then Some 2 else if a = 24 then Some 64
      else if a = 68 then Some 44 else if a = 73 then Some 0x54 else if a = 100 then Some 128
      else if a = 132 then Some 36 else if a = 137 then Some 0xDC
      else if a < 256 then Some 0 else None)"

lemma mapped_below:
  "(\<And>w. w < 256 \<Longrightarrow> mem w \<noteq> None) \<Longrightarrow> a + n \<le> 256 \<Longrightarrow> mapped mem (of_nat a) n"
proof -
  assume m: "\<And>w. w < 256 \<Longrightarrow> mem w \<noteq> None" and l: "a + n \<le> 256"
  have "mem (of_nat (a + i)) \<noteq> None" if "i < n" for i
    using that l by (intro m) (simp only: word_less_nat_alt unat_of_nat, simp)
  then show ?thesis by (simp add: mapped_def)
qed

lemma sample_mapped: "a + n \<le> 256 \<Longrightarrow> mapped sample_mem (of_nat a) n"
  by (rule mapped_below) (simp_all add: sample_mem_def)

theorem acpi_listing_exact_witness:
  "PrintAcpi sample_mem 0 = Some (Xsdt_tables 1 [([0, 0, 0, 0], 36, True)])"
proof -
  have r: "region sample_mem a n = map (\<lambda>i. the (sample_mem (a + of_nat i))) [0..<n]" for a n by (rule region_def)
  have x: "xsdt_address sample_mem 0 = 64"
    by (simp add: xsdt_address_def region_def sample_mem_def upt_rec)
  have len: "rsdp_length sample_mem 0 = 0" "xsdt_length sample_mem 0 = 44" "revision sample_mem 0 = 2"
    by (simp_all add: rsdp_length_def xsdt_length_def x revision_def region_def sample_mem_def upt_rec)
  have root: "root_mapped sample_mem 0"
    using sample_mapped [of 0 36] sample_mapped [of 64 36] sample_mapped [of 64 44]
    by (simp add: root_mapped_def x len mapped_def)
  have tbl: "le_word (region sample_mem 100 8) = (128 :: u64)" "le_word (region sample_mem 132 4) = (36 :: u32)"
    by (simp_all add: region_def sample_mem_def upt_rec)
  have ent: "table_mapped sample_mem 100"
    using sample_mapped [of 128 36] by (simp add: table_mapped_def tbl Let_def)
  have valid: "root_valid sample_mem 0"
    by (simp add: root_valid_def x len) (simp add: region_def sample_mem_def upt_rec)
  have "\<forall>i < (unat (xsdt_length sample_mem 0) - 36) div 8.
      table_mapped sample_mem (xsdt_address sample_mem 0 + 36 + of_nat (8 * i))"
    using ent by (simp add: x len)
  from acpi_listing_exact [OF root _ this] valid have
    "PrintAcpi sample_mem 0 = Some (Xsdt_tables 1 [listed sample_mem 100])" by (simp add: x len)
  moreover have "listed sample_mem 100 = ([0, 0, 0, 0], 36, True)"
    by (simp add: listed_def tbl Let_def) (simp add: region_def sample_mem_def upt_rec)
  ultimately show ?thesis by simp
qed

text \<open>
  C32. A short XSDT makes the walk run away. The length is only used for the checksum: when an
  XSDT that passes it claims fewer than 36 bytes, the subtraction of the header size wraps, the
  listing takes almost 2^61 entries to follow, and the walk faults as soon as one of them lies
  in memory that is not mapped.
\<close>

theorem short_xsdt_overruns:
  assumes "root_mapped mem R" and "root_valid mem R" and "unat (xsdt_length mem R) < 36"
    and "k < 2 ^ 60" and "\<not> mapped mem (xsdt_address mem R + 36 + of_nat (8 * k)) 8"
  shows "PrintAcpi mem R = None"
proof -
  let ?x = "ucast (xsdt_length mem R) :: u64"
  have u: "unat ?x = unat (xsdt_length mem R)" by (rule unat_ucast_upcast) simp
  have "unat (?x - 36) = unat ?x + 2 ^ 64 - 36"
    using assms(3) u by (simp add: unat_sub_if')
  then have "2 ^ 60 \<le> unat ((?x - 36) div 8)" by (simp add: unat_div)
  with assms(4) have "k < unat ((?x - 36) div 8)" by simp
  then have "table_loop mem (xsdt_address mem R + 36) (unat ((?x - 36) div 8)) = None"
    by (rule table_loop_fails [OF _ assms(5)])
  with assms(2) show ?thesis
    unfolding PrintAcpi_root [OF assms(1)] Let_def by (auto simp: root_valid_def not_le [symmetric])
qed

definition short_mem :: phys where
  "short_mem a =
     (if a = 8 then Some 0xFE else if a = 15 then Some 2 else if a = 24 then Some 64
      else if a < 256 then Some 0 else None)"

theorem short_xsdt_overruns_witness: "PrintAcpi short_mem 0 = None"
proof -
  have x: "xsdt_address short_mem 0 = 64"
    by (simp add: xsdt_address_def region_def short_mem_def upt_rec)
  have len: "rsdp_length short_mem 0 = 0" "xsdt_length short_mem 0 = 0" "revision short_mem 0 = 2"
    by (simp_all add: rsdp_length_def xsdt_length_def x revision_def region_def short_mem_def upt_rec)
  have m: "mapped short_mem 0 36" "mapped short_mem 64 36"
    using mapped_below [of short_mem 0 36] mapped_below [of short_mem 64 36] by (simp_all add: short_mem_def)
  then have root: "root_mapped short_mem 0" by (simp add: root_mapped_def x len mapped_def)
  have valid: "root_valid short_mem 0"
    by (simp add: root_valid_def x len) (simp add: region_def short_mem_def upt_rec)
  have "\<not> mapped short_mem (64 + 36 + of_nat (8 * 20)) 8"
    by (simp add: mapped_def short_mem_def) (rule exI [of _ 0], simp)
  then show ?thesis
    using short_xsdt_overruns [OF root valid, of 20] by (simp add: x len)
qed

section \<open>The configuration table\<close>

definition tables_of :: "guid \<Rightarrow> (guid \<times> u64) list \<Rightarrow> u64 list" where
  "tables_of g cts = map snd (filter (\<lambda>c. fst c = g) cts)"

text \<open>The last table of the newer kind, else the first of the older one, else none.\<close>

definition preferred :: "guid \<Rightarrow> guid \<Rightarrow> (guid \<times> u64) list \<Rightarrow> u64" where
  "preferred new old cts =
     (if tables_of new cts \<noteq> [] then last (tables_of new cts)
      else case tables_of old cts of [] \<Rightarrow> 0 | t # _ \<Rightarrow> t)"

lemma tables_of_snoc: "tables_of g (cts @ [c]) = tables_of g cts @ (if fst c = g then [snd c] else [])"
  by (simp add: tables_of_def)

lemma preferred_0_iff:
  "0 \<notin> snd ` set cts \<Longrightarrow> preferred new old cts = 0 \<longleftrightarrow> tables_of new cts = [] \<and> tables_of old cts = []"
proof -
  assume a: "0 \<notin> snd ` set cts"
  have "0 \<notin> set (tables_of g cts)" for g using a by (auto simp: tables_of_def)
  from this [of new] this [of old] show ?thesis
    by (cases "tables_of old cts"; cases "tables_of new cts = []")
      (auto simp: preferred_def dest: last_in_set [of "tables_of new cts"])
qed

text \<open>
  The choice among configuration tables does not depend on their order beyond what is meant.
  When no entry has a NULL table, the search uses the ACPI 2.0 root pointer if there is one (the
  last) and otherwise the first ACPI 1.0 pointer, the SMBIOS 3 entry point if there is one (the
  last) and otherwise the first 32-bit one, and takes the entry point for a 64-bit one exactly
  when it is.
\<close>

theorem select_tables_exact:
  assumes "0 \<notin> snd ` set cts"
  shows "select_tables cts = (preferred gEfiAcpi20TableGuid gEfiAcpi10TableGuid cts,
    preferred gEfiSmbios3TableGuid gEfiSmbiosTableGuid cts, tables_of gEfiSmbios3TableGuid cts \<noteq> [])"
  using assms
proof (induction cts rule: rev_induct)
  case Nil
  show ?case by (simp add: select_tables_def preferred_def tables_of_def)
next
  case (snoc c cts)
  obtain g t where c: "c = (g, t)" by (cases c)
  have nz: "0 \<notin> snd ` set cts" using snoc.prems by auto
  have step: "select_tables (cts @ [c]) = select_step c (select_tables cts)" by (simp add: select_tables_def)
  note z = preferred_0_iff [OF nz, of gEfiAcpi20TableGuid gEfiAcpi10TableGuid]
    preferred_0_iff [OF nz, of gEfiSmbios3TableGuid gEfiSmbiosTableGuid]
  show ?case
    unfolding step snoc.IH [OF nz] unfolding c select_step.simps z
    by (cases g; cases "tables_of gEfiAcpi10TableGuid cts"; cases "tables_of gEfiSmbiosTableGuid cts")
      (auto simp: preferred_def tables_of_snoc)
qed

theorem select_tables_exact_witness:
  "select_tables [(gEfiSmbios3TableGuid, 9), (gEfiAcpi10TableGuid, 5), (gEfiSmbiosTableGuid, 7), (gEfiAcpi20TableGuid, 6)] =
     (6, 9, True)"
  using select_tables_exact [of "[(gEfiSmbios3TableGuid, 9), (gEfiAcpi10TableGuid, 5), (gEfiSmbiosTableGuid, 7), (gEfiAcpi20TableGuid, 6)]"]
  by (simp add: preferred_def tables_of_def)

end
