(* ===== verification/Vmcs.thy ===== *)
theory Vmcs
  imports HW_Prelude
begin

text \<open>
  The constants of \<open>driver/hv/hwmon_hv.c\<close>: the encodings of the VMCS fields, as the code defines
  them, the model-specific registers, and the table of all field names with their encodings.
\<close>

definition VMCS_GUEST_ES_SELECTOR :: u32 where "VMCS_GUEST_ES_SELECTOR = 0x0800"
definition VMCS_GUEST_CS_SELECTOR :: u32 where "VMCS_GUEST_CS_SELECTOR = 0x0802"
definition VMCS_GUEST_SS_SELECTOR :: u32 where "VMCS_GUEST_SS_SELECTOR = 0x0804"
definition VMCS_GUEST_DS_SELECTOR :: u32 where "VMCS_GUEST_DS_SELECTOR = 0x0806"
definition VMCS_GUEST_FS_SELECTOR :: u32 where "VMCS_GUEST_FS_SELECTOR = 0x0808"
definition VMCS_GUEST_GS_SELECTOR :: u32 where "VMCS_GUEST_GS_SELECTOR = 0x080A"
definition VMCS_GUEST_LDTR_SELECTOR :: u32 where "VMCS_GUEST_LDTR_SELECTOR = 0x080C"
definition VMCS_GUEST_TR_SELECTOR :: u32 where "VMCS_GUEST_TR_SELECTOR = 0x080E"
definition VMCS_HOST_ES_SELECTOR :: u32 where "VMCS_HOST_ES_SELECTOR = 0x0C00"
definition VMCS_HOST_CS_SELECTOR :: u32 where "VMCS_HOST_CS_SELECTOR = 0x0C02"
definition VMCS_HOST_SS_SELECTOR :: u32 where "VMCS_HOST_SS_SELECTOR = 0x0C04"
definition VMCS_HOST_DS_SELECTOR :: u32 where "VMCS_HOST_DS_SELECTOR = 0x0C06"
definition VMCS_HOST_FS_SELECTOR :: u32 where "VMCS_HOST_FS_SELECTOR = 0x0C08"
definition VMCS_HOST_GS_SELECTOR :: u32 where "VMCS_HOST_GS_SELECTOR = 0x0C0A"
definition VMCS_HOST_TR_SELECTOR :: u32 where "VMCS_HOST_TR_SELECTOR = 0x0C0C"
definition VMCS_MSR_BITMAP :: u32 where "VMCS_MSR_BITMAP = 0x2004"
definition VMCS_VMCS_LINK_POINTER :: u32 where "VMCS_VMCS_LINK_POINTER = 0x2800"
definition VMCS_PIN_BASED_CONTROLS :: u32 where "VMCS_PIN_BASED_CONTROLS = 0x4000"
definition VMCS_PROC_BASED_CONTROLS :: u32 where "VMCS_PROC_BASED_CONTROLS = 0x4002"
definition VMCS_EXCEPTION_BITMAP :: u32 where "VMCS_EXCEPTION_BITMAP = 0x4004"
definition VMCS_CR3_TARGET_COUNT :: u32 where "VMCS_CR3_TARGET_COUNT = 0x400A"
definition VMCS_EXIT_CONTROLS :: u32 where "VMCS_EXIT_CONTROLS = 0x400C"
definition VMCS_EXIT_MSR_STORE_COUNT :: u32 where "VMCS_EXIT_MSR_STORE_COUNT = 0x400E"
definition VMCS_EXIT_MSR_LOAD_COUNT :: u32 where "VMCS_EXIT_MSR_LOAD_COUNT = 0x4010"
definition VMCS_ENTRY_CONTROLS :: u32 where "VMCS_ENTRY_CONTROLS = 0x4012"
definition VMCS_ENTRY_MSR_LOAD_COUNT :: u32 where "VMCS_ENTRY_MSR_LOAD_COUNT = 0x4014"
definition VMCS_ENTRY_INTERRUPT_INFO :: u32 where "VMCS_ENTRY_INTERRUPT_INFO = 0x4016"
definition VMCS_ENTRY_INSTRUCTION_LEN :: u32 where "VMCS_ENTRY_INSTRUCTION_LEN = 0x401A"
definition VMCS_VM_INSTRUCTION_ERROR :: u32 where "VMCS_VM_INSTRUCTION_ERROR = 0x4400"
definition VMCS_VM_EXIT_REASON :: u32 where "VMCS_VM_EXIT_REASON = 0x4402"
definition VMCS_VM_EXIT_INSTRUCTION_LEN :: u32 where "VMCS_VM_EXIT_INSTRUCTION_LEN = 0x440C"
definition VMCS_GUEST_ES_LIMIT :: u32 where "VMCS_GUEST_ES_LIMIT = 0x4800"
definition VMCS_GUEST_CS_LIMIT :: u32 where "VMCS_GUEST_CS_LIMIT = 0x4802"
definition VMCS_GUEST_SS_LIMIT :: u32 where "VMCS_GUEST_SS_LIMIT = 0x4804"
definition VMCS_GUEST_DS_LIMIT :: u32 where "VMCS_GUEST_DS_LIMIT = 0x4806"
definition VMCS_GUEST_FS_LIMIT :: u32 where "VMCS_GUEST_FS_LIMIT = 0x4808"
definition VMCS_GUEST_GS_LIMIT :: u32 where "VMCS_GUEST_GS_LIMIT = 0x480A"
definition VMCS_GUEST_LDTR_LIMIT :: u32 where "VMCS_GUEST_LDTR_LIMIT = 0x480C"
definition VMCS_GUEST_TR_LIMIT :: u32 where "VMCS_GUEST_TR_LIMIT = 0x480E"
definition VMCS_GUEST_GDTR_LIMIT :: u32 where "VMCS_GUEST_GDTR_LIMIT = 0x4810"
definition VMCS_GUEST_IDTR_LIMIT :: u32 where "VMCS_GUEST_IDTR_LIMIT = 0x4812"
definition VMCS_GUEST_ES_ACCESS_RIGHTS :: u32 where "VMCS_GUEST_ES_ACCESS_RIGHTS = 0x4814"
definition VMCS_GUEST_CS_ACCESS_RIGHTS :: u32 where "VMCS_GUEST_CS_ACCESS_RIGHTS = 0x4816"
definition VMCS_GUEST_SS_ACCESS_RIGHTS :: u32 where "VMCS_GUEST_SS_ACCESS_RIGHTS = 0x4818"
definition VMCS_GUEST_DS_ACCESS_RIGHTS :: u32 where "VMCS_GUEST_DS_ACCESS_RIGHTS = 0x481A"
definition VMCS_GUEST_FS_ACCESS_RIGHTS :: u32 where "VMCS_GUEST_FS_ACCESS_RIGHTS = 0x481C"
definition VMCS_GUEST_GS_ACCESS_RIGHTS :: u32 where "VMCS_GUEST_GS_ACCESS_RIGHTS = 0x481E"
definition VMCS_GUEST_LDTR_ACCESS_RIGHTS :: u32 where "VMCS_GUEST_LDTR_ACCESS_RIGHTS = 0x4820"
definition VMCS_GUEST_TR_ACCESS_RIGHTS :: u32 where "VMCS_GUEST_TR_ACCESS_RIGHTS = 0x4822"
definition VMCS_GUEST_INTERRUPTIBILITY :: u32 where "VMCS_GUEST_INTERRUPTIBILITY = 0x4824"
definition VMCS_GUEST_ACTIVITY_STATE :: u32 where "VMCS_GUEST_ACTIVITY_STATE = 0x4826"
definition VMCS_GUEST_SYSENTER_CS :: u32 where "VMCS_GUEST_SYSENTER_CS = 0x482A"
definition VMCS_HOST_SYSENTER_CS :: u32 where "VMCS_HOST_SYSENTER_CS = 0x4C00"
definition VMCS_CR0_GUEST_HOST_MASK :: u32 where "VMCS_CR0_GUEST_HOST_MASK = 0x6000"
definition VMCS_CR4_GUEST_HOST_MASK :: u32 where "VMCS_CR4_GUEST_HOST_MASK = 0x6004"
definition VMCS_CR0_READ_SHADOW :: u32 where "VMCS_CR0_READ_SHADOW = 0x6008"
definition VMCS_CR4_READ_SHADOW :: u32 where "VMCS_CR4_READ_SHADOW = 0x600A"
definition VMCS_GUEST_CR0 :: u32 where "VMCS_GUEST_CR0 = 0x6800"
definition VMCS_GUEST_CR3 :: u32 where "VMCS_GUEST_CR3 = 0x6802"
definition VMCS_GUEST_CR4 :: u32 where "VMCS_GUEST_CR4 = 0x6804"
definition VMCS_GUEST_ES_BASE :: u32 where "VMCS_GUEST_ES_BASE = 0x6806"
definition VMCS_GUEST_CS_BASE :: u32 where "VMCS_GUEST_CS_BASE = 0x6808"
definition VMCS_GUEST_SS_BASE :: u32 where "VMCS_GUEST_SS_BASE = 0x680A"
definition VMCS_GUEST_DS_BASE :: u32 where "VMCS_GUEST_DS_BASE = 0x680C"
definition VMCS_GUEST_FS_BASE :: u32 where "VMCS_GUEST_FS_BASE = 0x680E"
definition VMCS_GUEST_GS_BASE :: u32 where "VMCS_GUEST_GS_BASE = 0x6810"
definition VMCS_GUEST_LDTR_BASE :: u32 where "VMCS_GUEST_LDTR_BASE = 0x6812"
definition VMCS_GUEST_TR_BASE :: u32 where "VMCS_GUEST_TR_BASE = 0x6814"
definition VMCS_GUEST_GDTR_BASE :: u32 where "VMCS_GUEST_GDTR_BASE = 0x6816"
definition VMCS_GUEST_IDTR_BASE :: u32 where "VMCS_GUEST_IDTR_BASE = 0x6818"
definition VMCS_GUEST_DR7 :: u32 where "VMCS_GUEST_DR7 = 0x681A"
definition VMCS_GUEST_RSP :: u32 where "VMCS_GUEST_RSP = 0x681C"
definition VMCS_GUEST_RIP :: u32 where "VMCS_GUEST_RIP = 0x681E"
definition VMCS_GUEST_RFLAGS :: u32 where "VMCS_GUEST_RFLAGS = 0x6820"
definition VMCS_GUEST_SYSENTER_ESP :: u32 where "VMCS_GUEST_SYSENTER_ESP = 0x6824"
definition VMCS_GUEST_SYSENTER_EIP :: u32 where "VMCS_GUEST_SYSENTER_EIP = 0x6826"
definition VMCS_HOST_CR0 :: u32 where "VMCS_HOST_CR0 = 0x6C00"
definition VMCS_HOST_CR3 :: u32 where "VMCS_HOST_CR3 = 0x6C02"
definition VMCS_HOST_CR4 :: u32 where "VMCS_HOST_CR4 = 0x6C04"
definition VMCS_HOST_FS_BASE :: u32 where "VMCS_HOST_FS_BASE = 0x6C06"
definition VMCS_HOST_GS_BASE :: u32 where "VMCS_HOST_GS_BASE = 0x6C08"
definition VMCS_HOST_TR_BASE :: u32 where "VMCS_HOST_TR_BASE = 0x6C0A"
definition VMCS_HOST_GDTR_BASE :: u32 where "VMCS_HOST_GDTR_BASE = 0x6C0C"
definition VMCS_HOST_IDTR_BASE :: u32 where "VMCS_HOST_IDTR_BASE = 0x6C0E"
definition VMCS_HOST_SYSENTER_ESP :: u32 where "VMCS_HOST_SYSENTER_ESP = 0x6C10"
definition VMCS_HOST_SYSENTER_EIP :: u32 where "VMCS_HOST_SYSENTER_EIP = 0x6C12"
definition VMCS_HOST_RSP :: u32 where "VMCS_HOST_RSP = 0x6C14"
definition VMCS_HOST_RIP :: u32 where "VMCS_HOST_RIP = 0x6C16"
definition IA32_FEATURE_CONTROL_MSR :: u32 where "IA32_FEATURE_CONTROL_MSR = 0x3A"
definition IA32_VMX_BASIC_MSR :: u32 where "IA32_VMX_BASIC_MSR = 0x480"
definition IA32_VMX_PINBASED_CTLS_MSR :: u32 where "IA32_VMX_PINBASED_CTLS_MSR = 0x481"
definition IA32_VMX_PROCBASED_CTLS_MSR :: u32 where "IA32_VMX_PROCBASED_CTLS_MSR = 0x482"
definition IA32_VMX_EXIT_CTLS_MSR :: u32 where "IA32_VMX_EXIT_CTLS_MSR = 0x483"
definition IA32_VMX_ENTRY_CTLS_MSR :: u32 where "IA32_VMX_ENTRY_CTLS_MSR = 0x484"
definition EXIT_REASON_CPUID :: u64 where "EXIT_REASON_CPUID = 10"
definition HV_HOST_STACK_SIZE :: u64 where "HV_HOST_STACK_SIZE = 16 * 1024"

definition vmcs_table :: "(string \<times> u32) list" where
  "vmcs_table = [
    (''VMCS_GUEST_ES_SELECTOR'', VMCS_GUEST_ES_SELECTOR),
    (''VMCS_GUEST_CS_SELECTOR'', VMCS_GUEST_CS_SELECTOR),
    (''VMCS_GUEST_SS_SELECTOR'', VMCS_GUEST_SS_SELECTOR),
    (''VMCS_GUEST_DS_SELECTOR'', VMCS_GUEST_DS_SELECTOR),
    (''VMCS_GUEST_FS_SELECTOR'', VMCS_GUEST_FS_SELECTOR),
    (''VMCS_GUEST_GS_SELECTOR'', VMCS_GUEST_GS_SELECTOR),
    (''VMCS_GUEST_LDTR_SELECTOR'', VMCS_GUEST_LDTR_SELECTOR),
    (''VMCS_GUEST_TR_SELECTOR'', VMCS_GUEST_TR_SELECTOR),
    (''VMCS_HOST_ES_SELECTOR'', VMCS_HOST_ES_SELECTOR),
    (''VMCS_HOST_CS_SELECTOR'', VMCS_HOST_CS_SELECTOR),
    (''VMCS_HOST_SS_SELECTOR'', VMCS_HOST_SS_SELECTOR),
    (''VMCS_HOST_DS_SELECTOR'', VMCS_HOST_DS_SELECTOR),
    (''VMCS_HOST_FS_SELECTOR'', VMCS_HOST_FS_SELECTOR),
    (''VMCS_HOST_GS_SELECTOR'', VMCS_HOST_GS_SELECTOR),
    (''VMCS_HOST_TR_SELECTOR'', VMCS_HOST_TR_SELECTOR),
    (''VMCS_MSR_BITMAP'', VMCS_MSR_BITMAP),
    (''VMCS_VMCS_LINK_POINTER'', VMCS_VMCS_LINK_POINTER),
    (''VMCS_PIN_BASED_CONTROLS'', VMCS_PIN_BASED_CONTROLS),
    (''VMCS_PROC_BASED_CONTROLS'', VMCS_PROC_BASED_CONTROLS),
    (''VMCS_EXCEPTION_BITMAP'', VMCS_EXCEPTION_BITMAP),
    (''VMCS_CR3_TARGET_COUNT'', VMCS_CR3_TARGET_COUNT),
    (''VMCS_EXIT_CONTROLS'', VMCS_EXIT_CONTROLS),
    (''VMCS_EXIT_MSR_STORE_COUNT'', VMCS_EXIT_MSR_STORE_COUNT),
    (''VMCS_EXIT_MSR_LOAD_COUNT'', VMCS_EXIT_MSR_LOAD_COUNT),
    (''VMCS_ENTRY_CONTROLS'', VMCS_ENTRY_CONTROLS),
    (''VMCS_ENTRY_MSR_LOAD_COUNT'', VMCS_ENTRY_MSR_LOAD_COUNT),
    (''VMCS_ENTRY_INTERRUPT_INFO'', VMCS_ENTRY_INTERRUPT_INFO),
    (''VMCS_ENTRY_INSTRUCTION_LEN'', VMCS_ENTRY_INSTRUCTION_LEN),
    (''VMCS_VM_INSTRUCTION_ERROR'', VMCS_VM_INSTRUCTION_ERROR),
    (''VMCS_VM_EXIT_REASON'', VMCS_VM_EXIT_REASON),
    (''VMCS_VM_EXIT_INSTRUCTION_LEN'', VMCS_VM_EXIT_INSTRUCTION_LEN),
    (''VMCS_GUEST_ES_LIMIT'', VMCS_GUEST_ES_LIMIT),
    (''VMCS_GUEST_CS_LIMIT'', VMCS_GUEST_CS_LIMIT),
    (''VMCS_GUEST_SS_LIMIT'', VMCS_GUEST_SS_LIMIT),
    (''VMCS_GUEST_DS_LIMIT'', VMCS_GUEST_DS_LIMIT),
    (''VMCS_GUEST_FS_LIMIT'', VMCS_GUEST_FS_LIMIT),
    (''VMCS_GUEST_GS_LIMIT'', VMCS_GUEST_GS_LIMIT),
    (''VMCS_GUEST_LDTR_LIMIT'', VMCS_GUEST_LDTR_LIMIT),
    (''VMCS_GUEST_TR_LIMIT'', VMCS_GUEST_TR_LIMIT),
    (''VMCS_GUEST_GDTR_LIMIT'', VMCS_GUEST_GDTR_LIMIT),
    (''VMCS_GUEST_IDTR_LIMIT'', VMCS_GUEST_IDTR_LIMIT),
    (''VMCS_GUEST_ES_ACCESS_RIGHTS'', VMCS_GUEST_ES_ACCESS_RIGHTS),
    (''VMCS_GUEST_CS_ACCESS_RIGHTS'', VMCS_GUEST_CS_ACCESS_RIGHTS),
    (''VMCS_GUEST_SS_ACCESS_RIGHTS'', VMCS_GUEST_SS_ACCESS_RIGHTS),
    (''VMCS_GUEST_DS_ACCESS_RIGHTS'', VMCS_GUEST_DS_ACCESS_RIGHTS),
    (''VMCS_GUEST_FS_ACCESS_RIGHTS'', VMCS_GUEST_FS_ACCESS_RIGHTS),
    (''VMCS_GUEST_GS_ACCESS_RIGHTS'', VMCS_GUEST_GS_ACCESS_RIGHTS),
    (''VMCS_GUEST_LDTR_ACCESS_RIGHTS'', VMCS_GUEST_LDTR_ACCESS_RIGHTS),
    (''VMCS_GUEST_TR_ACCESS_RIGHTS'', VMCS_GUEST_TR_ACCESS_RIGHTS),
    (''VMCS_GUEST_INTERRUPTIBILITY'', VMCS_GUEST_INTERRUPTIBILITY),
    (''VMCS_GUEST_ACTIVITY_STATE'', VMCS_GUEST_ACTIVITY_STATE),
    (''VMCS_GUEST_SYSENTER_CS'', VMCS_GUEST_SYSENTER_CS),
    (''VMCS_HOST_SYSENTER_CS'', VMCS_HOST_SYSENTER_CS),
    (''VMCS_CR0_GUEST_HOST_MASK'', VMCS_CR0_GUEST_HOST_MASK),
    (''VMCS_CR4_GUEST_HOST_MASK'', VMCS_CR4_GUEST_HOST_MASK),
    (''VMCS_CR0_READ_SHADOW'', VMCS_CR0_READ_SHADOW),
    (''VMCS_CR4_READ_SHADOW'', VMCS_CR4_READ_SHADOW),
    (''VMCS_GUEST_CR0'', VMCS_GUEST_CR0),
    (''VMCS_GUEST_CR3'', VMCS_GUEST_CR3),
    (''VMCS_GUEST_CR4'', VMCS_GUEST_CR4),
    (''VMCS_GUEST_ES_BASE'', VMCS_GUEST_ES_BASE),
    (''VMCS_GUEST_CS_BASE'', VMCS_GUEST_CS_BASE),
    (''VMCS_GUEST_SS_BASE'', VMCS_GUEST_SS_BASE),
    (''VMCS_GUEST_DS_BASE'', VMCS_GUEST_DS_BASE),
    (''VMCS_GUEST_FS_BASE'', VMCS_GUEST_FS_BASE),
    (''VMCS_GUEST_GS_BASE'', VMCS_GUEST_GS_BASE),
    (''VMCS_GUEST_LDTR_BASE'', VMCS_GUEST_LDTR_BASE),
    (''VMCS_GUEST_TR_BASE'', VMCS_GUEST_TR_BASE),
    (''VMCS_GUEST_GDTR_BASE'', VMCS_GUEST_GDTR_BASE),
    (''VMCS_GUEST_IDTR_BASE'', VMCS_GUEST_IDTR_BASE),
    (''VMCS_GUEST_DR7'', VMCS_GUEST_DR7),
    (''VMCS_GUEST_RSP'', VMCS_GUEST_RSP),
    (''VMCS_GUEST_RIP'', VMCS_GUEST_RIP),
    (''VMCS_GUEST_RFLAGS'', VMCS_GUEST_RFLAGS),
    (''VMCS_GUEST_SYSENTER_ESP'', VMCS_GUEST_SYSENTER_ESP),
    (''VMCS_GUEST_SYSENTER_EIP'', VMCS_GUEST_SYSENTER_EIP),
    (''VMCS_HOST_CR0'', VMCS_HOST_CR0),
    (''VMCS_HOST_CR3'', VMCS_HOST_CR3),
    (''VMCS_HOST_CR4'', VMCS_HOST_CR4),
    (''VMCS_HOST_FS_BASE'', VMCS_HOST_FS_BASE),
    (''VMCS_HOST_GS_BASE'', VMCS_HOST_GS_BASE),
    (''VMCS_HOST_TR_BASE'', VMCS_HOST_TR_BASE),
    (''VMCS_HOST_GDTR_BASE'', VMCS_HOST_GDTR_BASE),
    (''VMCS_HOST_IDTR_BASE'', VMCS_HOST_IDTR_BASE),
    (''VMCS_HOST_SYSENTER_ESP'', VMCS_HOST_SYSENTER_ESP),
    (''VMCS_HOST_SYSENTER_EIP'', VMCS_HOST_SYSENTER_EIP),
    (''VMCS_HOST_RSP'', VMCS_HOST_RSP),
    (''VMCS_HOST_RIP'', VMCS_HOST_RIP)]"

lemmas vmcs_constants =
  VMCS_GUEST_ES_SELECTOR_def
  VMCS_GUEST_CS_SELECTOR_def
  VMCS_GUEST_SS_SELECTOR_def
  VMCS_GUEST_DS_SELECTOR_def
  VMCS_GUEST_FS_SELECTOR_def
  VMCS_GUEST_GS_SELECTOR_def
  VMCS_GUEST_LDTR_SELECTOR_def
  VMCS_GUEST_TR_SELECTOR_def
  VMCS_HOST_ES_SELECTOR_def
  VMCS_HOST_CS_SELECTOR_def
  VMCS_HOST_SS_SELECTOR_def
  VMCS_HOST_DS_SELECTOR_def
  VMCS_HOST_FS_SELECTOR_def
  VMCS_HOST_GS_SELECTOR_def
  VMCS_HOST_TR_SELECTOR_def
  VMCS_MSR_BITMAP_def
  VMCS_VMCS_LINK_POINTER_def
  VMCS_PIN_BASED_CONTROLS_def
  VMCS_PROC_BASED_CONTROLS_def
  VMCS_EXCEPTION_BITMAP_def
  VMCS_CR3_TARGET_COUNT_def
  VMCS_EXIT_CONTROLS_def
  VMCS_EXIT_MSR_STORE_COUNT_def
  VMCS_EXIT_MSR_LOAD_COUNT_def
  VMCS_ENTRY_CONTROLS_def
  VMCS_ENTRY_MSR_LOAD_COUNT_def
  VMCS_ENTRY_INTERRUPT_INFO_def
  VMCS_ENTRY_INSTRUCTION_LEN_def
  VMCS_VM_INSTRUCTION_ERROR_def
  VMCS_VM_EXIT_REASON_def
  VMCS_VM_EXIT_INSTRUCTION_LEN_def
  VMCS_GUEST_ES_LIMIT_def
  VMCS_GUEST_CS_LIMIT_def
  VMCS_GUEST_SS_LIMIT_def
  VMCS_GUEST_DS_LIMIT_def
  VMCS_GUEST_FS_LIMIT_def
  VMCS_GUEST_GS_LIMIT_def
  VMCS_GUEST_LDTR_LIMIT_def
  VMCS_GUEST_TR_LIMIT_def
  VMCS_GUEST_GDTR_LIMIT_def
  VMCS_GUEST_IDTR_LIMIT_def
  VMCS_GUEST_ES_ACCESS_RIGHTS_def
  VMCS_GUEST_CS_ACCESS_RIGHTS_def
  VMCS_GUEST_SS_ACCESS_RIGHTS_def
  VMCS_GUEST_DS_ACCESS_RIGHTS_def
  VMCS_GUEST_FS_ACCESS_RIGHTS_def
  VMCS_GUEST_GS_ACCESS_RIGHTS_def
  VMCS_GUEST_LDTR_ACCESS_RIGHTS_def
  VMCS_GUEST_TR_ACCESS_RIGHTS_def
  VMCS_GUEST_INTERRUPTIBILITY_def
  VMCS_GUEST_ACTIVITY_STATE_def
  VMCS_GUEST_SYSENTER_CS_def
  VMCS_HOST_SYSENTER_CS_def
  VMCS_CR0_GUEST_HOST_MASK_def
  VMCS_CR4_GUEST_HOST_MASK_def
  VMCS_CR0_READ_SHADOW_def
  VMCS_CR4_READ_SHADOW_def
  VMCS_GUEST_CR0_def
  VMCS_GUEST_CR3_def
  VMCS_GUEST_CR4_def
  VMCS_GUEST_ES_BASE_def
  VMCS_GUEST_CS_BASE_def
  VMCS_GUEST_SS_BASE_def
  VMCS_GUEST_DS_BASE_def
  VMCS_GUEST_FS_BASE_def
  VMCS_GUEST_GS_BASE_def
  VMCS_GUEST_LDTR_BASE_def
  VMCS_GUEST_TR_BASE_def
  VMCS_GUEST_GDTR_BASE_def
  VMCS_GUEST_IDTR_BASE_def
  VMCS_GUEST_DR7_def
  VMCS_GUEST_RSP_def
  VMCS_GUEST_RIP_def
  VMCS_GUEST_RFLAGS_def
  VMCS_GUEST_SYSENTER_ESP_def
  VMCS_GUEST_SYSENTER_EIP_def
  VMCS_HOST_CR0_def
  VMCS_HOST_CR3_def
  VMCS_HOST_CR4_def
  VMCS_HOST_FS_BASE_def
  VMCS_HOST_GS_BASE_def
  VMCS_HOST_TR_BASE_def
  VMCS_HOST_GDTR_BASE_def
  VMCS_HOST_IDTR_BASE_def
  VMCS_HOST_SYSENTER_ESP_def
  VMCS_HOST_SYSENTER_EIP_def
  VMCS_HOST_RSP_def
  VMCS_HOST_RIP_def

end
