(* ===== verification/Hypervisor.thy ===== *)
theory Hypervisor
  imports Vmcs
begin

text \<open>
  \<open>driver/hv/hwmon_hv.c\<close>: the VT-x skeleton, from feature detection to the attempted launch, and
  its VM-exit handler. Properties are in \<open>Hypervisor_Correct\<close>.

  The machine is a parameter (\<open>machine\<close>): what CPUID, the model-specific registers, the control
  and segment registers and the descriptor tables hold, and how each VMX instruction ends. The
  state is the part of the processor the code changes; an instruction the processor would
  refuse in that state (a VMX instruction outside VMX operation, VMXON without CR4.VMXE) is
  \<open>None\<close>, and so is a read of memory that is not mapped.
\<close>

section \<open>Data\<close>

record HV_GUEST_REGISTERS =
  R15 :: u64
  R14 :: u64
  R13 :: u64
  R12 :: u64
  R11 :: u64
  R10 :: u64
  R9 :: u64
  R8 :: u64
  Rdi :: u64
  Rsi :: u64
  Rbp :: u64
  Rbx :: u64
  Rdx :: u64
  Rcx :: u64
  Rax :: u64

record HV_DESCRIPTOR_TABLE_REGISTER =
  Limit :: u16
  Base :: u64

definition PAGE_SIZE :: u64 where "PAGE_SIZE = 4096"

text \<open>\<open>HV_STATE\<close>: offsets of its members from the address of the allocation.\<close>

definition VmxonRegion :: "u64 \<Rightarrow> u64" where "VmxonRegion hv = hv"
definition VmcsRegion :: "u64 \<Rightarrow> u64" where "VmcsRegion hv = hv + PAGE_SIZE"
definition HostStack :: "u64 \<Rightarrow> u64" where "HostStack hv = hv + 2 * PAGE_SIZE"

text \<open>
  The processor the code runs on, and the outcome of the instructions that can fail. \<open>m_setup_at\<close> is
  where the compiled code of each statement of \<open>SetupVmcsFields\<close> begins, counted from 0.
\<close>

record machine =
  m_cpuid :: "u32 \<Rightarrow> u32 \<Rightarrow> u32 \<times> u32 \<times> u32 \<times> u32"
  m_msr :: "u32 \<Rightarrow> u64"
  m_mem :: "u64 \<Rightarrow> u8 option"
  m_es :: u16
  m_cs :: u16
  m_ss :: u16
  m_ds :: u16
  m_fs :: u16
  m_gs :: u16
  m_ldtr :: u16
  m_tr :: u16
  m_gdtr :: HV_DESCRIPTOR_TABLE_REGISTER
  m_idtr :: HV_DESCRIPTOR_TABLE_REGISTER
  m_cr0 :: u64
  m_cr3 :: u64
  m_ctx_rsp :: u64
  m_setup_at :: "nat \<Rightarrow> u64"
  m_ctx_eflags :: u32
  m_exit_handler :: u64
  m_alloc_ok :: "nat \<Rightarrow> bool"
  m_alloc_address :: "nat \<Rightarrow> u64"
  m_vmxon_result :: nat
  m_vmclear_result :: nat
  m_vmptrld_result :: nat
  m_launch_enters :: bool
  m_vmread :: "u32 \<Rightarrow> u64"

text \<open>The state: CR4, VMX operation, the current VMCS with the writes made to it, \<open>g_HvState\<close>
  with its heap block, the revision identifiers stored in the two regions, and the heap.\<close>

record hv_state =
  hs_cr4 :: u64
  hs_vmx_on :: bool
  hs_current :: bool
  hs_vmcs :: "(u32 \<times> u64) list"
  hs_state :: "(nat \<times> u64) option"
  hs_revisions :: "(u32 \<times> u32) option"
  hs_heap :: heap

section \<open>Detection\<close>

definition VmxIsSupportedByCpuid :: "machine \<Rightarrow> bool" where
  "VmxIsSupportedByCpuid m = (case m_cpuid m 1 0 of (eax, ebx, ecx, edx) \<Rightarrow> ecx AND push_bit 5 1 \<noteq> 0)"

definition VmxIsEnabledByBios :: "machine \<Rightarrow> bool" where
  "VmxIsEnabledByBios m =
     (let FeatureControl = m_msr m IA32_FEATURE_CONTROL_MSR;
          Locked = (FeatureControl AND 1 \<noteq> 0);
          VmxOutsideSmx = (FeatureControl AND push_bit 2 1 \<noteq> 0) in
      Locked \<and> VmxOutsideSmx)"

section \<open>Segments and controls\<close>

definition ComputeSegmentAccessRights :: "(u64 \<Rightarrow> u8 option) \<Rightarrow> u64 \<Rightarrow> u16 \<Rightarrow> u32 option" where
  "ComputeSegmentAccessRights mem GdtBase Selector =
     (if Selector = 0 then Some 0x10000
      else
        do { let Descriptor = GdtBase + ucast (Selector AND NOT 7);
             b5 \<leftarrow> mem (Descriptor + 5);
             b6 \<leftarrow> mem (Descriptor + 6);
             Some (ucast b5 OR push_bit 8 (ucast b6 AND 0xF0)) })"

definition ComputeSegmentBase :: "(u64 \<Rightarrow> u8 option) \<Rightarrow> u64 \<Rightarrow> u16 \<Rightarrow> bool \<Rightarrow> u64 option" where
  "ComputeSegmentBase mem GdtBase Selector IsTr =
     (if Selector = 0 then Some 0
      else
        do { let Descriptor = GdtBase + ucast (Selector AND NOT 7);
             b2 \<leftarrow> mem (Descriptor + 2);
             b3 \<leftarrow> mem (Descriptor + 3);
             b4 \<leftarrow> mem (Descriptor + 4);
             b7 \<leftarrow> mem (Descriptor + 7);
             let Base = ucast b2 OR push_bit 8 (ucast b3) OR push_bit 16 (ucast b4) OR push_bit 24 (ucast b7);
             if IsTr then
               do { b8 \<leftarrow> mem (Descriptor + 8);
                    b9 \<leftarrow> mem (Descriptor + 9);
                    b10 \<leftarrow> mem (Descriptor + 10);
                    b11 \<leftarrow> mem (Descriptor + 11);
                    let BaseHigh = (le_word [b8, b9, b10, b11] :: u32);
                    Some (Base OR push_bit 32 (ucast BaseHigh)) }
             else Some Base })"

text \<open>The result is the truth value returned and \<open>*Out\<close>.\<close>

definition AdjustControlValue :: "machine \<Rightarrow> u32 \<Rightarrow> u32 \<Rightarrow> bool \<times> u32" where
  "AdjustControlValue m Msr Desired =
     (let Value = m_msr m Msr;
          Allowed0 = ucast Value;
          Allowed1 = ucast (drop_bit 32 Value);
          Result = (Desired OR Allowed0) AND Allowed1 in
      (True, Result))"

section \<open>The exit handler\<close>

text \<open>The fields of the current VMCS the handler reads and writes.\<close>

record exit_state =
  ex_reason :: u64
  ex_instruction_len :: u64
  ex_guest_rip :: u64

definition HvHandleVmExit :: "machine \<Rightarrow> HV_GUEST_REGISTERS \<Rightarrow> exit_state \<Rightarrow> u8 \<times> HV_GUEST_REGISTERS \<times> exit_state" where
  "HvHandleVmExit m Regs vs =
     (let ExitReason = ex_reason vs in
      if ExitReason AND 0xFFFF \<noteq> EXIT_REASON_CPUID then (1, Regs, vs)
      else
        (case m_cpuid m (ucast (Rax Regs)) (ucast (Rcx Regs)) of
           (a, b, c, d) \<Rightarrow>
             let Regs = Regs\<lparr>Rax := ucast a, Rbx := ucast b, Rcx := ucast c, Rdx := ucast d\<rparr>;
                 InstrLen = ex_instruction_len vs;
                 Rip = ex_guest_rip vs in
             (0, Regs, vs\<lparr>ex_guest_rip := Rip + InstrLen\<rparr>)))"

section \<open>Filling the VMCS\<close>

text \<open>
  The local variables of \<open>SetupVmcsFields\<close>, not set at its start, and the expressions whose values
  it writes: constants, selector reads (those of the LDTR by SLDT), members of the locals, segment
  computations, register reads, the host's stack and handler, and adjusted controls.
\<close>

record CONTEXT =
  Ctx_Rsp :: u64
  Ctx_Rip :: u64
  Ctx_EFlags :: u32

record setup_locals =
  lo_Gdtr :: "HV_DESCRIPTOR_TABLE_REGISTER option"
  lo_Idtr :: "HV_DESCRIPTOR_TABLE_REGISTER option"
  lo_Tr :: "u16 option"
  lo_Ctx :: "CONTEXT option"

definition setup_locals0 :: setup_locals where
  "setup_locals0 = \<lparr>lo_Gdtr = None, lo_Idtr = None, lo_Tr = None, lo_Ctx = None\<rparr>"

datatype vmcs_value =
  Const u64
| Selector "machine \<Rightarrow> u16"
| Selector_of_ldtr
| Selector_of_tr
| Host_selector "machine \<Rightarrow> u16"
| Host_selector_of_tr
| Gdtr_Limit
| Gdtr_Base
| Idtr_Limit
| Idtr_Base
| Rights "machine \<Rightarrow> u16"
| Rights_of_tr
| Base_of_tr
| Msr u32
| Msr_low u32
| Cr0
| Cr3
| Cr4
| Rsp_of_ctx
| Rip_of_ctx
| EFlags_of_ctx
| Host_stack_top
| Exit_handler
| Adjusted u32 u32

text \<open>
  \<open>hv\<close> is \<open>g_HvState\<close> and \<open>cr4\<close> the value of CR4 at that moment; \<open>(UINT32)__readmsr(0x174)\<close> is the low
  half of the register.
\<close>

fun value_of :: "machine \<Rightarrow> u64 \<Rightarrow> u64 \<Rightarrow> setup_locals \<Rightarrow> vmcs_value \<Rightarrow> u64 option" where
  "value_of m hv cr4 l (Const c) = Some c"
| "value_of m hv cr4 l (Selector r) = Some (ucast (r m))"
| "value_of m hv cr4 l Selector_of_ldtr = Some (ucast (m_ldtr m))"
| "value_of m hv cr4 l Selector_of_tr = map_option ucast (lo_Tr l)"
| "value_of m hv cr4 l (Host_selector r) = Some (ucast (r m AND 0xF8))"
| "value_of m hv cr4 l Host_selector_of_tr = map_option (\<lambda>tr. ucast (tr AND 0xF8)) (lo_Tr l)"
| "value_of m hv cr4 l Gdtr_Limit = map_option (\<lambda>g. ucast (Limit g)) (lo_Gdtr l)"
| "value_of m hv cr4 l Gdtr_Base = map_option Base (lo_Gdtr l)"
| "value_of m hv cr4 l Idtr_Limit = map_option (\<lambda>i. ucast (Limit i)) (lo_Idtr l)"
| "value_of m hv cr4 l Idtr_Base = map_option Base (lo_Idtr l)"
| "value_of m hv cr4 l (Rights r) =
     do { g \<leftarrow> lo_Gdtr l; map_option ucast (ComputeSegmentAccessRights (m_mem m) (Base g) (r m)) }"
| "value_of m hv cr4 l Rights_of_tr =
     do { g \<leftarrow> lo_Gdtr l; tr \<leftarrow> lo_Tr l; map_option ucast (ComputeSegmentAccessRights (m_mem m) (Base g) tr) }"
| "value_of m hv cr4 l Base_of_tr =
     do { g \<leftarrow> lo_Gdtr l; tr \<leftarrow> lo_Tr l; ComputeSegmentBase (m_mem m) (Base g) tr True }"
| "value_of m hv cr4 l (Msr r) = Some (m_msr m r)"
| "value_of m hv cr4 l (Msr_low r) = Some (ucast (ucast (m_msr m r) :: u32))"
| "value_of m hv cr4 l Cr0 = Some (m_cr0 m)"
| "value_of m hv cr4 l Cr3 = Some (m_cr3 m)"
| "value_of m hv cr4 l Cr4 = Some cr4"
| "value_of m hv cr4 l Rsp_of_ctx = map_option Ctx_Rsp (lo_Ctx l)"
| "value_of m hv cr4 l Rip_of_ctx = map_option Ctx_Rip (lo_Ctx l)"
| "value_of m hv cr4 l EFlags_of_ctx = map_option (\<lambda>c. ucast (Ctx_EFlags c)) (lo_Ctx l)"
| "value_of m hv cr4 l Host_stack_top = Some (HostStack hv + HV_HOST_STACK_SIZE - 0x20)"
| "value_of m hv cr4 l Exit_handler = Some (m_exit_handler m)"
| "value_of m hv cr4 l (Adjusted r desired) = Some (ucast (snd (AdjustControlValue m r desired)))"

text \<open>The writes of \<open>SetupVmcsFields\<close>, in order: field and expression.\<close>

type_synonym vmcs_writes = "(u32 \<times> vmcs_value) list"

definition guest_selector_writes :: vmcs_writes where
  "guest_selector_writes = [
     (VMCS_GUEST_ES_SELECTOR, Selector m_es), (VMCS_GUEST_CS_SELECTOR, Selector m_cs),
     (VMCS_GUEST_SS_SELECTOR, Selector m_ss), (VMCS_GUEST_DS_SELECTOR, Selector m_ds),
     (VMCS_GUEST_FS_SELECTOR, Selector m_fs), (VMCS_GUEST_GS_SELECTOR, Selector m_gs),
     (VMCS_GUEST_LDTR_SELECTOR, Selector_of_ldtr), (VMCS_GUEST_TR_SELECTOR, Selector_of_tr)]"

definition guest_limit_writes :: vmcs_writes where
  "guest_limit_writes = [
     (VMCS_GUEST_ES_LIMIT, Const 0xFFFFFFFF), (VMCS_GUEST_CS_LIMIT, Const 0xFFFFFFFF),
     (VMCS_GUEST_SS_LIMIT, Const 0xFFFFFFFF), (VMCS_GUEST_DS_LIMIT, Const 0xFFFFFFFF),
     (VMCS_GUEST_FS_LIMIT, Const 0xFFFFFFFF), (VMCS_GUEST_GS_LIMIT, Const 0xFFFFFFFF),
     (VMCS_GUEST_LDTR_LIMIT, Const 0), (VMCS_GUEST_TR_LIMIT, Const 0x67),
     (VMCS_GUEST_GDTR_LIMIT, Gdtr_Limit), (VMCS_GUEST_IDTR_LIMIT, Idtr_Limit)]"

definition guest_rights_writes :: vmcs_writes where
  "guest_rights_writes = [
     (VMCS_GUEST_ES_ACCESS_RIGHTS, Rights m_es), (VMCS_GUEST_CS_ACCESS_RIGHTS, Rights m_cs),
     (VMCS_GUEST_SS_ACCESS_RIGHTS, Rights m_ss), (VMCS_GUEST_DS_ACCESS_RIGHTS, Rights m_ds),
     (VMCS_GUEST_FS_ACCESS_RIGHTS, Rights m_fs), (VMCS_GUEST_GS_ACCESS_RIGHTS, Rights m_gs),
     (VMCS_GUEST_LDTR_ACCESS_RIGHTS, Const 0x10000), (VMCS_GUEST_TR_ACCESS_RIGHTS, Rights_of_tr)]"

definition guest_base_writes :: vmcs_writes where
  "guest_base_writes = [
     (VMCS_GUEST_ES_BASE, Const 0), (VMCS_GUEST_CS_BASE, Const 0), (VMCS_GUEST_SS_BASE, Const 0),
     (VMCS_GUEST_DS_BASE, Const 0), (VMCS_GUEST_FS_BASE, Msr 0xC0000100), (VMCS_GUEST_GS_BASE, Msr 0xC0000101),
     (VMCS_GUEST_LDTR_BASE, Const 0), (VMCS_GUEST_TR_BASE, Base_of_tr), (VMCS_GUEST_GDTR_BASE, Gdtr_Base),
     (VMCS_GUEST_IDTR_BASE, Idtr_Base)]"

definition guest_register_writes :: vmcs_writes where
  "guest_register_writes = [
     (VMCS_GUEST_CR0, Cr0), (VMCS_GUEST_CR3, Cr3), (VMCS_GUEST_CR4, Cr4), (VMCS_GUEST_DR7, Const 0x400),
     (VMCS_GUEST_RSP, Rsp_of_ctx), (VMCS_GUEST_RIP, Rip_of_ctx), (VMCS_GUEST_RFLAGS, EFlags_of_ctx),
     (VMCS_GUEST_SYSENTER_CS, Msr_low 0x174), (VMCS_GUEST_SYSENTER_ESP, Msr 0x175), (VMCS_GUEST_SYSENTER_EIP, Msr 0x176),
     (VMCS_GUEST_INTERRUPTIBILITY, Const 0), (VMCS_GUEST_ACTIVITY_STATE, Const 0),
     (VMCS_VMCS_LINK_POINTER, Const 0xFFFFFFFFFFFFFFFF)]"

definition host_selector_writes :: vmcs_writes where
  "host_selector_writes = [
     (VMCS_HOST_ES_SELECTOR, Host_selector m_es), (VMCS_HOST_CS_SELECTOR, Host_selector m_cs),
     (VMCS_HOST_SS_SELECTOR, Host_selector m_ss), (VMCS_HOST_DS_SELECTOR, Host_selector m_ds),
     (VMCS_HOST_FS_SELECTOR, Host_selector m_fs), (VMCS_HOST_GS_SELECTOR, Host_selector m_gs),
     (VMCS_HOST_TR_SELECTOR, Host_selector_of_tr)]"

definition host_register_writes :: vmcs_writes where
  "host_register_writes = [
     (VMCS_HOST_CR0, Cr0), (VMCS_HOST_CR3, Cr3), (VMCS_HOST_CR4, Cr4), (VMCS_HOST_FS_BASE, Msr 0xC0000100),
     (VMCS_HOST_GS_BASE, Msr 0xC0000101), (VMCS_HOST_TR_BASE, Base_of_tr), (VMCS_HOST_GDTR_BASE, Gdtr_Base),
     (VMCS_HOST_IDTR_BASE, Idtr_Base), (VMCS_HOST_SYSENTER_CS, Msr_low 0x174), (VMCS_HOST_SYSENTER_ESP, Msr 0x175),
     (VMCS_HOST_SYSENTER_EIP, Msr 0x176), (VMCS_HOST_RSP, Host_stack_top), (VMCS_HOST_RIP, Exit_handler)]"

definition control_writes :: vmcs_writes where
  "control_writes = [
     (VMCS_PIN_BASED_CONTROLS, Adjusted IA32_VMX_PINBASED_CTLS_MSR 0),
     (VMCS_PROC_BASED_CONTROLS, Adjusted IA32_VMX_PROCBASED_CTLS_MSR 0),
     (VMCS_EXIT_CONTROLS, Adjusted IA32_VMX_EXIT_CTLS_MSR (push_bit 9 1)),
     (VMCS_ENTRY_CONTROLS, Adjusted IA32_VMX_ENTRY_CTLS_MSR (push_bit 9 1)),
     (VMCS_EXCEPTION_BITMAP, Const 0), (VMCS_CR3_TARGET_COUNT, Const 0), (VMCS_EXIT_MSR_STORE_COUNT, Const 0),
     (VMCS_EXIT_MSR_LOAD_COUNT, Const 0), (VMCS_ENTRY_MSR_LOAD_COUNT, Const 0), (VMCS_ENTRY_INTERRUPT_INFO, Const 0),
     (VMCS_ENTRY_INSTRUCTION_LEN, Const 0), (VMCS_CR0_GUEST_HOST_MASK, Const 0), (VMCS_CR4_GUEST_HOST_MASK, Const 0),
     (VMCS_CR0_READ_SHADOW, Cr0), (VMCS_CR4_READ_SHADOW, Cr4)]"

definition setup_writes :: vmcs_writes where
  "setup_writes = guest_selector_writes @ guest_limit_writes @ guest_rights_writes @ guest_base_writes @
     guest_register_writes @ host_selector_writes @ host_register_writes @ control_writes"

text \<open>The statements of the routine.\<close>

datatype setup_statement =
  Read_Gdtr
| Read_Idtr
| Read_Tr
| Capture_Context
| Vmwrite u32 vmcs_value
| Return bool

definition SetupVmcsFields_body :: "setup_statement list" where
  "SetupVmcsFields_body = [Read_Gdtr, Read_Idtr, Read_Tr, Capture_Context] @
     map (\<lambda>(field, v). Vmwrite field v) setup_writes @ [Return True]"

section \<open>VMX instructions\<close>

text \<open>
  The status returned is 0 for success. The status of VMWRITE is ignored by the code; it is taken to
  succeed, as it does for a field the processor supports.
\<close>

definition vmx_on :: "machine \<Rightarrow> hv_state \<Rightarrow> (nat \<times> hv_state) option" where
  "vmx_on m s =
     (if \<not> bit (hs_cr4 s) 13 \<or> hs_vmx_on s then None
      else Some (m_vmxon_result m, s\<lparr>hs_vmx_on := (m_vmxon_result m = 0)\<rparr>))"

definition vmx_off :: "hv_state \<Rightarrow> hv_state option" where
  "vmx_off s = (if hs_vmx_on s then Some (s\<lparr>hs_vmx_on := False, hs_current := False\<rparr>) else None)"

definition vmx_vmclear :: "machine \<Rightarrow> hv_state \<Rightarrow> (nat \<times> hv_state) option" where
  "vmx_vmclear m s =
     (if hs_vmx_on s
      then Some (m_vmclear_result m, s\<lparr>hs_vmcs := (if m_vmclear_result m = 0 then [] else hs_vmcs s)\<rparr>) else None)"

definition vmx_vmptrld :: "machine \<Rightarrow> hv_state \<Rightarrow> (nat \<times> hv_state) option" where
  "vmx_vmptrld m s =
     (if hs_vmx_on s then Some (m_vmptrld_result m, s\<lparr>hs_current := (m_vmptrld_result m = 0)\<rparr>) else None)"

definition vmx_vmwrite :: "u32 \<Rightarrow> u64 \<Rightarrow> hv_state \<Rightarrow> hv_state option" where
  "vmx_vmwrite field v s = (if hs_vmx_on s \<and> hs_current s then Some (s\<lparr>hs_vmcs := hs_vmcs s @ [(field, v)]\<rparr>) else None)"

definition vmx_vmread :: "machine \<Rightarrow> u32 \<Rightarrow> hv_state \<Rightarrow> u64 option" where
  "vmx_vmread m field s = (if hs_vmx_on s \<and> hs_current s then Some (m_vmread m field) else None)"

text \<open>A launch that enters the guest does not return.\<close>

definition vmx_vmlaunch :: "machine \<Rightarrow> hv_state \<Rightarrow> bool option" where
  "vmx_vmlaunch m s = (if hs_vmx_on s \<and> hs_current s then Some (m_launch_enters m) else None)"

section \<open>The launch\<close>

datatype launch_result = Entered_guest | Returned_FALSE

text \<open>
  \<open>SetupVmcsFields\<close>, statement by statement. \<open>RtlCaptureContext\<close> records as instruction pointer the
  address it returns to, the code of the next statement; a variable used before it is set is
  \<open>None\<close>.
\<close>

fun run_setup :: "machine \<Rightarrow> u64 \<Rightarrow> nat \<Rightarrow> setup_statement list \<Rightarrow> setup_locals \<Rightarrow> hv_state \<Rightarrow> (bool \<times> hv_state) option" where
  "run_setup m hv k [] l s = None"
| "run_setup m hv k (Read_Gdtr # rest) l s = run_setup m hv (Suc k) rest (l\<lparr>lo_Gdtr := Some (m_gdtr m)\<rparr>) s"
| "run_setup m hv k (Read_Idtr # rest) l s = run_setup m hv (Suc k) rest (l\<lparr>lo_Idtr := Some (m_idtr m)\<rparr>) s"
| "run_setup m hv k (Read_Tr # rest) l s = run_setup m hv (Suc k) rest (l\<lparr>lo_Tr := Some (m_tr m)\<rparr>) s"
| "run_setup m hv k (Capture_Context # rest) l s =
     run_setup m hv (Suc k) rest
       (l\<lparr>lo_Ctx := Some \<lparr>Ctx_Rsp = m_ctx_rsp m, Ctx_Rip = m_setup_at m (Suc k), Ctx_EFlags = m_ctx_eflags m\<rparr>\<rparr>) s"
| "run_setup m hv k (Vmwrite field e # rest) l s =
     do { v \<leftarrow> value_of m hv (hs_cr4 s) l e; s \<leftarrow> vmx_vmwrite field v s; run_setup m hv (Suc k) rest l s }"
| "run_setup m hv k (Return r # rest) l s = Some (r, s)"

definition SetupVmcsFields :: "machine \<Rightarrow> u64 \<Rightarrow> hv_state \<Rightarrow> (bool \<times> hv_state) option" where
  "SetupVmcsFields m hv s = run_setup m hv 0 SetupVmcsFields_body setup_locals0 s"

text \<open>\<open>MmFreeContiguousMemory(g_HvState); g_HvState = NULL;\<close> and the exit after it.\<close>

definition release :: "hv_state \<Rightarrow> (launch_result \<times> hv_state) option" where
  "release s =
     (case hs_state s of
        None \<Rightarrow> None
      | Some (b, hv) \<Rightarrow>
          do { h \<leftarrow> h_free b (hs_heap s);
               Some (Returned_FALSE, s\<lparr>hs_heap := h, hs_state := None\<rparr>) })"

definition off_and_release :: "hv_state \<Rightarrow> (launch_result \<times> hv_state) option" where
  "off_and_release s = do { s \<leftarrow> vmx_off s; release s }"

text \<open>From VMCLEAR on.\<close>

definition launch_vmcs :: "machine \<Rightarrow> u64 \<Rightarrow> hv_state \<Rightarrow> (launch_result \<times> hv_state) option" where
  "launch_vmcs m hv s =
     do { (r, s) \<leftarrow> vmx_vmclear m s;
          if r \<noteq> 0 then off_and_release s
          else do {
            (r, s) \<leftarrow> vmx_vmptrld m s;
            if r \<noteq> 0 then off_and_release s
            else do {
              (ok, s) \<leftarrow> SetupVmcsFields m hv s;
              if \<not> ok then off_and_release s
              else do {
                entered \<leftarrow> vmx_vmlaunch m s;
                if entered then Some (Entered_guest, s)
                else do {
                  ErrorCode \<leftarrow> vmx_vmread m VMCS_VM_INSTRUCTION_ERROR s;
                  off_and_release s } } } } }"

definition HvTryLaunch :: "machine \<Rightarrow> hv_state \<Rightarrow> (launch_result \<times> hv_state) option" where
  "HvTryLaunch m s =
     (if \<not> VmxIsSupportedByCpuid m then Some (Returned_FALSE, s)
      else if \<not> VmxIsEnabledByBios m then Some (Returned_FALSE, s)
      else
        case h_malloc (m_alloc_ok m) (hs_heap s) of
          (None, h) \<Rightarrow> Some (Returned_FALSE, s\<lparr>hs_heap := h, hs_state := None\<rparr>)
        | (Some b, h) \<Rightarrow>
            let hv = m_alloc_address m b;
                s = s\<lparr>hs_heap := h, hs_state := Some (b, hv)\<rparr> in
            if VmxonRegion hv mod PAGE_SIZE \<noteq> 0 \<or> VmcsRegion hv mod PAGE_SIZE \<noteq> 0 then release s
            else do {
              let RevisionId = ucast (m_msr m IA32_VMX_BASIC_MSR);
              let s = s\<lparr>hs_revisions := Some (RevisionId, RevisionId)\<rparr>;
              let s = s\<lparr>hs_cr4 := hs_cr4 s OR push_bit 13 1\<rparr>;
              (r, s) \<leftarrow> vmx_on m s;
              if r \<noteq> 0 then release s
              else launch_vmcs m hv s })"

section \<open>The driver\<close>

text \<open>
  \<open>hwmon_hv_driver.c\<close>: loading the driver installs its unload routine and never launches. The
  state is whether an unload routine is set, and the machine's.
\<close>

definition HwmonHvUnload :: "bool \<times> hv_state \<Rightarrow> bool \<times> hv_state" where
  "HwmonHvUnload ds = ds"

definition HvDriverEntry :: "bool \<times> hv_state \<Rightarrow> u32 \<times> bool \<times> hv_state" where
  "HvDriverEntry ds = (0, True, snd ds)"

end
