(* ===== verification/Hypervisor_Correct.thy ===== *)
theory Hypervisor_Correct
  imports Hypervisor
begin

text \<open>
  Correctness of the hypervisor skeleton: the launch and its cleanup, the contents of the VMCS,
  the adjustment of controls, the decoding of segment descriptors, and the exit handler seen as
  one half of a machine that alternates between guest and host.
\<close>

section \<open>Controls\<close>

text \<open>The architecture's demand on a control word, given the two halves of its capability register.\<close>

definition control_allowed :: "u64 \<Rightarrow> u32 \<Rightarrow> bool" where
  "control_allowed capability v \<longleftrightarrow>
     (\<forall>n < 32. (bit capability n \<longrightarrow> bit v n) \<and> (bit v n \<longrightarrow> bit capability (n + 32)))"

definition bits_within :: "u32 \<Rightarrow> u32 \<Rightarrow> bool" where
  "bits_within v w \<longleftrightarrow> (\<forall>n. bit v n \<longrightarrow> bit w n)"

lemma adjust_bit:
  "bit (snd (AdjustControlValue m r d)) n \<longleftrightarrow> n < 32 \<and> (bit d n \<or> bit (m_msr m r) n) \<and> bit (m_msr m r) (n + 32)"
  by (auto simp: AdjustControlValue_def Let_def bit_simps add.commute dest: bit_imp_le_length)

text \<open>
  C33. Adjusting a control refines the architecture's rule. For a capability register whose
  required bits are all allowed, the value is one the processor accepts, it has every desired bit
  that is allowed, and it is the least such value: no other bit is turned on.
\<close>

theorem adjust_control_refines:
  assumes "\<forall>n < 32. bit (m_msr m r) n \<longrightarrow> bit (m_msr m r) (n + 32)"
  shows "let v = snd (AdjustControlValue m r desired); allowed = (ucast (drop_bit 32 (m_msr m r)) :: u32) in
    fst (AdjustControlValue m r desired) \<and> control_allowed (m_msr m r) v \<and> bits_within (desired AND allowed) v \<and>
    (\<forall>w. control_allowed (m_msr m r) w \<and> bits_within (desired AND allowed) w \<longrightarrow> bits_within v w)"
proof -
  let ?v = "snd (AdjustControlValue m r desired)" and ?a = "ucast (drop_bit 32 (m_msr m r)) :: u32"
  have a: "bit ?a n \<longleftrightarrow> n < 32 \<and> bit (m_msr m r) (n + 32)" for n
    by (auto simp: bit_simps add.commute dest: bit_imp_le_length)
  have "control_allowed (m_msr m r) ?v" using assms by (simp add: control_allowed_def adjust_bit)
  moreover have "bits_within (desired AND ?a) ?v" by (auto simp: bits_within_def adjust_bit bit_and_iff a)
  moreover have "bits_within ?v w" if "control_allowed (m_msr m r) w" "bits_within (desired AND ?a) w" for w
    using that by (auto simp: bits_within_def adjust_bit bit_and_iff a control_allowed_def)
  moreover have "fst (AdjustControlValue m r desired)" by (simp add: AdjustControlValue_def Let_def)
  ultimately show ?thesis by (simp add: Let_def)
qed

section \<open>Segment descriptors\<close>

text \<open>An 8-byte descriptor from its parts, and the upper half of a system descriptor.\<close>

definition descriptor_bytes :: "u32 \<Rightarrow> u32 \<Rightarrow> u8 \<Rightarrow> u8 \<Rightarrow> bytes" where
  "descriptor_bytes base limit access flags =
     le_bytes 2 limit @ le_bytes 3 base @ [access, ucast (drop_bit 16 limit) AND 0xF OR push_bit 4 flags,
       ucast (drop_bit 24 base)]"

definition descriptor_at :: "(u64 \<Rightarrow> u8 option) \<Rightarrow> u64 \<Rightarrow> u16 \<Rightarrow> bytes \<Rightarrow> bool" where
  "descriptor_at mem gdt sel bs \<longleftrightarrow>
     (\<forall>i < length bs. mem (gdt + ucast (sel AND NOT 7) + of_nat i) = Some (bs ! i))"

lemma descriptor_byte:
  "descriptor_at mem gdt sel bs \<Longrightarrow> i < length bs \<Longrightarrow> mem (gdt + ucast (sel AND NOT 7) + of_nat i) = Some (bs ! i)"
  by (simp add: descriptor_at_def)

lemma four_bytes:
  "ucast (ucast x :: u8) OR push_bit 8 (ucast (ucast (drop_bit 8 x) :: u8)) OR
   push_bit 16 (ucast (ucast (drop_bit 16 x) :: u8)) OR push_bit 24 (ucast (ucast (drop_bit 24 x) :: u8)) =
   (ucast (x :: u32) :: u64)"
proof (rule bit_word_eqI)
  fix n :: nat
  assume "n < LENGTH(64)"
  consider "n < 8" | "8 \<le> n \<and> n < 16" | "16 \<le> n \<and> n < 24" | "24 \<le> n \<and> n < 32" | "32 \<le> n" by linarith
  then show "bit (ucast (ucast x :: u8) OR push_bit 8 (ucast (ucast (drop_bit 8 x) :: u8)) OR
      push_bit 16 (ucast (ucast (drop_bit 16 x) :: u8)) OR push_bit 24 (ucast (ucast (drop_bit 24 x) :: u8)) :: u64) n =
    bit (ucast x :: u64) n"
    using \<open>n < LENGTH(64)\<close> bit_imp_le_length [of x n] by cases (auto simp: bit_simps)
qed

text \<open>
  C35. Segment descriptors are decoded exactly. For every base, limit, access byte and flags, the
  descriptor a non-null selector names gives back as access rights the access byte with the
  flags above it, and as base the 32-bit base, extended for the task register by the upper half
  in the next eight bytes.
\<close>

theorem segment_descriptor_roundtrip:
  assumes "sel \<noteq> 0"
    and "descriptor_at mem gdt sel (descriptor_bytes base limit access flags @ le_bytes 4 high @ [0, 0, 0, 0])"
  shows "ComputeSegmentAccessRights mem gdt sel =
      Some (ucast access OR push_bit 12 (take_bit 4 (ucast flags))) \<and>
    ComputeSegmentBase mem gdt sel False = Some (ucast base) \<and>
    ComputeSegmentBase mem gdt sel True = Some (ucast base OR push_bit 32 (ucast (high :: u32)))"
proof (intro conjI)
  define bs where "bs = descriptor_bytes base limit access flags @ le_bytes 4 high @ [0, 0, 0, 0]"
  have e: "bs = [ucast limit, ucast (drop_bit 8 limit), ucast base, ucast (drop_bit 8 base), ucast (drop_bit 16 base),
      access, ucast (drop_bit 16 limit) AND 0xF OR push_bit 4 flags, ucast (drop_bit 24 base),
      ucast high, ucast (drop_bit 8 high), ucast (drop_bit 16 high), ucast (drop_bit 24 high), 0, 0, 0, 0]"
    by (simp add: bs_def descriptor_bytes_def le_bytes_numeral)
  note at = descriptor_byte [OF assms(2) [folded bs_def]]
  let ?d = "gdt + ucast (sel AND NOT 7)"
  have b: "mem (?d + 2) = Some (ucast base)" "mem (?d + 3) = Some (ucast (drop_bit 8 base))"
    "mem (?d + 4) = Some (ucast (drop_bit 16 base))" "mem (?d + 5) = Some access"
    "mem (?d + 6) = Some (ucast (drop_bit 16 limit) AND 0xF OR push_bit 4 flags)"
    "mem (?d + 7) = Some (ucast (drop_bit 24 base))"
    "mem (?d + 8) = Some (ucast high)" "mem (?d + 9) = Some (ucast (drop_bit 8 high))"
    "mem (?d + 10) = Some (ucast (drop_bit 16 high))" "mem (?d + 11) = Some (ucast (drop_bit 24 high))"
    using at [of 2] at [of 3] at [of 4] at [of 5] at [of 6] at [of 7] at [of 8] at [of 9] at [of 10] at [of 11]
    by (simp_all add: e)
  have f: "push_bit 8 (ucast (ucast (drop_bit 16 limit) AND 0xF OR push_bit 4 flags :: u8) AND 0xF0) =
      push_bit 12 (take_bit 4 (ucast flags :: u32))"
  proof (rule bit_word_eqI)
    fix n :: nat
    assume n: "n < LENGTH(32)"
    have m: "(0xF :: u8) = mask 4" "(0xF0 :: u32) = push_bit 4 (mask 4)" by (simp_all add: mask_eq_exp_minus_1)
    show "bit (push_bit 8 (ucast (ucast (drop_bit 16 limit) AND 0xF OR push_bit 4 flags :: u8) AND 0xF0) :: u32) n =
        bit (push_bit 12 (take_bit 4 (ucast flags :: u32))) n"
      unfolding m using n by (auto simp: bit_simps)
  qed
  show "ComputeSegmentAccessRights mem gdt sel = Some (ucast access OR push_bit 12 (take_bit 4 (ucast flags)))"
    using assms(1) b f by (simp add: ComputeSegmentAccessRights_def Let_def)
  show "ComputeSegmentBase mem gdt sel False = Some (ucast base)"
    using assms(1) b four_bytes [of base] by (simp add: ComputeSegmentBase_def Let_def)
  have h: "le_word [ucast high, ucast (drop_bit 8 high), ucast (drop_bit 16 high), ucast (drop_bit 24 high)] = high"
    using le_word_le_bytes_full [of 4 high] by (simp add: le_bytes_numeral)
  show "ComputeSegmentBase mem gdt sel True = Some (ucast base OR push_bit 32 (ucast high))"
    using assms(1) b four_bytes [of base] h by (simp add: ComputeSegmentBase_def Let_def)
qed

definition sample_gdt :: "u64 \<Rightarrow> u8 option" where
  "sample_gdt a = (if 8 \<le> a \<and> a < 24 then Some ((descriptor_bytes 0x12345678 0xFFFFF 0x8B 0x2 @ le_bytes 4 (0xFFFFF801 :: u32) @
     [0, 0, 0, 0]) ! (unat a - 8)) else None)"

theorem segment_descriptor_roundtrip_witness:
  "ComputeSegmentAccessRights sample_gdt 0 8 = Some 0x208B \<and>
   ComputeSegmentBase sample_gdt 0 8 True = Some 0xFFFFF80112345678"
proof -
  let ?bs = "descriptor_bytes 0x12345678 0xFFFFF 0x8B 0x2 @ le_bytes 4 (0xFFFFF801 :: u32) @ [0, 0, 0, 0]"
  have "sample_gdt (0 + ucast ((8 :: u16) AND NOT 7) + of_nat i) = Some (?bs ! i)" if "i < 16" for i
  proof -
    have u: "unat (8 + of_nat i :: u64) = 8 + i" using that by (simp add: unat_word_ariths unat_of_nat)
    then have "8 \<le> (8 + of_nat i :: u64)" "(8 + of_nat i :: u64) < 24" using that by (simp_all add: word_le_nat_alt word_less_nat_alt)
    then show ?thesis using u by (simp add: sample_gdt_def)
  qed
  then have "descriptor_at sample_gdt 0 8 ?bs" by (simp add: descriptor_at_def descriptor_bytes_def)
  from segment_descriptor_roundtrip [OF _ this] show ?thesis by simp
qed

section \<open>Running the setup\<close>

text \<open>The values of a list of writes, all computed from the same locals.\<close>

fun written :: "machine \<Rightarrow> u64 \<Rightarrow> u64 \<Rightarrow> setup_locals \<Rightarrow> vmcs_writes \<Rightarrow> (u32 \<times> u64) list option" where
  "written m hv cr4 l [] = Some []"
| "written m hv cr4 l ((field, e) # ws) =
     do { v \<leftarrow> value_of m hv cr4 l e; vs \<leftarrow> written m hv cr4 l ws; Some ((field, v) # vs) }"

lemma written_fields: "written m hv cr4 l ws = Some vs \<Longrightarrow> map fst vs = map fst ws"
  by (induction ws arbitrary: vs) (auto simp: bind_eq_Some_conv)

lemma written_lookup:
  "written m hv cr4 l ws = Some vs \<Longrightarrow> map_of vs f = Option.bind (map_of ws f) (value_of m hv cr4 l)"
  by (induction ws arbitrary: vs) (auto simp: bind_eq_Some_conv)

lemma written_total: "list_all (\<lambda>w. value_of m hv cr4 l (snd w) \<noteq> None) ws \<Longrightarrow> \<exists>vs. written m hv cr4 l ws = Some vs"
  by (induction ws) auto

text \<open>The locals after the first four statements, and the writes made with them.\<close>

definition captured :: "machine \<Rightarrow> setup_locals" where
  "captured m = \<lparr>lo_Gdtr = Some (m_gdtr m), lo_Idtr = Some (m_idtr m), lo_Tr = Some (m_tr m),
     lo_Ctx = Some \<lparr>Ctx_Rsp = m_ctx_rsp m, Ctx_Rip = m_setup_at m 4, Ctx_EFlags = m_ctx_eflags m\<rparr>\<rparr>"

definition vmcs_writes :: "machine \<Rightarrow> u64 \<Rightarrow> u64 \<Rightarrow> (u32 \<times> u64) list option" where
  "vmcs_writes m hv cr4 = written m hv cr4 (captured m) setup_writes"

definition host_registers :: "machine \<Rightarrow> u64 \<Rightarrow> u64 \<Rightarrow> (u32 \<times> u64) list option" where
  "host_registers m hv cr4 = written m hv cr4 (captured m) host_register_writes"

lemma host_registers_eq:
  "host_registers m hv cr4 =
     do { tr \<leftarrow> ComputeSegmentBase (m_mem m) (Base (m_gdtr m)) (m_tr m) True;
          Some [(VMCS_HOST_CR0, m_cr0 m), (VMCS_HOST_CR3, m_cr3 m), (VMCS_HOST_CR4, cr4),
            (VMCS_HOST_FS_BASE, m_msr m 0xC0000100), (VMCS_HOST_GS_BASE, m_msr m 0xC0000101),
            (VMCS_HOST_TR_BASE, tr), (VMCS_HOST_GDTR_BASE, Base (m_gdtr m)), (VMCS_HOST_IDTR_BASE, Base (m_idtr m)),
            (VMCS_HOST_SYSENTER_CS, ucast (ucast (m_msr m 0x174) :: u32)),
            (VMCS_HOST_SYSENTER_ESP, m_msr m 0x175), (VMCS_HOST_SYSENTER_EIP, m_msr m 0x176),
            (VMCS_HOST_RSP, HostStack hv + HV_HOST_STACK_SIZE - 0x20), (VMCS_HOST_RIP, m_exit_handler m)] }"
  by (cases "ComputeSegmentBase (m_mem m) (Base (m_gdtr m)) (m_tr m) True")
    (simp_all add: host_registers_def host_register_writes_def captured_def)

lemma run_setup_writes:
  assumes "hs_vmx_on s" and "hs_current s"
  shows "run_setup m hv k (map (\<lambda>(field, v). Vmwrite field v) ws @ rest) l s =
    (case written m hv (hs_cr4 s) l ws of
       None \<Rightarrow> None
     | Some vs \<Rightarrow> run_setup m hv (k + length ws) rest l (s\<lparr>hs_vmcs := hs_vmcs s @ vs\<rparr>))"
  using assms
proof (induction ws arbitrary: k s)
  case (Cons w ws)
  obtain f e where w: "w = (f, e)" by fastforce
  show ?case
  proof (cases "value_of m hv (hs_cr4 s) l e")
    case None
    then show ?thesis by (simp add: w)
  next
    case (Some v)
    have "run_setup m hv (Suc k) (map (\<lambda>(field, v). Vmwrite field v) ws @ rest) l (s\<lparr>hs_vmcs := hs_vmcs s @ [(f, v)]\<rparr>) =
        (case written m hv (hs_cr4 s) l ws of None \<Rightarrow> None
         | Some vs \<Rightarrow> run_setup m hv (Suc k + length ws) rest l (s\<lparr>hs_vmcs := (hs_vmcs s @ [(f, v)]) @ vs\<rparr>))"
      using Cons.IH [of "s\<lparr>hs_vmcs := hs_vmcs s @ [(f, v)]\<rparr>" "Suc k"] Cons.prems
      by (cases "written m hv (hs_cr4 s) l ws") simp_all
    with Some Cons.prems show ?thesis by (simp add: w vmx_vmwrite_def split: option.split)
  qed
qed simp

text \<open>With a current VMCS the routine makes exactly those writes and returns TRUE.\<close>

lemma SetupVmcsFields_run:
  assumes "hs_vmx_on s" and "hs_current s"
  shows "SetupVmcsFields m hv s =
    map_option (\<lambda>ws. (True, s\<lparr>hs_vmcs := hs_vmcs s @ ws\<rparr>)) (vmcs_writes m hv (hs_cr4 s))"
proof -
  have "SetupVmcsFields m hv s =
      run_setup m hv 4 (map (\<lambda>(field, v). Vmwrite field v) setup_writes @ [Return True]) (captured m) s"
    by (simp add: SetupVmcsFields_def SetupVmcsFields_body_def setup_locals0_def captured_def eval_nat_numeral)
  then show ?thesis
    by (simp only: run_setup_writes [OF assms] vmcs_writes_def) (simp split: option.split)
qed

definition segments_mapped :: "machine \<Rightarrow> bool" where
  "segments_mapped m \<longleftrightarrow> (\<forall>sel \<in> {m_es m, m_cs m, m_ss m, m_ds m, m_fs m, m_gs m, m_tr m}. \<forall>i < 12.
     m_mem m (Base (m_gdtr m) + ucast (sel AND NOT 7) + of_nat i) \<noteq> None)"

lemma rights_mapped:
  assumes "\<forall>i < 12. mem (gdt + ucast (sel AND NOT 7) + of_nat i) \<noteq> None"
  shows "\<exists>r. ComputeSegmentAccessRights mem gdt sel = Some r"
  using assms [rule_format, of 5] assms [rule_format, of 6]
  by (auto simp: ComputeSegmentAccessRights_def Let_def)

lemma base_mapped:
  assumes "\<forall>i < 12. mem (gdt + ucast (sel AND NOT 7) + of_nat i) \<noteq> None"
  shows "\<exists>b. ComputeSegmentBase mem gdt sel tr = Some b"
  using assms [rule_format, of 2] assms [rule_format, of 3] assms [rule_format, of 4] assms [rule_format, of 7]
    assms [rule_format, of 8] assms [rule_format, of 9] assms [rule_format, of 10] assms [rule_format, of 11]
  by (auto simp: ComputeSegmentBase_def Let_def)

lemmas write_lists = setup_writes_def guest_selector_writes_def guest_limit_writes_def guest_rights_writes_def
  guest_base_writes_def guest_register_writes_def host_selector_writes_def host_register_writes_def control_writes_def

text \<open>The writes can be made when the descriptors can be read.\<close>

lemma vmcs_writes_in:
  assumes "segments_mapped m"
  shows "\<exists>ws. vmcs_writes m hv cr4 = Some ws"
proof -
  have r: "ComputeSegmentAccessRights (m_mem m) (Base (m_gdtr m)) sel \<noteq> None"
    if "sel \<in> {m_es m, m_cs m, m_ss m, m_ds m, m_fs m, m_gs m, m_tr m}" for sel
    using rights_mapped [of "m_mem m" "Base (m_gdtr m)" sel] assms that unfolding segments_mapped_def by blast
  have b: "ComputeSegmentBase (m_mem m) (Base (m_gdtr m)) (m_tr m) True \<noteq> None"
    using base_mapped [of "m_mem m" "Base (m_gdtr m)" "m_tr m"] assms unfolding segments_mapped_def by blast
  show ?thesis unfolding vmcs_writes_def
    by (rule written_total) (simp add: write_lists captured_def r b del: not_None_eq)
qed

section \<open>The launch\<close>

definition aligned :: "u64 \<Rightarrow> bool" where
  "aligned hv \<longleftrightarrow> VmxonRegion hv mod PAGE_SIZE = 0 \<and> VmcsRegion hv mod PAGE_SIZE = 0"

text \<open>The launch gets as far as changing CR4.\<close>

definition attempted :: "machine \<Rightarrow> hv_state \<Rightarrow> bool" where
  "attempted m s \<longleftrightarrow> VmxIsSupportedByCpuid m \<and> VmxIsEnabledByBios m \<and>
     (case fst (h_malloc (m_alloc_ok m) (hs_heap s)) of None \<Rightarrow> False | Some b \<Rightarrow> aligned (m_alloc_address m b))"

definition cleaned :: "heap \<Rightarrow> u64 \<Rightarrow> launch_result \<times> hv_state \<Rightarrow> bool" where
  "cleaned h cr4 x \<longleftrightarrow> fst x = Returned_FALSE \<and> \<not> hs_vmx_on (snd x) \<and> hs_state (snd x) = None \<and>
     balanced h (hs_heap (snd x)) \<and> hs_cr4 (snd x) = cr4"

definition in_guest :: "machine \<Rightarrow> heap \<Rightarrow> u64 \<Rightarrow> launch_result \<times> hv_state \<Rightarrow> bool" where
  "in_guest m h cr4 x \<longleftrightarrow> fst x = Entered_guest \<and> hs_vmx_on (snd x) \<and> hs_current (snd x) \<and> hs_cr4 (snd x) = cr4 \<and>
     (\<exists>b hv ws. hs_state (snd x) = Some (b, hv) \<and> aligned hv \<and> owns b h (hs_heap (snd x)) \<and>
        vmcs_writes m hv cr4 = Some ws \<and> hs_vmcs (snd x) = ws)"

lemma release_cleans:
  assumes "hs_state s = Some (b, hv)" and "owns b h (hs_heap s)" and "\<not> hs_vmx_on s"
  shows "\<exists>x. release s = Some x \<and> cleaned h (hs_cr4 s) x"
proof -
  obtain h' where "h_free b (hs_heap s) = Some h'" "balanced h h'" using owns_free [OF assms(2)] by blast
  with assms show ?thesis by (simp add: release_def cleaned_def)
qed

lemma off_and_release_cleans:
  assumes "hs_state s = Some (b, hv)" and "owns b h (hs_heap s)" and "hs_vmx_on s"
  shows "\<exists>x. off_and_release s = Some x \<and> cleaned h (hs_cr4 s) x"
  using release_cleans [of "s\<lparr>hs_vmx_on := False, hs_current := False\<rparr>" b hv h] assms
  by (simp add: off_and_release_def vmx_off_def)

lemma launch_vmcs_ok:
  assumes "hs_state s = Some (b, hv)" and "owns b h (hs_heap s)" and "hs_vmx_on s" and "aligned hv"
    and "segments_mapped m"
  shows "\<exists>x. launch_vmcs m hv s = Some x \<and> (cleaned h (hs_cr4 s) x \<or> in_guest m h (hs_cr4 s) x)"
proof (cases "m_vmclear_result m = 0 \<and> m_vmptrld_result m = 0")
  case False
  then show ?thesis
    using off_and_release_cleans [of s b hv h]
      off_and_release_cleans [of "s\<lparr>hs_vmcs := [], hs_current := False\<rparr>" b hv h] assms(1-3)
    by (auto simp: launch_vmcs_def vmx_vmclear_def vmx_vmptrld_def)
next
  case True
  obtain ws where ws: "vmcs_writes m hv (hs_cr4 s) = Some ws" using vmcs_writes_in [OF assms(5)] by blast
  define s1 where "s1 = s\<lparr>hs_current := True, hs_vmcs := ws\<rparr>"
  have run: "launch_vmcs m hv s = (if m_launch_enters m then Some (Entered_guest, s1) else off_and_release s1)"
    using True assms(3) ws
    by (simp add: launch_vmcs_def vmx_vmclear_def vmx_vmptrld_def SetupVmcsFields_run vmx_vmread_def
        vmx_vmlaunch_def s1_def)
  show ?thesis
  proof (cases "m_launch_enters m")
    case True
    then show ?thesis using assms ws by (simp add: run in_guest_def s1_def)
  next
    case False
    then show ?thesis
      using off_and_release_cleans [of s1 b hv h] assms(1-3) by (auto simp: run s1_def)
  qed
qed

text \<open>
  C7. The launch is safe and cleans up after itself. From a processor outside VMX operation, no
  instruction of the launch is one the processor refuses. Either the guest is entered, with CPU
  and firmware support confirmed, both regions page-aligned, a current VMCS holding exactly the
  prepared fields, and CR4.VMXE set; or FALSE is returned with the processor outside VMX
  operation, the memory given back and the global pointer cleared. In both cases CR4 has been
  changed exactly when the launch got past its checks and its allocation: a launch that fails
  after that point leaves CR4.VMXE set.
\<close>

theorem launch_safe:
  assumes "\<not> hs_vmx_on s" and "hs_state s = None" and "segments_mapped m"
  shows "\<exists>x. HvTryLaunch m s = Some x \<and>
    (let cr4 = (if attempted m s then hs_cr4 s OR push_bit 13 1 else hs_cr4 s) in
     cleaned (hs_heap s) cr4 x \<or>
     in_guest m (hs_heap s) cr4 x \<and> VmxIsSupportedByCpuid m \<and> VmxIsEnabledByBios m \<and> bit (hs_cr4 (snd x)) 13)"
proof (cases "VmxIsSupportedByCpuid m \<and> VmxIsEnabledByBios m")
  case False
  then show ?thesis using assms by (auto simp: HvTryLaunch_def attempted_def cleaned_def)
next
  case sup: True
  obtain r h1 where m: "h_malloc (m_alloc_ok m) (hs_heap s) = (r, h1)" by (cases "h_malloc (m_alloc_ok m) (hs_heap s)")
  show ?thesis
  proof (cases r)
    case None
    then show ?thesis
      using sup m assms(1) h_malloc_none [of "m_alloc_ok m" "hs_heap s" h1]
      by (simp add: HvTryLaunch_def attempted_def cleaned_def)
  next
    case (Some b)
    let ?hv = "m_alloc_address m b"
    have o: "owns b (hs_heap s) h1" using m Some by (simp add: h_malloc_owns)
    show ?thesis
    proof (cases "aligned ?hv")
      case False
      then show ?thesis
        using sup m Some o assms(1) release_cleans [of "s\<lparr>hs_heap := h1, hs_state := Some (b, ?hv)\<rparr>" b ?hv "hs_heap s"]
        by (auto simp: HvTryLaunch_def attempted_def aligned_def Let_def)
    next
      case al: True
      define cr4 where "cr4 = hs_cr4 s OR push_bit 13 1"
      define s1 where "s1 = s\<lparr>hs_heap := h1, hs_state := Some (b, ?hv),
        hs_revisions := Some (ucast (m_msr m IA32_VMX_BASIC_MSR), ucast (m_msr m IA32_VMX_BASIC_MSR)), hs_cr4 := cr4\<rparr>"
      have att: "attempted m s" using sup m Some al by (simp add: attempted_def)
      have b13: "bit cr4 13" by (simp add: cr4_def bit_or_iff bit_push_bit_iff)
      have run: "HvTryLaunch m s = (if m_vmxon_result m \<noteq> 0 then release (s1\<lparr>hs_vmx_on := False\<rparr>)
          else launch_vmcs m ?hv (s1\<lparr>hs_vmx_on := True\<rparr>))"
        using sup m Some al b13 assms(1)
        by (simp add: HvTryLaunch_def Let_def aligned_def vmx_on_def s1_def cr4_def)
      have "\<exists>x. HvTryLaunch m s = Some x \<and> (cleaned (hs_heap s) cr4 x \<or> in_guest m (hs_heap s) cr4 x)"
        using launch_vmcs_ok [of "s1\<lparr>hs_vmx_on := True\<rparr>" b ?hv "hs_heap s" m]
          release_cleans [of "s1\<lparr>hs_vmx_on := False\<rparr>" b ?hv "hs_heap s"] o al assms(3)
        by (cases "m_vmxon_result m = 0") (auto simp: run s1_def)
      moreover have "(if attempted m s then hs_cr4 s OR push_bit 13 1 else hs_cr4 s) = cr4" using att by (simp add: cr4_def)
      ultimately show ?thesis using sup b13 unfolding Let_def by (auto simp: in_guest_def)
    qed
  qed
qed

definition sample_machine :: machine where
  "sample_machine = \<lparr>m_cpuid = (\<lambda>_ _. (0, 0, 32, 0)), m_msr = (\<lambda>_. 5), m_mem = (\<lambda>_. Some 0), m_es = 0x2B, m_cs = 0x10,
     m_ss = 0x18, m_ds = 0x2B, m_fs = 0x53, m_gs = 0x2B, m_ldtr = 0, m_tr = 0x40, m_gdtr = \<lparr>Limit = 0x57, Base = 0x1000\<rparr>,
     m_idtr = \<lparr>Limit = 0xFFF, Base = 0x2000\<rparr>, m_cr0 = 0x80050033, m_cr3 = 0x1AD000, m_ctx_rsp = 0x3000, m_setup_at = (\<lambda>k. 0x4000 + 16 * of_nat k),
     m_ctx_eflags = 0x40202, m_exit_handler = 0x5000, m_alloc_ok = (\<lambda>_. True), m_alloc_address = (\<lambda>_. 0x10000),
     m_vmxon_result = 0, m_vmclear_result = 0, m_vmptrld_result = 1, m_launch_enters = True, m_vmread = (\<lambda>_. 7)\<rparr>"

definition sample_state :: hv_state where
  "sample_state = \<lparr>hs_cr4 = 0x6F8, hs_vmx_on = False, hs_current = False, hs_vmcs = [], hs_state = None,
     hs_revisions = None, hs_heap = \<lparr>hp_next = 0, hp_live = []\<rparr>\<rparr>"

theorem launch_safe_witness:
  "\<exists>x. HvTryLaunch sample_machine sample_state = Some x \<and>
    (cleaned (hs_heap sample_state) 0x26F8 x \<or> in_guest sample_machine (hs_heap sample_state) 0x26F8 x)"
proof -
  have "attempted sample_machine sample_state"
    by (simp add: attempted_def sample_machine_def sample_state_def VmxIsSupportedByCpuid_def VmxIsEnabledByBios_def
        h_malloc_def aligned_def VmxonRegion_def VmcsRegion_def PAGE_SIZE_def Let_def)
  then show ?thesis
    using launch_safe [of sample_state sample_machine]
    by (auto simp: sample_state_def segments_mapped_def sample_machine_def Let_def)
qed

theorem adjust_control_refines_witness:
  "let m = sample_machine\<lparr>m_msr := (\<lambda>_. 0x0000FFFF00000016)\<rparr>; v = snd (AdjustControlValue m 0x483 0x200) in
    control_allowed 0x0000FFFF00000016 v \<and> v = 0x216"
proof -
  let ?m = "sample_machine\<lparr>m_msr := (\<lambda>_. 0x0000FFFF00000016)\<rparr>"
  have c: "(0x0000FFFF00000016 :: u64) = push_bit 32 (mask 16) OR 0x16" by (simp add: mask_eq_exp_minus_1)
  have small: "n < 16" if "bit (0x16 :: u64) n" for n
    using that small_bit [of "0x16 :: u64" 16 n] by simp
  have "\<forall>n < 32. bit (m_msr ?m 0x483) n \<longrightarrow> bit (m_msr ?m 0x483) (n + 32)"
    by (simp add: c) (auto simp: bit_simps intro: small)
  from adjust_control_refines [OF this, of "0x200"] show ?thesis
    by (simp add: Let_def) (simp add: AdjustControlValue_def Let_def)
qed

section \<open>Running a guest\<close>

text \<open>
  A guest is a program that says, for each instruction address at which it exits, the exit reason
  and the length of the instruction. The assembly stub resumes it when the handler returns 0 and
  traps otherwise.
\<close>

type_synonym guest_program = "u64 \<Rightarrow> u64 \<times> u64"

definition exit_at :: "guest_program \<Rightarrow> u64 \<Rightarrow> exit_state" where
  "exit_at prog rip = \<lparr>ex_reason = fst (prog rip), ex_instruction_len = snd (prog rip), ex_guest_rip = rip\<rparr>"

inductive vm_step :: "machine \<Rightarrow> guest_program \<Rightarrow> HV_GUEST_REGISTERS \<times> u64 \<Rightarrow> HV_GUEST_REGISTERS \<times> u64 \<Rightarrow> bool"
  for m :: machine and prog :: guest_program where
  resume: "HvHandleVmExit m regs (exit_at prog rip) = (0, regs', vs') \<Longrightarrow>
     vm_step m prog (regs, rip) (regs', ex_guest_rip vs')"

inductive vm_trap :: "machine \<Rightarrow> guest_program \<Rightarrow> HV_GUEST_REGISTERS \<times> u64 \<Rightarrow> bool"
  for m :: machine and prog :: guest_program where
  trap: "HvHandleVmExit m regs (exit_at prog rip) = (code, regs', vs') \<Longrightarrow> code \<noteq> 0 \<Longrightarrow> vm_trap m prog (regs, rip)"

inductive_simps vm_step_simps: "vm_step m prog (regs, rip) (regs', rip')"
inductive_simps vm_trap_simps: "vm_trap m prog (regs, rip)"

definition is_cpuid :: "guest_program \<Rightarrow> u64 \<Rightarrow> bool" where
  "is_cpuid prog rip \<longleftrightarrow> fst (prog rip) AND 0xFFFF = EXIT_REASON_CPUID"

text \<open>The registers CPUID leaves alone.\<close>

definition untouched :: "HV_GUEST_REGISTERS \<Rightarrow> u64 list" where
  "untouched r = [R15 r, R14 r, R13 r, R12 r, R11 r, R10 r, R9 r, R8 r, Rdi r, Rsi r, Rbp r]"

lemma exit_cpuid:
  assumes "is_cpuid prog rip"
  shows "\<exists>regs'. vm_step m prog (regs, rip) (regs', rip + snd (prog rip)) \<and> untouched regs' = untouched regs"
  using assms by (cases "m_cpuid m (ucast (Rax regs)) (ucast (Rcx regs))")
    (auto simp: vm_step_simps HvHandleVmExit_def exit_at_def is_cpuid_def Let_def untouched_def)

lemma exit_other: "\<not> is_cpuid prog rip \<Longrightarrow> vm_trap m prog (regs, rip) \<and> \<not> vm_step m prog (regs, rip) y"
  by (cases y) (auto simp: vm_step_simps vm_trap_simps HvHandleVmExit_def exit_at_def is_cpuid_def Let_def)

text \<open>
  C14. A guest that exits only for CPUID always makes progress. Through any sequence of such
  instructions, of any lengths, the guest is resumed after each, the instruction pointer advances
  by exactly its length, and no register outside RAX, RBX, RCX and RDX changes; the first exit
  for another reason traps and is never resumed.
\<close>

theorem cpuid_guest_progress:
  assumes "\<forall>k < length lens. is_cpuid prog (rip + of_nat (sum_list (take k lens))) \<and>
    snd (prog (rip + of_nat (sum_list (take k lens)))) = of_nat (lens ! k)"
    and "\<not> is_cpuid prog (rip + of_nat (sum_list lens))"
  shows "\<exists>regs'. (vm_step m prog ^^ length lens) (regs, rip) (regs', rip + of_nat (sum_list lens)) \<and>
    untouched regs' = untouched regs \<and> vm_trap m prog (regs', rip + of_nat (sum_list lens)) \<and>
    (\<forall>y. \<not> vm_step m prog (regs', rip + of_nat (sum_list lens)) y)"
  using assms
proof (induction lens arbitrary: regs rip)
  case Nil
  then show ?case by (auto simp: exit_other)
next
  case (Cons l lens)
  have c: "is_cpuid prog rip" "snd (prog rip) = of_nat l" using Cons.prems(1) by (auto dest: spec [of _ 0])
  obtain r1 where r1: "vm_step m prog (regs, rip) (r1, rip + of_nat l)" "untouched r1 = untouched regs"
    using exit_cpuid [OF c(1), of m regs] c(2) by auto
  have "\<forall>k < length lens. is_cpuid prog (rip + of_nat l + of_nat (sum_list (take k lens))) \<and>
      snd (prog (rip + of_nat l + of_nat (sum_list (take k lens)))) = of_nat (lens ! k)"
    using Cons.prems(1) by (auto simp: add.assoc dest: spec [of _ "Suc _"])
  moreover have "\<not> is_cpuid prog (rip + of_nat l + of_nat (sum_list lens))"
    using Cons.prems(2) by (simp add: add.assoc)
  ultimately obtain r2 where
    "(vm_step m prog ^^ length lens) (r1, rip + of_nat l) (r2, rip + of_nat l + of_nat (sum_list lens))"
    "untouched r2 = untouched r1" "vm_trap m prog (r2, rip + of_nat l + of_nat (sum_list lens))"
    "\<forall>y. \<not> vm_step m prog (r2, rip + of_nat l + of_nat (sum_list lens)) y"
    using Cons.IH by blast
  moreover have "rip + of_nat l + of_nat (sum_list lens) = rip + of_nat (sum_list (l # lens))" by simp
  ultimately show ?case using r1 by (metis length_Cons relpowp_Suc_I2)
qed

definition sample_guest :: guest_program where
  "sample_guest rip = (if rip = 0x1000 \<or> rip = 0x1002 then (10, 2) else (25, 4))"

definition sample_regs :: HV_GUEST_REGISTERS where
  "sample_regs = \<lparr>R15 = 15, R14 = 14, R13 = 13, R12 = 12, R11 = 11, R10 = 10, R9 = 9, R8 = 8, Rdi = 7, Rsi = 6,
     Rbp = 5, Rbx = 4, Rdx = 3, Rcx = 0, Rax = 1\<rparr>"

theorem cpuid_guest_progress_witness:
  "\<exists>regs'. (vm_step sample_machine sample_guest ^^ 2) (sample_regs, 0x1000) (regs', 0x1004) \<and>
     vm_trap sample_machine sample_guest (regs', 0x1004)"
proof -
  have "\<forall>k < length [2, 2]. is_cpuid sample_guest (0x1000 + of_nat (sum_list (take k [2, 2]))) \<and>
      snd (sample_guest (0x1000 + of_nat (sum_list (take k [2, 2])))) = of_nat ([2, 2] ! k)"
    by (auto simp: is_cpuid_def sample_guest_def EXIT_REASON_CPUID_def less_Suc_eq numeral_2_eq_2)
  moreover have "\<not> is_cpuid sample_guest (0x1000 + of_nat (sum_list [2, 2]))"
    by (simp add: is_cpuid_def sample_guest_def EXIT_REASON_CPUID_def)
  ultimately show ?thesis
    using cpuid_guest_progress [of "[2, 2]" sample_guest "0x1000" sample_machine sample_regs]
    by (auto simp: numeral_2_eq_2)
qed

end
