(* ===== verification/Vmcs_Setup_Correct.thy ===== *)
theory Vmcs_Setup_Correct
  imports Hypervisor_Correct
begin

text \<open>
  The contents the hypervisor skeleton gives the VMCS: which fields are written, how the host's
  relate to the guest's, and where the guest starts.
\<close>

section \<open>What is written\<close>

text \<open>The fields the file has names for, without those that only report and the MSR bitmap.\<close>

definition settable :: "u32 list" where
  "settable = filter (\<lambda>e. e \<notin> {VMCS_VM_INSTRUCTION_ERROR, VMCS_VM_EXIT_REASON, VMCS_VM_EXIT_INSTRUCTION_LEN,
     VMCS_MSR_BITMAP}) (map snd vmcs_table)"

lemma setup_fields_distinct: "distinct (map fst setup_writes)"
  unfolding write_lists vmcs_constants by simp

lemma settable_length: "length settable = length (map fst setup_writes)"
  unfolding settable_def vmcs_table_def write_lists vmcs_constants by simp

lemma setup_fields_settable: "list_all (\<lambda>e. e \<in> set settable) (map fst setup_writes)"
  unfolding settable_def vmcs_table_def write_lists vmcs_constants by simp

lemma setup_fields_complete: "set (map fst setup_writes) = set settable"
proof -
  have sub: "set (map fst setup_writes) \<subseteq> set settable" using setup_fields_settable by (auto simp: list_all_iff)
  have "card (set (map fst setup_writes)) = length settable"
    using setup_fields_distinct by (simp only: distinct_card settable_length)
  then have "card (set settable) \<le> card (set (map fst setup_writes))" using card_length [of settable] by simp
  with sub show ?thesis by (intro card_subset_eq) (auto simp: card_mono antisym)
qed

lemma written_some: "written m hv cr4 l ws = Some vs \<Longrightarrow> map_of ws f = Some e \<Longrightarrow> \<exists>v. value_of m hv cr4 l e = Some v"
  by (induction ws arbitrary: vs) (auto simp: bind_eq_Some_conv split: if_splits)

text \<open>Guest fields and the host fields that must hold the same value.\<close>

definition mirrored :: "(u32 \<times> u32) list" where
  "mirrored = [(VMCS_GUEST_CR0, VMCS_HOST_CR0), (VMCS_GUEST_CR3, VMCS_HOST_CR3), (VMCS_GUEST_CR4, VMCS_HOST_CR4),
     (VMCS_GUEST_FS_BASE, VMCS_HOST_FS_BASE), (VMCS_GUEST_GS_BASE, VMCS_HOST_GS_BASE),
     (VMCS_GUEST_TR_BASE, VMCS_HOST_TR_BASE), (VMCS_GUEST_GDTR_BASE, VMCS_HOST_GDTR_BASE),
     (VMCS_GUEST_IDTR_BASE, VMCS_HOST_IDTR_BASE), (VMCS_GUEST_SYSENTER_CS, VMCS_HOST_SYSENTER_CS),
     (VMCS_GUEST_SYSENTER_ESP, VMCS_HOST_SYSENTER_ESP), (VMCS_GUEST_SYSENTER_EIP, VMCS_HOST_SYSENTER_EIP)]"

definition selector_pairs :: "(u32 \<times> u32) list" where
  "selector_pairs = [(VMCS_GUEST_ES_SELECTOR, VMCS_HOST_ES_SELECTOR), (VMCS_GUEST_CS_SELECTOR, VMCS_HOST_CS_SELECTOR),
     (VMCS_GUEST_SS_SELECTOR, VMCS_HOST_SS_SELECTOR), (VMCS_GUEST_DS_SELECTOR, VMCS_HOST_DS_SELECTOR),
     (VMCS_GUEST_FS_SELECTOR, VMCS_HOST_FS_SELECTOR), (VMCS_GUEST_GS_SELECTOR, VMCS_HOST_GS_SELECTOR),
     (VMCS_GUEST_TR_SELECTOR, VMCS_HOST_TR_SELECTOR)]"

text \<open>A host selector drops the low three bits, and everything above the low byte.\<close>

definition host_of :: "u64 \<Rightarrow> u64" where
  "host_of s = s AND 0xF8"

lemma host_selector: "ucast (sel AND 0xF8) = host_of (ucast (sel :: u16))"
proof -
  have m: "(0xF8 :: u16) = push_bit 3 (mask 5)" "(0xF8 :: u64) = push_bit 3 (mask 5)"
    by (simp_all add: mask_eq_exp_minus_1)
  show ?thesis unfolding host_of_def m by (rule bit_word_eqI) (auto simp: bit_simps)
qed

lemma mirrored_writes:
  "list_all (\<lambda>(g, h). \<exists>e. map_of setup_writes g = Some e \<and> map_of setup_writes h = Some e) mirrored"
  unfolding mirrored_def write_lists vmcs_constants by simp

lemma selector_writes:
  "list_all (\<lambda>(g, h). (\<exists>r. map_of setup_writes g = Some (Selector r) \<and> map_of setup_writes h = Some (Host_selector r)) \<or>
     map_of setup_writes g = Some Selector_of_tr \<and> map_of setup_writes h = Some Host_selector_of_tr) selector_pairs"
  unfolding selector_pairs_def write_lists vmcs_constants by simp

lemma context_writes:
  "map_of setup_writes VMCS_GUEST_RIP = Some Rip_of_ctx" "map_of setup_writes VMCS_GUEST_RSP = Some Rsp_of_ctx"
  "map_of setup_writes VMCS_HOST_RSP = Some Host_stack_top" "map_of setup_writes VMCS_HOST_RIP = Some Exit_handler"
  unfolding write_lists vmcs_constants by simp_all

text \<open>The value a field is given.\<close>

lemma vmcs_lookup:
  "vmcs_writes m hv cr4 = Some ws \<Longrightarrow>
     map_of ws f = Option.bind (map_of setup_writes f) (value_of m hv cr4 (captured m))"
  unfolding vmcs_writes_def by (rule written_lookup)

text \<open>
  C34. The VMCS is filled completely and consistently. With a current VMCS and a mapped descriptor
  table, \<open>SetupVmcsFields\<close> returns TRUE and has written, once each, exactly the fields the file has
  names for except the three that only report and the MSR bitmap address, which the file names and
  never writes. The host is given the same control registers, descriptor tables, system-call
  registers and FS, GS and task-register bases as the guest; the guest starts at the captured
  stack pointer and at the statement after the capture, the first of the writes; the host starts
  at the exit handler with a stack pointer inside its own stack; and each host selector is the
  guest's with privilege and table bits cleared, as the architecture demands, and the bits above
  the low byte lost.
\<close>

theorem vmcs_setup_complete:
  assumes "segments_mapped m" and "hs_vmx_on s" and "hs_current s"
  shows "\<exists>ws. SetupVmcsFields m hv s = Some (True, s\<lparr>hs_vmcs := hs_vmcs s @ ws\<rparr>) \<and> distinct (map fst ws) \<and>
    set (map fst ws) = set (map snd vmcs_table) -
      {VMCS_VM_INSTRUCTION_ERROR, VMCS_VM_EXIT_REASON, VMCS_VM_EXIT_INSTRUCTION_LEN, VMCS_MSR_BITMAP} \<and>
    list_all (\<lambda>(g, h). map_of ws g \<noteq> None \<and> map_of ws h = map_of ws g) mirrored \<and>
    list_all (\<lambda>(g, h). map_of ws g \<noteq> None \<and> map_of ws h = map_option host_of (map_of ws g)) selector_pairs \<and>
    map_of ws VMCS_GUEST_RIP = Some (m_setup_at m 4) \<and> map_of ws VMCS_GUEST_RSP = Some (m_ctx_rsp m) \<and>
    map_of ws VMCS_HOST_RIP = Some (m_exit_handler m) \<and>
    map_of ws VMCS_HOST_RSP = Some (HostStack hv + HV_HOST_STACK_SIZE - 0x20)"
proof -
  obtain ws where w: "vmcs_writes m hv (hs_cr4 s) = Some ws" using vmcs_writes_in [OF assms(1)] by blast
  note lookup = vmcs_lookup [OF w] and some = written_some [OF w [unfolded vmcs_writes_def]]
  have run: "SetupVmcsFields m hv s = Some (True, s\<lparr>hs_vmcs := hs_vmcs s @ ws\<rparr>)"
    by (simp add: SetupVmcsFields_run [OF assms(2,3)] w)
  have fields: "map fst ws = map fst setup_writes" using w unfolding vmcs_writes_def by (rule written_fields)
  have "list_all (\<lambda>(g, h). map_of ws g \<noteq> None \<and> map_of ws h = map_of ws g) mirrored"
    using mirrored_writes by (rule list.pred_mono_strong) (auto simp: lookup dest: some)
  moreover have "list_all (\<lambda>(g, h). map_of ws g \<noteq> None \<and> map_of ws h = map_option host_of (map_of ws g)) selector_pairs"
    using selector_writes by (rule list.pred_mono_strong) (auto simp: lookup captured_def host_selector)
  moreover have "set (map fst ws) = set (map snd vmcs_table) -
      {VMCS_VM_INSTRUCTION_ERROR, VMCS_VM_EXIT_REASON, VMCS_VM_EXIT_INSTRUCTION_LEN, VMCS_MSR_BITMAP}"
    unfolding fields setup_fields_complete settable_def by auto
  moreover have "distinct (map fst ws)" unfolding fields by (rule setup_fields_distinct)
  moreover have "map_of ws VMCS_GUEST_RIP = Some (m_setup_at m 4)" "map_of ws VMCS_GUEST_RSP = Some (m_ctx_rsp m)"
    "map_of ws VMCS_HOST_RIP = Some (m_exit_handler m)"
    "map_of ws VMCS_HOST_RSP = Some (HostStack hv + HV_HOST_STACK_SIZE - 0x20)"
    by (simp_all add: lookup context_writes captured_def)
  ultimately show ?thesis using run by blast
qed

theorem vmcs_setup_complete_witness:
  "\<exists>ws. SetupVmcsFields sample_machine 0x10000 (sample_state\<lparr>hs_cr4 := 0x26F8, hs_vmx_on := True, hs_current := True\<rparr>) =
       Some (True, sample_state\<lparr>hs_cr4 := 0x26F8, hs_vmx_on := True, hs_current := True, hs_vmcs := ws\<rparr>) \<and>
     distinct (map fst ws) \<and> map_of ws VMCS_GUEST_RIP = Some 0x4040 \<and> map_of ws VMCS_HOST_RSP = Some 0x15FE0"
  using vmcs_setup_complete [of sample_machine "sample_state\<lparr>hs_cr4 := 0x26F8, hs_vmx_on := True, hs_current := True\<rparr>" "0x10000"]
  by (auto simp: segments_mapped_def sample_machine_def sample_state_def HostStack_def PAGE_SIZE_def HV_HOST_STACK_SIZE_def)

section \<open>After the launch\<close>

lemma off_and_release_result: "off_and_release s = Some (r, s') \<Longrightarrow> r = Returned_FALSE"
  by (auto simp: off_and_release_def release_def bind_eq_Some_conv split: option.splits)

text \<open>A guest was entered only with what the setup wrote in the VMCS.\<close>

lemma entered_vmcs:
  assumes "HvTryLaunch m s = Some (Entered_guest, s')"
  shows "\<exists>hv. vmcs_writes m hv (hs_cr4 s') = Some (hs_vmcs s')"
proof -
  have rel: "release s \<noteq> Some (Entered_guest, s')" for s
    by (auto simp: release_def bind_eq_Some_conv split: option.splits)
  from assms rel obtain hv s1 where "launch_vmcs m hv s1 = Some (Entered_guest, s')"
    by (auto simp: HvTryLaunch_def Let_def bind_eq_Some_conv split: if_splits option.splits prod.splits)
  then show ?thesis
    by (auto simp: launch_vmcs_def SetupVmcsFields_run vmx_vmclear_def vmx_vmptrld_def bind_eq_Some_conv
        dest: off_and_release_result split: if_splits)
qed

text \<open>
  The routine's code run by a guest. \<open>exits a\<close> is the first VM exit of a guest that starts at the
  address \<open>a\<close>. All that is assumed of it is the architecture's rule for VMWRITE: in a guest it always
  exits, with reason 25. A statement that writes an expression without a read of a control or
  model-specific register, or of the LDTR, executes no instruction before its VMWRITE that could
  exit.
\<close>

fun unprivileged :: "vmcs_value \<Rightarrow> bool" where
  "unprivileged (Msr _) = False"
| "unprivileged (Msr_low _) = False"
| "unprivileged Cr0 = False"
| "unprivileged Cr3 = False"
| "unprivileged Cr4 = False"
| "unprivileged (Adjusted _ _) = False"
| "unprivileged Selector_of_ldtr = False"
| "unprivileged _ = True"

definition vmwrite_exits :: "machine \<Rightarrow> (u64 \<Rightarrow> exit_state) \<Rightarrow> bool" where
  "vmwrite_exits m exits \<longleftrightarrow>
     (\<forall>k < length SetupVmcsFields_body. case SetupVmcsFields_body ! k of
        Vmwrite field e \<Rightarrow> unprivileged e \<longrightarrow> ex_reason (exits (m_setup_at m k)) AND 0xFFFF = 25
      | _ \<Rightarrow> True)"

lemma first_write: "SetupVmcsFields_body ! 4 = Vmwrite VMCS_GUEST_ES_SELECTOR (Selector m_es)"
  "4 < length SetupVmcsFields_body"
  by (simp_all add: SetupVmcsFields_body_def write_lists eval_nat_numeral)

text \<open>
  C36. A successful launch ends in a trap. Running the routine shows where the guest starts: at the
  code of the statement after the capture of the context, the VMWRITE of the first guest
  selector, not behind the routine. By the rule for VMWRITE the guest's first exit is that
  instruction, and the handler, whatever the registers, refuses it with 1 and changes nothing, so
  that the exit stub traps instead of resuming; the launch never continues as if the routine had
  returned, as the comments say it does.
\<close>

theorem launched_guest_traps:
  assumes "HvTryLaunch m s = Some (Entered_guest, s')" and "vmwrite_exits m exits"
  shows "\<exists>k rip. map_of (hs_vmcs s') VMCS_GUEST_RIP = Some rip \<and> rip = m_setup_at m k \<and>
    SetupVmcsFields_body ! k = Vmwrite VMCS_GUEST_ES_SELECTOR (Selector m_es) \<and>
    HvHandleVmExit m regs (exits rip) = (1, regs, exits rip)"
proof -
  obtain hv where w: "vmcs_writes m hv (hs_cr4 s') = Some (hs_vmcs s')" using entered_vmcs [OF assms(1)] by blast
  have "map_of (hs_vmcs s') VMCS_GUEST_RIP = Some (m_setup_at m 4)"
    by (simp add: vmcs_lookup [OF w] context_writes captured_def)
  moreover have "ex_reason (exits (m_setup_at m 4)) AND 0xFFFF = 25"
    using assms(2) first_write unfolding vmwrite_exits_def by fastforce
  then have "HvHandleVmExit m regs (exits (m_setup_at m 4)) = (1, regs, exits (m_setup_at m 4))"
    by (simp add: HvHandleVmExit_def EXIT_REASON_CPUID_def Let_def)
  ultimately show ?thesis using first_write(1) by blast
qed

text \<open>A guest that exits at a VMWRITE 8 bytes after wherever it starts.\<close>

definition sample_exits :: "u64 \<Rightarrow> exit_state" where
  "sample_exits a = \<lparr>ex_reason = 25, ex_instruction_len = 3, ex_guest_rip = a + 8\<rparr>"

theorem launched_guest_traps_witness:
  "\<exists>s'. HvTryLaunch (sample_machine\<lparr>m_vmptrld_result := 0\<rparr>) sample_state = Some (Entered_guest, s') \<and>
     map_of (hs_vmcs s') VMCS_GUEST_RIP \<noteq> None \<and>
     fst (HvHandleVmExit (sample_machine\<lparr>m_vmptrld_result := 0\<rparr>) sample_regs
       (sample_exits (the (map_of (hs_vmcs s') VMCS_GUEST_RIP)))) = 1"
proof -
  let ?m = "sample_machine\<lparr>m_vmptrld_result := 0\<rparr>"
  have "segments_mapped ?m" by (simp add: segments_mapped_def sample_machine_def)
  from vmcs_writes_in [OF this] obtain ws where ws: "vmcs_writes ?m 0x10000 0x26F8 = Some ws" by blast
  have v: "VmxIsSupportedByCpuid ?m" "VmxIsEnabledByBios ?m"
    by (simp_all add: sample_machine_def VmxIsSupportedByCpuid_def VmxIsEnabledByBios_def Let_def)
  have a: "h_malloc (m_alloc_ok ?m) (hs_heap sample_state) = (Some 0, \<lparr>hp_next = 1, hp_live = [0]\<rparr>)"
    "m_alloc_address ?m 0 = 0x10000" "m_vmxon_result ?m = 0" "m_vmclear_result ?m = 0" "m_vmptrld_result ?m = 0"
    "m_launch_enters ?m" "hs_cr4 sample_state OR 0x2000 = 0x26F8" "\<not> hs_vmx_on sample_state"
    by (simp_all add: sample_machine_def sample_state_def h_malloc_def)
  have b: "bit (0x26F8 :: u64) 13" using and_exp_eq_0_iff_not_bit [of "0x26F8 :: u64" 13] by simp
  have "\<exists>s'. HvTryLaunch ?m sample_state = Some (Entered_guest, s')"
    using v a ws b by (simp add: HvTryLaunch_def Let_def VmxonRegion_def VmcsRegion_def PAGE_SIZE_def vmx_on_def launch_vmcs_def
      vmx_vmclear_def vmx_vmptrld_def SetupVmcsFields_run vmx_vmlaunch_def del: bit_0)
  then obtain s' where s': "HvTryLaunch ?m sample_state = Some (Entered_guest, s')" by blast
  have "vmwrite_exits ?m sample_exits" by (simp add: vmwrite_exits_def sample_exits_def split: setup_statement.split)
  from launched_guest_traps [OF s' this, of sample_regs] s' show ?thesis by auto
qed

end
