(* ===== verification/Asm.thy ===== *)
theory Asm
  imports Hypervisor Cpu_Id
begin

text \<open>
  \<open>src/asm/primitives.asm\<close> and \<open>src/driver/hv/hwmon_hv_asm.asm\<close>: the assembly routines, as lists of the
  instructions they consist of and an interpreter of those instructions. A label is the number of
  instructions a forward jump skips. Memory is a partial map of bytes; an access to an unmapped
  address is \<open>None\<close>. Correctness is in \<open>Asm_Correct\<close>.
\<close>

section \<open>The processor\<close>

datatype reg = RAX | RCX | RDX | RBX | RSP | RBP | RSI | RDI | RR8 | RR9 | RR10 | RR11 | RR12 | RR13 | RR14 | RR15

datatype sreg = CS | SS | DS | ES | FS | GS | TR | LDTR

datatype asm_instr =
    Push reg
  | Pop reg
  | Mov reg reg
  | Mov32 reg reg
  | MovImm32 reg u32
  | Store32 reg nat reg
  | ReadSeg sreg
  | StoreGdtr
  | StoreIdtr
  | CPUID
  | RDTSC
  | RDTSCP
  | XGETBV
  | Shl reg nat
  | Or reg reg
  | AddImm reg u64
  | SubImm reg u64
  | TestReg reg
  | TestAl
  | Jz nat
  | Jnz nat
  | Call
  | Vmresume
  | Int3
  | Ret

type_synonym memory = "u64 \<Rightarrow> u8 option"

record asm_state =
  as_regs :: "reg \<Rightarrow> u64"
  as_mem :: memory
  as_zf :: bool
  as_calls :: "u64 list"

text \<open>
  What the instructions read outside the state, whether VMRESUME succeeds, and the routine that is
  called. \<open>as_calls\<close> records the stack pointer at each call.
\<close>

record processor =
  px_cpuid :: "u32 \<Rightarrow> u32 \<Rightarrow> CpuidResult"
  px_tsc :: u64
  px_aux :: u32
  px_xcr :: "u32 \<Rightarrow> u64"
  px_seg :: "sreg \<Rightarrow> u16"
  px_gdtr :: HV_DESCRIPTOR_TABLE_REGISTER
  px_idtr :: HV_DESCRIPTOR_TABLE_REGISTER
  px_callee :: "asm_state \<Rightarrow> asm_state option"
  px_resumes :: bool

datatype outcome = Returned u64 asm_state | Resumed asm_state | Trapped asm_state

fun peek :: "memory \<Rightarrow> u64 \<Rightarrow> nat \<Rightarrow> bytes option" where
  "peek m a 0 = Some []"
| "peek m a (Suc n) = do { b \<leftarrow> m a; bs \<leftarrow> peek m (a + 1) n; Some (b # bs) }"

fun poke :: "memory \<Rightarrow> u64 \<Rightarrow> bytes \<Rightarrow> memory option" where
  "poke m a [] = Some m"
| "poke m a (b # bs) = (if m a = None then None else poke (m(a \<mapsto> b)) (a + 1) bs)"

abbreviation reg_val :: "asm_state \<Rightarrow> reg \<Rightarrow> u64" where
  "reg_val s r \<equiv> as_regs s r"

definition set_reg :: "reg \<Rightarrow> u64 \<Rightarrow> asm_state \<Rightarrow> asm_state" where
  "set_reg r v s = s\<lparr>as_regs := (as_regs s)(r := v)\<rparr>"

definition write_mem :: "u64 \<Rightarrow> bytes \<Rightarrow> asm_state \<Rightarrow> asm_state option" where
  "write_mem a bs s = map_option (\<lambda>m. s\<lparr>as_mem := m\<rparr>) (poke (as_mem s) a bs)"

definition low32 :: "u64 \<Rightarrow> u32" where
  "low32 v = ucast v"

text \<open>The ten bytes SGDT and SIDT store: the limit, then the base.\<close>

definition table_bytes :: "HV_DESCRIPTOR_TABLE_REGISTER \<Rightarrow> bytes" where
  "table_bytes t = le_bytes 2 (Limit t) @ le_bytes 8 (Base t)"

text \<open>A 32-bit register write clears the upper half; a 16-bit one keeps the rest.\<close>

fun step :: "processor \<Rightarrow> asm_instr \<Rightarrow> asm_state \<Rightarrow> asm_state option" where
  "step p (Push r) s = write_mem (reg_val s RSP - 8) (le_bytes 8 (reg_val s r)) (set_reg RSP (reg_val s RSP - 8) s)"
| "step p (Pop r) s = do { bs \<leftarrow> peek (as_mem s) (reg_val s RSP) 8;
     Some (set_reg r (le_word bs) (set_reg RSP (reg_val s RSP + 8) s)) }"
| "step p (Mov d r) s = Some (set_reg d (reg_val s r) s)"
| "step p (Mov32 d r) s = Some (set_reg d (ucast (low32 (reg_val s r))) s)"
| "step p (MovImm32 d i) s = Some (set_reg d (ucast i) s)"
| "step p (Store32 b off r) s = write_mem (reg_val s b + of_nat off) (le_bytes 4 (low32 (reg_val s r))) s"
| "step p (ReadSeg g) s = Some (set_reg RAX ((reg_val s RAX AND NOT 0xFFFF) OR ucast (px_seg p g)) s)"
| "step p StoreGdtr s = write_mem (reg_val s RCX) (table_bytes (px_gdtr p)) s"
| "step p StoreIdtr s = write_mem (reg_val s RCX) (table_bytes (px_idtr p)) s"
| "step p CPUID s = (let r = px_cpuid p (low32 (reg_val s RAX)) (low32 (reg_val s RCX)) in
     Some (set_reg RAX (ucast (r_eax r)) (set_reg RBX (ucast (r_ebx r))
       (set_reg RCX (ucast (r_ecx r)) (set_reg RDX (ucast (r_edx r)) s)))))"
| "step p RDTSC s = Some (set_reg RAX (ucast (low32 (px_tsc p))) (set_reg RDX (drop_bit 32 (px_tsc p)) s))"
| "step p RDTSCP s = Some (set_reg RAX (ucast (low32 (px_tsc p))) (set_reg RDX (drop_bit 32 (px_tsc p))
     (set_reg RCX (ucast (px_aux p)) s)))"
| "step p XGETBV s = (let x = px_xcr p (low32 (reg_val s RCX)) in
     Some (set_reg RAX (ucast (low32 x)) (set_reg RDX (drop_bit 32 x) s)))"
| "step p (Shl r n) s = (let v = push_bit n (reg_val s r) in Some ((set_reg r v s)\<lparr>as_zf := (v = 0)\<rparr>))"
| "step p (Or d r) s = (let v = reg_val s d OR reg_val s r in Some ((set_reg d v s)\<lparr>as_zf := (v = 0)\<rparr>))"
| "step p (AddImm r i) s = (let v = reg_val s r + i in Some ((set_reg r v s)\<lparr>as_zf := (v = 0)\<rparr>))"
| "step p (SubImm r i) s = (let v = reg_val s r - i in Some ((set_reg r v s)\<lparr>as_zf := (v = 0)\<rparr>))"
| "step p (TestReg r) s = Some (s\<lparr>as_zf := (reg_val s r = 0)\<rparr>)"
| "step p TestAl s = Some (s\<lparr>as_zf := ((ucast (reg_val s RAX) :: u8) = 0)\<rparr>)"
| "step p Call s = map_option (\<lambda>s'. s'\<lparr>as_calls := as_calls s @ [reg_val s RSP]\<rparr>) (px_callee p s)"
| "step p _ s = None"

text \<open>Control: jumps are forward, so execution ends by the length of the rest.\<close>

fun exec :: "processor \<Rightarrow> asm_instr list \<Rightarrow> asm_state \<Rightarrow> outcome option" where
  "exec p [] s = None"
| "exec p (i # is) s =
     (case i of
        Ret \<Rightarrow> do { bs \<leftarrow> peek (as_mem s) (reg_val s RSP) 8;
                    Some (Returned (le_word bs) (set_reg RSP (reg_val s RSP + 8) s)) }
      | Jz n \<Rightarrow> if as_zf s then exec p (drop n is) s else exec p is s
      | Jnz n \<Rightarrow> if as_zf s then exec p is s else exec p (drop n is) s
      | Int3 \<Rightarrow> Some (Trapped s)
      | Vmresume \<Rightarrow> if px_resumes p then Some (Resumed s) else exec p is s
      | _ \<Rightarrow> (case step p i s of None \<Rightarrow> None | Some s \<Rightarrow> exec p is s))"

declare exec.simps [simp del]

section \<open>The routines\<close>

definition cpuid_code :: "asm_instr list" where
  "cpuid_code = [Push RBX, Mov RR10 RCX, Mov32 RAX RDX, Mov32 RCX RR8, CPUID,
     Store32 RR10 0 RAX, Store32 RR10 4 RBX, Store32 RR10 8 RCX, Store32 RR10 12 RDX,
     Mov RAX RR10, Pop RBX, Ret]"

definition rdtsc_code :: "asm_instr list" where
  "rdtsc_code = [RDTSC, Shl RDX 32, Or RAX RDX, Ret]"

definition rdtscp_code :: "asm_instr list" where
  "rdtscp_code = [Mov RR10 RCX, RDTSCP, TestReg RR10, Jz 1, Store32 RR10 0 RCX, Shl RDX 32, Or RAX RDX, Ret]"

definition xgetbv_code :: "asm_instr list" where
  "xgetbv_code = [XGETBV, Shl RDX 32, Or RAX RDX, Ret]"

definition HvReadSegment_code :: "sreg \<Rightarrow> asm_instr list" where
  "HvReadSegment_code g = [MovImm32 RAX 0, ReadSeg g, Ret]"

definition HvReadGdtr_code :: "asm_instr list" where
  "HvReadGdtr_code = [StoreGdtr, Ret]"

definition HvReadIdtr_code :: "asm_instr list" where
  "HvReadIdtr_code = [StoreIdtr, Ret]"

definition HvExitHandler_code :: "asm_instr list" where
  "HvExitHandler_code = [Push RAX, Push RCX, Push RDX, Push RBX, Push RBP, Push RSI, Push RDI, Push RR8, Push RR9,
     Push RR10, Push RR11, Push RR12, Push RR13, Push RR14, Push RR15,
     Mov RCX RSP, SubImm RSP 0x20, Call, AddImm RSP 0x20,
     TestAl, Jnz 17,
     Pop RR15, Pop RR14, Pop RR13, Pop RR12, Pop RR11, Pop RR10, Pop RR9, Pop RR8, Pop RDI, Pop RSI, Pop RBP,
     Pop RBX, Pop RDX, Pop RCX, Pop RAX,
     Vmresume, Int3,
     Int3]"

end
