(* ===== verification/Asm_Correct.thy ===== *)
theory Asm_Correct
  imports Asm Hypervisor_Correct
begin

text \<open>
  Correctness of the assembly routines: the primitives return what the C code's model of them says
  and keep the registers the calling convention protects; the VM-exit trampoline saves and restores
  the guest's registers in the layout of \<open>HV_GUEST_REGISTERS\<close>.
\<close>

section \<open>Memory\<close>

lemma of_nat_u64_eq: "n < 2 ^ 64 \<Longrightarrow> m < 2 ^ 64 \<Longrightarrow> (of_nat n :: u64) = of_nat m \<longleftrightarrow> n = m"
  by (auto dest: arg_cong [where f = unat] simp: unat_of_nat)

lemma peek_length: "peek m a n = Some bs \<Longrightarrow> length bs = n"
  by (induction n arbitrary: a bs) (auto simp: bind_eq_Some_conv)

lemma peek_append:
  "peek m a (n + k) = do { x \<leftarrow> peek m a n; y \<leftarrow> peek m (a + of_nat n) k; Some (x @ y) }"
proof (induction n arbitrary: a)
  case 0
  then show ?case by simp
next
  case (Suc n)
  then show ?case by (cases "m a") (simp_all add: Suc bind_assoc add.assoc)
qed

lemma peek_split:
  assumes "peek m a (n + k) = Some (x @ y)" and "length x = n"
  shows "peek m a n = Some x" and "peek m (a + of_nat n) k = Some y"
proof -
  obtain u v where u: "peek m a n = Some u" "peek m (a + of_nat n) k = Some v" and uv: "u @ v = x @ y"
    using assms(1) by (auto simp: peek_append bind_eq_Some_conv)
  have "length u = length x" using peek_length [OF u(1)] assms(2) by simp
  with u uv show "peek m a n = Some x" "peek m (a + of_nat n) k = Some y" by simp_all
qed

lemma peek_cong: "(\<And>i. i < n \<Longrightarrow> m' (a + of_nat i) = m (a + of_nat i)) \<Longrightarrow> peek m' a n = peek m a n"
proof (induction n arbitrary: a)
  case (Suc n)
  have "peek m' (a + 1) n = peek m (a + 1) n"
    using Suc.prems [of "Suc _"] by (intro Suc.IH) (simp add: add.assoc)
  with Suc.prems [of 0] show ?case by simp
qed simp

lemma poke_other: "poke m a bs = Some m' \<Longrightarrow> (\<And>i. i < length bs \<Longrightarrow> x \<noteq> a + of_nat i) \<Longrightarrow> m' x = m x"
proof (induction bs arbitrary: m a)
  case (Cons b bs)
  have p: "poke (m(a \<mapsto> b)) (a + 1) bs = Some m'" using Cons.prems(1) by (simp split: if_splits)
  have "m' x = (m(a \<mapsto> b)) x"
    using Cons.prems(2) [of "Suc _"] by (intro Cons.IH [OF p]) (simp add: add.assoc)
  with Cons.prems(2) [of 0] show ?case by simp
qed simp

lemma poke_dom: "poke m a bs = Some m' \<Longrightarrow> m' x = None \<longleftrightarrow> m x = None"
  by (induction bs arbitrary: m a) (fastforce split: if_splits)+

lemma poke_mapped: "(\<And>i. i < length bs \<Longrightarrow> m (a + of_nat i) \<noteq> None) \<Longrightarrow> \<exists>m'. poke m a bs = Some m'"
proof (induction bs arbitrary: m a)
  case (Cons b bs)
  have "\<exists>m'. poke (m(a \<mapsto> b)) (a + 1) bs = Some m'"
    using Cons.prems [of "Suc _"] by (intro Cons.IH) (auto simp: add.assoc)
  with Cons.prems [of 0] show ?case by simp
qed simp

lemma peek_poke: "poke m a bs = Some m' \<Longrightarrow> length bs < 2 ^ 64 \<Longrightarrow> peek m' a (length bs) = Some bs"
proof (induction bs arbitrary: m a)
  case (Cons b bs)
  then have p: "poke (m(a \<mapsto> b)) (a + 1) bs = Some m'" by (simp split: if_splits)
  have "a \<noteq> a + 1 + of_nat i" if "i < length bs" for i
    using of_nat_u64_eq [of "Suc i" 0] Cons.prems(2) that by (auto simp: add.assoc)
  from poke_other [OF p this] have "m' a = Some b" by simp
  moreover have "peek m' (a + 1) (length bs) = Some bs" using Cons.IH [OF p] Cons.prems(2) by simp
  ultimately show ?case by simp
qed simp

text \<open>A store directly below what is there already.\<close>

lemma poke_below:
  assumes p: "poke m a bs = Some m'" and b: "peek m (a + of_nat (length bs)) n = Some rest"
    and l: "length bs + n < 2 ^ 64"
  shows "peek m' a (length bs + n) = Some (bs @ rest)"
proof -
  have "peek m' (a + of_nat (length bs)) n = peek m (a + of_nat (length bs)) n"
  proof (intro peek_cong poke_other [OF p])
    fix i j assume "i < n" "j < length bs"
    then show "a + of_nat (length bs) + of_nat i \<noteq> a + of_nat j"
      using of_nat_u64_eq [of "length bs + i" j] l by (auto simp: add.assoc)
  qed
  then show ?thesis using peek_poke [OF p] b l by (simp add: peek_append)
qed

section \<open>Straight-line execution\<close>

definition plain :: "asm_instr \<Rightarrow> bool" where
  "plain i \<longleftrightarrow> i \<notin> {Ret, Int3, Vmresume} \<and> (\<forall>n. i \<noteq> Jz n \<and> i \<noteq> Jnz n)"

lemma case_bind: "(case x of None \<Rightarrow> None | Some y \<Rightarrow> f y) = Option.bind x f"
  by (cases x) simp_all

lemma exec_plain: "plain i \<Longrightarrow> exec p (i # is) s = Option.bind (step p i s) (exec p is)"
  by (cases i; cases "px_callee p s") (simp_all add: exec.simps plain_def case_bind)

lemma exec_Jz: "exec p (Jz n # is) s = exec p (if as_zf s then drop n is else is) s"
  by (simp add: exec.simps)

definition stacked :: "(reg \<Rightarrow> u64) \<Rightarrow> reg list \<Rightarrow> bytes" where
  "stacked f rs = concat (map (\<lambda>r. le_bytes 8 (f r)) (rev rs))"

lemma stacked_Cons: "stacked f (r # rs) = stacked f rs @ le_bytes 8 (f r)"
  by (simp add: stacked_def)

lemma stacked_cong: "(\<And>r. r \<in> set rs \<Longrightarrow> f r = g r) \<Longrightarrow> stacked f rs = stacked g rs"
  by (auto simp: stacked_def intro!: arg_cong [where f = concat] map_cong)

lemma length_stacked: "length (stacked f rs) = 8 * length rs"
  by (induction rs) (simp_all add: stacked_def)

text \<open>A sequence of pushes lays the registers out below the stack pointer, the last one lowest.\<close>

lemma exec_pushes:
  assumes "RSP \<notin> set rs" and "\<And>i. i < 8 * length rs \<Longrightarrow> as_mem s (reg_val s RSP - of_nat (8 * length rs) + of_nat i) \<noteq> None"
    and "peek (as_mem s) (reg_val s RSP) n = Some rest" and "8 * length rs + n < 2 ^ 64"
  shows "\<exists>m'. exec p (map Push rs @ is) s =
      exec p is (s\<lparr>as_regs := (as_regs s)(RSP := reg_val s RSP - of_nat (8 * length rs)), as_mem := m'\<rparr>) \<and>
    peek m' (reg_val s RSP - of_nat (8 * length rs)) (8 * length rs + n) = Some (stacked (as_regs s) rs @ rest)"
  using assms
proof (induction rs arbitrary: s n rest)
  case Nil
  then show ?case by (intro exI [of _ "as_mem s"]) (simp add: stacked_def)
next
  case (Cons r rs)
  let ?sp = "reg_val s RSP" and ?v = "le_bytes 8 (reg_val s r)"
  have "as_mem s (?sp - 8 + of_nat i) \<noteq> None" if "i < 8" for i
    using Cons.prems(2) [of "8 * length rs + i"] that by (simp add: algebra_simps)
  then obtain m1 where m1: "poke (as_mem s) (?sp - 8) ?v = Some m1"
    using poke_mapped [of ?v "as_mem s" "?sp - 8"] by auto
  define s1 where "s1 = s\<lparr>as_regs := (as_regs s)(RSP := ?sp - 8), as_mem := m1\<rparr>"
  have e: "exec p (map Push (r # rs) @ is) s = exec p (map Push rs @ is) s1"
    by (simp add: exec_plain plain_def write_mem_def set_reg_def m1 s1_def)
  have "peek m1 (?sp - 8) (length ?v + n) = Some (?v @ rest)"
    by (rule poke_below [OF m1]) (use Cons.prems(3,4) in simp_all)
  then have below: "peek (as_mem s1) (reg_val s1 RSP) (8 + n) = Some (?v @ rest)" by (simp add: s1_def)
  have mapped: "as_mem s1 (reg_val s1 RSP - of_nat (8 * length rs) + of_nat i) \<noteq> None" if "i < 8 * length rs" for i
    using Cons.prems(2) [of i] that poke_dom [OF m1] by (simp add: s1_def algebra_simps)
  have "RSP \<notin> set rs" "8 * length rs + (8 + n) < 2 ^ 64" using Cons.prems by simp_all
  from Cons.IH [OF this(1) mapped below this(2)] obtain m' where
    m': "exec p (map Push rs @ is) s1 = exec p is (s1\<lparr>as_regs := (as_regs s1)(RSP := reg_val s1 RSP - of_nat (8 * length rs)), as_mem := m'\<rparr>)"
      "peek m' (reg_val s1 RSP - of_nat (8 * length rs)) (8 * length rs + (8 + n)) = Some (stacked (as_regs s1) rs @ ?v @ rest)"
    by blast
  have st: "stacked (as_regs s1) rs = stacked (as_regs s) rs"
    using Cons.prems(1) by (intro stacked_cong) (auto simp: s1_def)
  have sp: "reg_val s1 RSP - of_nat (8 * length rs) = ?sp - of_nat (8 * length (r # rs))" by (simp add: s1_def algebra_simps)
  have eq: "s1\<lparr>as_regs := (as_regs s1)(RSP := x), as_mem := m'\<rparr> = s\<lparr>as_regs := (as_regs s)(RSP := x), as_mem := m'\<rparr>" for x
    by (cases s) (simp add: s1_def fun_eq_iff)
  have n: "8 * length rs + (8 + n) = 8 * length (r # rs) + n" by simp
  show ?case using m' unfolding e st sp eq n stacked_Cons append_assoc by blast
qed

text \<open>A sequence of pops reads consecutive words into registers.\<close>

fun loaded :: "(reg \<Rightarrow> u64) \<Rightarrow> reg list \<Rightarrow> u64 list \<Rightarrow> reg \<Rightarrow> u64" where
  "loaded f (r # rs) (w # ws) = loaded (f(r := w)) rs ws"
| "loaded f _ _ = f"

lemma loaded_other: "x \<notin> set rs \<Longrightarrow> loaded f rs ws x = f x"
  by (induction f rs ws rule: loaded.induct) auto

lemma loaded_upd: "x \<notin> set rs \<Longrightarrow> loaded (f(x := v)) rs ws = (loaded f rs ws)(x := v)"
  by (induction f rs ws rule: loaded.induct) (auto simp: fun_upd_twist)

lemma exec_pops:
  assumes "RSP \<notin> set rs" and "length ws = length rs"
    and "peek (as_mem s) (reg_val s RSP) (8 * length rs) = Some (concat (map (le_bytes 8) ws))"
  shows "exec p (map Pop rs @ is) s =
    exec p is (s\<lparr>as_regs := (loaded (as_regs s) rs ws)(RSP := reg_val s RSP + of_nat (8 * length rs))\<rparr>)"
  using assms
proof (induction rs arbitrary: s ws)
  case Nil
  then show ?case by simp
next
  case (Cons r rs)
  then obtain w ws' where w: "ws = w # ws'" by (cases ws) auto
  have "peek (as_mem s) (reg_val s RSP) (8 + 8 * length rs) = Some (le_bytes 8 w @ concat (map (le_bytes 8) ws'))"
    using Cons.prems(3) by (simp add: w)
  from peek_split [OF this] have x: "peek (as_mem s) (reg_val s RSP) 8 = Some (le_bytes 8 w)"
    and y: "peek (as_mem s) (reg_val s RSP + 8) (8 * length rs) = Some (concat (map (le_bytes 8) ws'))" by simp_all
  define s1 where "s1 = s\<lparr>as_regs := (as_regs s)(RSP := reg_val s RSP + 8, r := w)\<rparr>"
  have "exec p (map Pop (r # rs) @ is) s = exec p (map Pop rs @ is) s1"
    by (simp add: exec_plain plain_def x set_reg_def s1_def le_word_le_bytes_full)
  also have "\<dots> = exec p is (s1\<lparr>as_regs := (loaded (as_regs s1) rs ws')(RSP := reg_val s1 RSP + of_nat (8 * length rs))\<rparr>)"
    using Cons.prems y by (intro Cons.IH) (auto simp: s1_def w)
  also have "s1\<lparr>as_regs := (loaded (as_regs s1) rs ws')(RSP := reg_val s1 RSP + of_nat (8 * length rs))\<rparr> =
      s\<lparr>as_regs := (loaded (as_regs s) (r # rs) ws)(RSP := reg_val s RSP + of_nat (8 * length (r # rs)))\<rparr>"
    using Cons.prems(1) by (cases s) (auto simp: s1_def w fun_eq_iff loaded_upd fun_upd_twist [of RSP r] add.assoc)
  finally show ?case .
qed

section \<open>The VM-exit trampoline\<close>

text \<open>The members of \<open>HV_GUEST_REGISTERS\<close> in the order of the header, and their bytes.\<close>

definition reg_words :: "HV_GUEST_REGISTERS \<Rightarrow> u64 list" where
  "reg_words r = [R15 r, R14 r, R13 r, R12 r, R11 r, R10 r, R9 r, R8 r, Rdi r, Rsi r, Rbp r, Rbx r, Rdx r, Rcx r, Rax r]"

definition struct_bytes :: "HV_GUEST_REGISTERS \<Rightarrow> bytes" where
  "struct_bytes r = concat (map (le_bytes 8) (reg_words r))"

definition guest_regs :: "(reg \<Rightarrow> u64) \<Rightarrow> HV_GUEST_REGISTERS" where
  "guest_regs f = \<lparr>R15 = f RR15, R14 = f RR14, R13 = f RR13, R12 = f RR12, R11 = f RR11, R10 = f RR10, R9 = f RR9, R8 = f RR8,
     Rdi = f RDI, Rsi = f RSI, Rbp = f RBP, Rbx = f RBX, Rdx = f RDX, Rcx = f RCX, Rax = f RAX\<rparr>"

definition pushed :: "reg list" where
  "pushed = [RAX, RCX, RDX, RBX, RBP, RSI, RDI, RR8, RR9, RR10, RR11, RR12, RR13, RR14, RR15]"

lemma HvExitHandler_parts:
  "HvExitHandler_code = map Push pushed @ Mov RCX RSP # SubImm RSP 0x20 # Call # AddImm RSP 0x20 # TestAl # Jnz 17 #
     map Pop (rev pushed) @ [Vmresume, Int3, Int3]"
  by (simp add: HvExitHandler_code_def pushed_def)

text \<open>The pushes produce exactly the layout the C code declares, and the pops read it back.\<close>

lemma stacked_pushed: "stacked f pushed = struct_bytes (guest_regs f)"
  by (simp add: stacked_def pushed_def struct_bytes_def reg_words_def guest_regs_def)

lemma loaded_pushed: "guest_regs ((loaded f (rev pushed) (reg_words r))(RSP := x)) = r"
  by (simp add: pushed_def reg_words_def guest_regs_def)

text \<open>
  What the calling convention promises of the compiled \<open>HvHandleVmExit\<close>: it works on the structure RCX
  points to, returns its result in AL and gives the stack pointer back.
\<close>

definition calls_handler :: "processor \<Rightarrow> machine \<Rightarrow> exit_state \<Rightarrow> bool" where
  "calls_handler p m vs \<longleftrightarrow>
     (\<forall>s regs. peek (as_mem s) (reg_val s RCX) 120 = Some (struct_bytes regs) \<longrightarrow>
        (case HvHandleVmExit m regs vs of (code, regs', vs') \<Rightarrow>
           \<exists>s'. px_callee p s = Some s' \<and> reg_val s' RSP = reg_val s RSP \<and> (ucast (reg_val s' RAX) :: u8) = code \<and>
             peek (as_mem s') (reg_val s RCX) 120 = Some (struct_bytes regs')))"

lemma exit_handler_run:
  assumes c: "calls_handler p m vs"
    and mapped: "\<And>i. i < 120 \<Longrightarrow> as_mem s (reg_val s RSP - 120 + of_nat i) \<noteq> None"
    and h: "HvHandleVmExit m (guest_regs (as_regs s)) vs = (code, regs', vs')"
  shows "\<exists>s'. exec p HvExitHandler_code s = Some (if code = 0 \<and> px_resumes p then Resumed s' else Trapped s') \<and>
    as_calls s' = as_calls s @ [reg_val s RSP - 152] \<and>
    (code = 0 \<longrightarrow> guest_regs (as_regs s') = regs' \<and> reg_val s' RSP = reg_val s RSP)"
proof -
  let ?sp = "reg_val s RSP"
  let ?rest = "Mov RCX RSP # SubImm RSP 0x20 # Call # AddImm RSP 0x20 # TestAl # Jnz 17 #
     map Pop (rev pushed) @ [Vmresume, Int3, Int3]"
  have len: "length pushed = 15" by (simp add: pushed_def)
  have nsp: "RSP \<notin> set pushed" by (simp add: pushed_def)
  obtain m1 where m1: "exec p (map Push pushed @ ?rest) s =
      exec p ?rest (s\<lparr>as_regs := (as_regs s)(RSP := ?sp - 120), as_mem := m1\<rparr>)"
    and pk: "peek m1 (?sp - 120) 120 = Some (struct_bytes (guest_regs (as_regs s)))"
    using exec_pushes [OF nsp, of s 0 "[]" p ?rest] mapped by (auto simp: len stacked_pushed)
  define s1 where "s1 = s\<lparr>as_regs := (as_regs s)(RSP := ?sp - 152, RCX := ?sp - 120), as_mem := m1, as_zf := (?sp - 152 = 0)\<rparr>"
  have s1: "exec p ?rest (s\<lparr>as_regs := (as_regs s)(RSP := ?sp - 120), as_mem := m1\<rparr>) =
      exec p (Call # AddImm RSP 0x20 # TestAl # Jnz 17 # map Pop (rev pushed) @ [Vmresume, Int3, Int3]) s1"
    by (cases s) (simp add: exec_plain plain_def set_reg_def s1_def fun_upd_twist)
  have "peek (as_mem s1) (reg_val s1 RCX) 120 = Some (struct_bytes (guest_regs (as_regs s)))" by (simp add: s1_def pk)
  with c h obtain s2 where s2: "px_callee p s1 = Some s2" "reg_val s2 RSP = ?sp - 152" "(ucast (reg_val s2 RAX) :: u8) = code"
    "peek (as_mem s2) (?sp - 120) 120 = Some (struct_bytes regs')"
    unfolding calls_handler_def by (fastforce simp: s1_def)
  define s3 where "s3 = s2\<lparr>as_calls := as_calls s @ [?sp - 152], as_regs := (as_regs s2)(RSP := ?sp - 120), as_zf := (code = 0)\<rparr>"
  have run: "exec p HvExitHandler_code s = exec p (Jnz 17 # map Pop (rev pushed) @ [Vmresume, Int3, Int3]) s3"
    unfolding HvExitHandler_parts m1 s1
    by (cases s2) (use s2 in \<open>simp add: exec_plain plain_def set_reg_def s3_def s1_def\<close>)
  show ?thesis
  proof (cases "code = 0")
    case False
    have "drop 17 (map Pop (rev pushed) @ [Vmresume, Int3, Int3]) = [Int3]" by (simp add: pushed_def)
    then have "exec p HvExitHandler_code s = Some (Trapped s3)" unfolding run using False by (simp add: exec.simps s3_def)
    then show ?thesis using False by (intro exI [of _ s3]) (simp add: s3_def)
  next
    case True
    define s4 where "s4 = s3\<lparr>as_regs := (loaded (as_regs s3) (rev pushed) (reg_words regs'))(RSP := ?sp)\<rparr>"
    have "peek (as_mem s3) (reg_val s3 RSP) (8 * length (rev pushed)) = Some (concat (map (le_bytes 8) (reg_words regs')))"
      using s2(4) by (simp add: s3_def len struct_bytes_def)
    from exec_pops [OF _ _ this, of p "[Vmresume, Int3, Int3]"] nsp
    have "exec p (map Pop (rev pushed) @ [Vmresume, Int3, Int3]) s3 = exec p [Vmresume, Int3, Int3] s4"
      by (simp add: len reg_words_def s4_def) (simp add: s3_def)
    then have "exec p HvExitHandler_code s = Some (if px_resumes p then Resumed s4 else Trapped s4)"
      unfolding run using True by (simp add: exec.simps s3_def)
    moreover have "guest_regs (as_regs s4) = regs'" by (simp add: s4_def loaded_pushed)
    moreover have "as_calls s4 = as_calls s @ [?sp - 152]" "reg_val s4 RSP = ?sp" by (simp_all add: s4_def s3_def)
    ultimately show ?thesis using True by (intro exI [of _ s4]) simp
  qed
qed

lemma peek_mapped: "peek m a n = Some bs \<Longrightarrow> i < n \<Longrightarrow> m (a + of_nat i) \<noteq> None"
proof (induction n arbitrary: a i bs)
  case (Suc n)
  then obtain b bs' where "m a = Some b" "peek m (a + 1) n = Some bs'" by (auto simp: bind_eq_Some_conv)
  then show ?case using Suc.IH [of "a + 1" bs' "i - 1"] Suc.prems(2) by (cases i) (simp_all add: add.assoc)
qed simp

text \<open>The contract of the callee holds of the model's own handler, called on the bytes of the structure.\<close>

definition read_struct :: "bytes \<Rightarrow> HV_GUEST_REGISTERS" where
  "read_struct bs = (let w = (\<lambda>i. le_word (take 8 (drop (8 * i) bs))) in
     \<lparr>R15 = w 0, R14 = w 1, R13 = w 2, R12 = w 3, R11 = w 4, R10 = w 5, R9 = w 6, R8 = w 7, Rdi = w 8, Rsi = w 9,
       Rbp = w 10, Rbx = w 11, Rdx = w 12, Rcx = w 13, Rax = w 14\<rparr>)"

definition native_call :: "machine \<Rightarrow> exit_state \<Rightarrow> asm_state \<Rightarrow> asm_state option" where
  "native_call m vs s =
     do { bs \<leftarrow> peek (as_mem s) (reg_val s RCX) 120;
          case HvHandleVmExit m (read_struct bs) vs of (code, regs', vs') \<Rightarrow>
            write_mem (reg_val s RCX) (struct_bytes regs') (set_reg RAX (ucast code) s) }"

lemma chunk: "length a = 8 * i \<Longrightarrow> take 8 (drop (8 * i) (a @ le_bytes 8 (w :: u64) @ rest)) = le_bytes 8 w"
  by simp

lemma read_struct_bytes: "read_struct (struct_bytes r) = r"
proof -
  have at: "le_word (take 8 (drop (8 * i) (struct_bytes r))) = reg_words r ! i" if "i < 15" for i
  proof -
    have l: "length (reg_words r) = 15" by (simp add: reg_words_def)
    have "struct_bytes r = concat (map (le_bytes 8) (take i (reg_words r) @ reg_words r ! i # drop (Suc i) (reg_words r)))"
      unfolding struct_bytes_def using id_take_nth_drop [of i "reg_words r"] that l by simp
    then have "struct_bytes r = concat (map (le_bytes 8) (take i (reg_words r))) @ le_bytes 8 (reg_words r ! i) @
        concat (map (le_bytes 8) (drop (Suc i) (reg_words r)))"
      by (simp only: map_append list.map concat_append concat.simps)
    moreover have "length (concat (map (le_bytes 8) (take i (reg_words r)))) = 8 * i"
      using that l by (simp add: length_concat comp_def sum_list_triv)
    ultimately show ?thesis by (simp only: chunk le_word_le_bytes_full)  (simp add: le_word_le_bytes_full)
  qed
  define f where "f = (\<lambda>i. le_word (take 8 (drop (8 * i) (struct_bytes r))) :: u64)"
  have w: "f i = reg_words r ! i" if "i < 15" for i using at [OF that] by (simp only: f_def)
  have "read_struct (struct_bytes r) = \<lparr>R15 = f 0, R14 = f 1, R13 = f 2, R12 = f 3, R11 = f 4, R10 = f 5, R9 = f 6, R8 = f 7, Rdi = f 8,
      Rsi = f 9, Rbp = f 10, Rbx = f 11, Rdx = f 12, Rcx = f 13, Rax = f 14\<rparr>"
    by (simp only: read_struct_def Let_def f_def)
  then show ?thesis by (cases r) (simp add: w reg_words_def)
qed

lemma native_calls_handler: "px_callee p = native_call m vs \<Longrightarrow> calls_handler p m vs"
proof -
  assume p: "px_callee p = native_call m vs"
  have "\<exists>s'. native_call m vs s = Some s' \<and> reg_val s' RSP = reg_val s RSP \<and> (ucast (reg_val s' RAX) :: u8) = code \<and>
      peek (as_mem s') (reg_val s RCX) 120 = Some (struct_bytes regs')"
    if "peek (as_mem s) (reg_val s RCX) 120 = Some (struct_bytes regs)" and "HvHandleVmExit m regs vs = (code, regs', vs')"
    for s regs code regs' vs'
  proof -
    have l: "length (struct_bytes regs') = 120" by (simp add: struct_bytes_def reg_words_def)
    have "as_mem s (reg_val s RCX + of_nat i) \<noteq> None" if "i < 120" for i
      using peek_mapped [OF \<open>peek (as_mem s) (reg_val s RCX) 120 = _\<close> that] .
    then obtain m' where m': "poke (as_mem s) (reg_val s RCX) (struct_bytes regs') = Some m'"
      using poke_mapped [of "struct_bytes regs'" "as_mem s" "reg_val s RCX"] l by auto
    have "(ucast (ucast code :: u64) :: u8) = code" by (rule bit_word_eqI) (auto simp: bit_ucast_iff dest: bit_imp_le_length)
    then show ?thesis using that m' peek_poke [OF m'] l
      by (simp add: native_call_def read_struct_bytes write_mem_def set_reg_def)
  qed
  then show ?thesis unfolding calls_handler_def p by (auto split: prod.split)
qed

section \<open>The primitives\<close>

definition apart :: "u64 \<Rightarrow> nat \<Rightarrow> u64 \<Rightarrow> nat \<Rightarrow> bool" where
  "apart a n b k \<longleftrightarrow> (\<forall>i < n. \<forall>j < k. a + of_nat i \<noteq> b + of_nat j)"

lemma peek_poke_apart: "poke m a bs = Some m' \<Longrightarrow> apart b k a (length bs) \<Longrightarrow> peek m' b k = peek m b k"
  by (intro peek_cong poke_other) (auto simp: apart_def)

lemma poke_append: "poke m a (x @ y) = Option.bind (poke m a x) (\<lambda>m. poke m (a + of_nat (length x)) y)"
  by (induction x arbitrary: m a) (simp_all add: add.assoc)

lemma join_halves: "ucast (low32 x) OR push_bit 32 (drop_bit 32 x) = x" for x :: u64
proof (rule bit_word_eqI)
  fix n assume "n < LENGTH(64)"
  then show "bit (ucast (low32 x) OR push_bit 32 (drop_bit 32 x)) n \<longleftrightarrow> bit x n"
    by (cases "n < 32") (simp_all add: low32_def bit_simps)
qed

lemma exec_Ret: "peek (as_mem s) (reg_val s RSP) 8 = Some (le_bytes 8 ra) \<Longrightarrow>
    exec p (Ret # is) s = Some (Returned ra (set_reg RSP (reg_val s RSP + 8) s))"
  by (simp add: exec.simps le_word_le_bytes_full)

text \<open>The registers a Windows x64 routine may not change.\<close>

definition nonvolatile :: "reg set" where
  "nonvolatile = {RBX, RBP, RSI, RDI, RR12, RR13, RR14, RR15}"

definition back_in_caller :: "asm_state \<Rightarrow> asm_state \<Rightarrow> bool" where
  "back_in_caller s s' \<longleftrightarrow> reg_val s' RSP = reg_val s RSP + 8 \<and> (\<forall>r \<in> nonvolatile. reg_val s' r = reg_val s r)"

definition result_bytes :: "CpuidResult \<Rightarrow> bytes" where
  "result_bytes r = le_bytes 4 (r_eax r) @ le_bytes 4 (r_ebx r) @ le_bytes 4 (r_ecx r) @ le_bytes 4 (r_edx r)"

lemma low32_ucast: "low32 (ucast w) = w"
  by (rule bit_word_eqI) (auto simp: low32_def bit_simps)

lemma cpuid_code_run:
  assumes ret: "peek (as_mem s) (reg_val s RSP) 8 = Some (le_bytes 8 ra)"
    and stack: "\<And>i. i < 8 \<Longrightarrow> as_mem s (reg_val s RSP - 8 + of_nat i) \<noteq> None"
    and out: "\<And>i. i < 16 \<Longrightarrow> as_mem s (reg_val s RCX + of_nat i) \<noteq> None"
    and ap: "apart (reg_val s RSP - 8) 16 (reg_val s RCX) 16"
  shows "\<exists>s'. exec p cpuid_code s = Some (Returned ra s') \<and> reg_val s' RAX = reg_val s RCX \<and>
    peek (as_mem s') (reg_val s RCX) 16 = Some (result_bytes (px_cpuid p (low32 (reg_val s RDX)) (low32 (reg_val s RR8)))) \<and>
    reg_val s' RSP = reg_val s RSP + 8 \<and> (\<forall>r \<in> nonvolatile. reg_val s' r = reg_val s r)"
proof -
  let ?sp = "reg_val s RSP" and ?out = "reg_val s RCX"
  define r where "r = px_cpuid p (low32 (reg_val s RDX)) (low32 (reg_val s RR8))"
  obtain m1 where m1: "poke (as_mem s) (?sp - 8) (le_bytes 8 (reg_val s RBX)) = Some m1"
    using poke_mapped [of "le_bytes 8 (reg_val s RBX)" "as_mem s" "?sp - 8"] stack by auto
  have two: "peek m1 (?sp - 8) (8 + 8) = Some (le_bytes 8 (reg_val s RBX) @ le_bytes 8 ra)"
    using poke_below [OF m1, of 8 "le_bytes 8 ra"] ret by simp
  have lr: "length (result_bytes r) = 16" by (simp add: result_bytes_def)
  have "m1 (?out + of_nat i) \<noteq> None" if "i < 16" for i using out [OF that] poke_dom [OF m1] by simp
  then obtain m2 where m2: "poke m1 ?out (result_bytes r) = Some m2"
    using poke_mapped [of "result_bytes r" m1 ?out] lr by auto
  have two2: "peek m2 (?sp - 8) (8 + 8) = Some (le_bytes 8 (reg_val s RBX) @ le_bytes 8 ra)"
    using peek_poke_apart [OF m2, of "?sp - 8" 16] ap two lr by simp
  then have pop: "peek m2 (?sp - 8) 8 = Some (le_bytes 8 (reg_val s RBX))" "peek m2 ?sp 8 = Some (le_bytes 8 ra)"
    using peek_split [OF two2] by simp_all
  have res: "peek m2 ?out 16 = Some (result_bytes r)" using peek_poke [OF m2] lr by simp
  obtain a b c where st: "poke m1 ?out (le_bytes 4 (r_eax r)) = Some a" "poke a (?out + 4) (le_bytes 4 (r_ebx r)) = Some b"
    "poke b (?out + 8) (le_bytes 4 (r_ecx r)) = Some c" "poke c (?out + 12) (le_bytes 4 (r_edx r)) = Some m2"
    using m2 by (auto simp: result_bytes_def poke_append bind_eq_Some_conv add.assoc)
  define s' where "s' = s\<lparr>as_mem := m2, as_regs := (as_regs s)(RR10 := ?out, RCX := ucast (r_ecx r), RDX := ucast (r_edx r), RAX := ?out,
     RSP := ?sp + 8)\<rparr>"
  have rr: "px_cpuid p (low32 (reg_val s RDX)) (low32 (reg_val s RR8)) = r" by (simp add: r_def)
  have low: "low32 (ucast w) = w" for w :: u32 by (rule low32_ucast)
  have "exec p cpuid_code s = Some (Returned ra s')"
    unfolding cpuid_code_def
    by (cases s) (use m1 st pop rr in \<open>simp add: exec_plain plain_def set_reg_def write_mem_def Let_def low
        exec_Ret le_word_le_bytes_full s'_def fun_eq_iff\<close>)
  moreover have "\<forall>r \<in> nonvolatile. reg_val s' r = reg_val s r" by (simp add: nonvolatile_def s'_def)
  ultimately show ?thesis using res by (intro exI [of _ s']) (simp add: s'_def r_def)
qed

lemma rdtsc_code_run:
  assumes "peek (as_mem s) (reg_val s RSP) 8 = Some (le_bytes 8 ra)"
  shows "\<exists>s'. exec p rdtsc_code s = Some (Returned ra s') \<and> reg_val s' RAX = px_tsc p \<and> as_mem s' = as_mem s \<and>
    back_in_caller s s'"
  using assms unfolding rdtsc_code_def
  by (simp add: exec_plain plain_def set_reg_def Let_def exec_Ret join_halves back_in_caller_def nonvolatile_def)

lemma xgetbv_code_run:
  assumes "peek (as_mem s) (reg_val s RSP) 8 = Some (le_bytes 8 ra)"
  shows "\<exists>s'. exec p xgetbv_code s = Some (Returned ra s') \<and> reg_val s' RAX = px_xcr p (low32 (reg_val s RCX)) \<and>
    as_mem s' = as_mem s \<and> back_in_caller s s'"
  using assms unfolding xgetbv_code_def
  by (simp add: exec_plain plain_def set_reg_def Let_def exec_Ret join_halves back_in_caller_def nonvolatile_def)

lemma rdtscp_code_null:
  assumes "peek (as_mem s) (reg_val s RSP) 8 = Some (le_bytes 8 ra)" and "reg_val s RCX = 0"
  shows "\<exists>s'. exec p rdtscp_code s = Some (Returned ra s') \<and> reg_val s' RAX = px_tsc p \<and> as_mem s' = as_mem s \<and>
    back_in_caller s s'"
  using assms unfolding rdtscp_code_def
  by (simp add: exec_plain plain_def set_reg_def Let_def exec_Ret join_halves exec_Jz back_in_caller_def nonvolatile_def)

lemma rdtscp_code_run:
  assumes "peek (as_mem s) (reg_val s RSP) 8 = Some (le_bytes 8 ra)" and "reg_val s RCX \<noteq> 0"
    and "\<And>i. i < 4 \<Longrightarrow> as_mem s (reg_val s RCX + of_nat i) \<noteq> None"
    and "apart (reg_val s RSP) 8 (reg_val s RCX) 4"
  shows "\<exists>s'. exec p rdtscp_code s = Some (Returned ra s') \<and> reg_val s' RAX = px_tsc p \<and>
    peek (as_mem s') (reg_val s RCX) 4 = Some (le_bytes 4 (px_aux p)) \<and> back_in_caller s s'"
proof -
  obtain m' where m': "poke (as_mem s) (reg_val s RCX) (le_bytes 4 (px_aux p)) = Some m'"
    using poke_mapped [of "le_bytes 4 (px_aux p)" "as_mem s" "reg_val s RCX"] assms(3) by auto
  have "peek m' (reg_val s RSP) 8 = Some (le_bytes 8 ra)"
    using peek_poke_apart [OF m', of "reg_val s RSP" 8] assms(1,4) by simp
  moreover have "peek m' (reg_val s RCX) 4 = Some (le_bytes 4 (px_aux p))" using peek_poke [OF m'] by simp
  ultimately show ?thesis
    using assms(2) m' unfolding rdtscp_code_def
    by (simp add: exec_plain plain_def set_reg_def write_mem_def Let_def exec_Ret join_halves low32_ucast exec_Jz
        back_in_caller_def nonvolatile_def)
qed

lemma HvReadSegment_run:
  assumes "peek (as_mem s) (reg_val s RSP) 8 = Some (le_bytes 8 ra)"
  shows "\<exists>s'. exec p (HvReadSegment_code g) s = Some (Returned ra s') \<and> (ucast (reg_val s' RAX) :: u16) = px_seg p g"
proof -
  have "(ucast (ucast w :: u64) :: u16) = w" for w :: u16 by (rule bit_word_eqI) (auto simp: bit_simps)
  then show ?thesis
    using assms unfolding HvReadSegment_code_def by (simp add: exec_plain plain_def set_reg_def exec_Ret)
qed

lemma apart_sub: "apart a n b k \<Longrightarrow> i + n' \<le> n \<Longrightarrow> k' \<le> k \<Longrightarrow> apart (a + of_nat i) n' b k'"
  unfolding apart_def by (metis (no_types, lifting) add.assoc add_le_cancel_left le_trans less_le_trans nat_add_left_cancel_less of_nat_add)

section \<open>Properties\<close>

text \<open>
  C15. The VM-exit trampoline implements the step the hypervisor's model takes. With a mapped host
  stack and a handler that keeps the calling convention, it lays the guest's registers out exactly as
  \<open>HV_GUEST_REGISTERS\<close> declares them, calls the handler once, and either resumes the guest with
  precisely the registers the handler left, at the stack pointer it entered with, or traps; it resumes
  exactly when the model's guest steps and VMRESUME succeeds.
\<close>

theorem exit_handler_refines:
  assumes "calls_handler p m (exit_at prog rip)"
    and "\<And>i. i < 120 \<Longrightarrow> as_mem s (reg_val s RSP - 120 + of_nat i) \<noteq> None"
  shows "\<exists>s'. (exec p HvExitHandler_code s = Some (Resumed s') \<and> px_resumes p \<and> reg_val s' RSP = reg_val s RSP \<and>
        (\<exists>rip'. vm_step m prog (guest_regs (as_regs s), rip) (guest_regs (as_regs s'), rip'))) \<or>
      (exec p HvExitHandler_code s = Some (Trapped s') \<and> (px_resumes p \<longrightarrow> vm_trap m prog (guest_regs (as_regs s), rip)))"
proof -
  obtain code regs' vs' where h: "HvHandleVmExit m (guest_regs (as_regs s)) (exit_at prog rip) = (code, regs', vs')"
    using prod_cases3 by blast
  obtain s' where s': "exec p HvExitHandler_code s = Some (if code = 0 \<and> px_resumes p then Resumed s' else Trapped s')"
    "code = 0 \<longrightarrow> guest_regs (as_regs s') = regs' \<and> reg_val s' RSP = reg_val s RSP"
    using exit_handler_run [OF assms(1,2) h] by blast
  show ?thesis
  proof (cases "code = 0 \<and> px_resumes p")
    case True
    with h s'(2) have "vm_step m prog (guest_regs (as_regs s), rip) (guest_regs (as_regs s'), ex_guest_rip vs')"
      by (auto intro: vm_step.intros)
    with s' True show ?thesis by auto
  next
    case False
    then have "px_resumes p \<longrightarrow> vm_trap m prog (guest_regs (as_regs s), rip)" using vm_trap.intros [OF h] by blast
    with s'(1) False show ?thesis by auto
  qed
qed

definition lab_processor :: "processor" where
  "lab_processor = \<lparr>px_cpuid = (\<lambda>leaf sub. \<lparr>r_eax = leaf, r_ebx = 2, r_ecx = sub, r_edx = 4\<rparr>), px_tsc = 0x123456789A, px_aux = 7,
     px_xcr = (\<lambda>_. 0x100000007), px_seg = (\<lambda>_. 0x10), px_gdtr = \<lparr>Limit = 0x57, Base = 0x1000\<rparr>, px_idtr = \<lparr>Limit = 0xFFF, Base = 0x2000\<rparr>,
     px_callee = native_call sample_machine (exit_at sample_guest 0x1000), px_resumes = True\<rparr>"

definition lab_state :: asm_state where
  "lab_state = \<lparr>as_regs = (\<lambda>r. if r = RSP then 0x13FE0 else if r = RCX then 0x8000 else if r = RDX then 1 else 3),
     as_mem = (\<lambda>_. Some 0), as_zf = False, as_calls = []\<rparr>"

theorem exit_handler_refines_witness:
  "\<exists>s' rip'. exec lab_processor HvExitHandler_code lab_state = Some (Resumed s') \<and>
     vm_step sample_machine sample_guest (guest_regs (as_regs lab_state), 0x1000) (guest_regs (as_regs s'), rip')"
proof -
  have c: "calls_handler lab_processor sample_machine (exit_at sample_guest 0x1000)"
    by (rule native_calls_handler) (simp add: lab_processor_def)
  have mapped: "as_mem lab_state a \<noteq> None" for a by (simp add: lab_state_def)
  have "\<not> vm_trap sample_machine sample_guest (guest_regs (as_regs lab_state), 0x1000)"
    by (cases "m_cpuid sample_machine (ucast (Rax (guest_regs (as_regs lab_state)))) (ucast (Rcx (guest_regs (as_regs lab_state))))")
      (auto simp: vm_trap_simps HvHandleVmExit_def exit_at_def sample_guest_def EXIT_REASON_CPUID_def Let_def)
  moreover have "px_resumes lab_processor" by (simp add: lab_processor_def)
  ultimately show ?thesis using exit_handler_refines [OF c mapped] by blast
qed

text \<open>
  C39. The handler is called with a misaligned stack. The VMCS sets the host stack pointer to a multiple
  of 16 and an exit pushes nothing, so after fifteen pushes and the 32 bytes of home space the call of
  \<open>HvHandleVmExit\<close> is made at 8 modulo 16, where the Windows x64 convention requires 0.
\<close>

theorem exit_stack_misaligned:
  assumes "host_registers m hv cr4 = Some ws" and "map_of ws VMCS_HOST_RSP = Some (reg_val s RSP)" and "hv mod PAGE_SIZE = 0"
    and "calls_handler p m vs"
    and "\<And>i. i < 120 \<Longrightarrow> as_mem s (reg_val s RSP - 120 + of_nat i) \<noteq> None"
  shows "reg_val s RSP mod 16 = 0 \<and>
    (\<exists>out s'. exec p HvExitHandler_code s = Some out \<and> (out = Resumed s' \<or> out = Trapped s') \<and>
      length (as_calls s') = Suc (length (as_calls s)) \<and> last (as_calls s') mod 16 = 8)"
proof -
  obtain tr where "ComputeSegmentBase (m_mem m) (Base (m_gdtr m)) (m_tr m) True = Some tr"
    using assms(1) by (auto simp: host_registers_eq bind_eq_Some_conv)
  then have sp: "reg_val s RSP = hv + 0x5FE0"
    using assms(1,2) by (auto simp: host_registers_eq vmcs_constants HostStack_def PAGE_SIZE_def HV_HOST_STACK_SIZE_def)
      (simp add: add.commute)
  have u: "unat hv mod 4096 = 0"
    using arg_cong [OF assms(3), of unat] by (simp add: PAGE_SIZE_def unat_mod)
  have "unat hv mod 16 = unat hv mod 4096 mod 16" by (rule mod_mod_cancel [symmetric]) simp
  then have u16: "unat hv mod 16 = 0" using u by simp
  have al: "(hv + c) mod 16 = d" if "unat c mod 16 = unat d" for c d :: u64
  proof -
    have "unat ((hv + c) mod 16) = (unat hv + unat c) mod 2 ^ 64 mod 16" by (simp add: unat_mod unat_word_ariths)
    also have "\<dots> = (unat hv + unat c) mod 16" by (rule mod_mod_cancel) simp
    also have "\<dots> = (unat hv mod 16 + unat c) mod 16" by (rule mod_add_left_eq [symmetric])
    also have "\<dots> = unat d" using u16 that by simp
    finally show ?thesis by (rule unsigned_word_eqI)
  qed
  obtain code regs' vs' where h: "HvHandleVmExit m (guest_regs (as_regs s)) vs = (code, regs', vs')"
    using prod_cases3 by blast
  obtain s' where s': "exec p HvExitHandler_code s = Some (if code = 0 \<and> px_resumes p then Resumed s' else Trapped s')"
    "as_calls s' = as_calls s @ [reg_val s RSP - 152]"
    using exit_handler_run [OF assms(4,5) h] by blast
  have low: "reg_val s RSP - 152 = hv + 0x5F48" unfolding sp by simp
  have "(reg_val s RSP - 152) mod 16 = 8" unfolding low by (rule al) simp
  moreover have "reg_val s RSP mod 16 = 0" unfolding sp by (rule al) simp
  ultimately show ?thesis using s' by (intro conjI exI [of _ "if code = 0 \<and> px_resumes p then Resumed s' else Trapped s'"] exI [of _ s']) auto
qed

theorem exit_stack_misaligned_witness:
  "\<exists>ws. host_registers sample_machine 0xE000 0 = Some ws \<and> map_of ws VMCS_HOST_RSP = Some (reg_val lab_state RSP) \<and>
    (\<exists>out s'. exec lab_processor HvExitHandler_code lab_state = Some out \<and> last (as_calls s') mod 16 = 8 \<and>
       (out = Resumed s' \<or> out = Trapped s'))"
proof -
  obtain tr where tr: "ComputeSegmentBase (m_mem sample_machine) (Base (m_gdtr sample_machine)) (m_tr sample_machine) True = Some tr"
    by (simp add: sample_machine_def ComputeSegmentBase_def)
  define ws where "ws = the (host_registers sample_machine 0xE000 0)"
  have h: "host_registers sample_machine 0xE000 0 = Some ws" by (simp add: ws_def host_registers_eq tr)
  have m: "map_of ws VMCS_HOST_RSP = Some (reg_val lab_state RSP)"
    by (simp add: ws_def host_registers_eq tr vmcs_constants lab_state_def HostStack_def PAGE_SIZE_def HV_HOST_STACK_SIZE_def)
  have c: "calls_handler lab_processor sample_machine (exit_at sample_guest 0x1000)"
    by (rule native_calls_handler) (simp add: lab_processor_def)
  have mapped: "as_mem lab_state a \<noteq> None" for a by (simp add: lab_state_def)
  have "(0xE000 :: u64) mod PAGE_SIZE = 0" by (simp add: PAGE_SIZE_def)
  from exit_stack_misaligned [OF h m this c mapped] h m show ?thesis by blast
qed

text \<open>
  C40. The assembly primitives are what the C code takes them for. Called by the Windows x64
  convention, each of the four returns to its caller with the stack pointer just above the return
  address and all eight protected registers unchanged: \<open>cpuid_asm\<close> stores the four results in the
  layout of \<open>CpuidResult\<close> and returns its address, \<open>rdtsc_asm\<close> and \<open>rdtscp_asm\<close> return the whole
  64-bit counter, \<open>rdtscp_asm\<close> stores the auxiliary value and with a NULL pointer stores nothing, and
  \<open>xgetbv_asm\<close> returns the 64-bit register.
\<close>

theorem asm_primitives_exact:
  assumes "peek (as_mem s) (reg_val s RSP) 8 = Some (le_bytes 8 ra)"
    and "\<And>i. i < 8 \<Longrightarrow> as_mem s (reg_val s RSP - 8 + of_nat i) \<noteq> None"
    and "\<And>i. i < 16 \<Longrightarrow> as_mem s (reg_val s RCX + of_nat i) \<noteq> None"
    and "apart (reg_val s RSP - 8) 16 (reg_val s RCX) 16" and "reg_val s RCX \<noteq> 0"
    and "px_cpuid p = cp_cpuid c" and "px_xcr p = cp_xcr c"
  shows "(\<exists>s'. exec p cpuid_code s = Some (Returned ra s') \<and> reg_val s' RAX = reg_val s RCX \<and>
        peek (as_mem s') (reg_val s RCX) 16 =
          Some (result_bytes (fst (run_state (cpuid_asm c (low32 (reg_val s RDX)) (low32 (reg_val s RR8))) []))) \<and>
        reg_val s' RSP = reg_val s RSP + 8 \<and>
        (\<forall>r \<in> {RBX, RBP, RSI, RDI, RR12, RR13, RR14, RR15}. reg_val s' r = reg_val s r)) \<and>
      (\<exists>s'. exec p rdtsc_code s = Some (Returned ra s') \<and> reg_val s' RAX = px_tsc p \<and> as_mem s' = as_mem s \<and>
        reg_val s' RSP = reg_val s RSP + 8 \<and>
        (\<forall>r \<in> {RBX, RBP, RSI, RDI, RR12, RR13, RR14, RR15}. reg_val s' r = reg_val s r)) \<and>
      (\<exists>s'. exec p rdtscp_code s = Some (Returned ra s') \<and> reg_val s' RAX = px_tsc p \<and>
        peek (as_mem s') (reg_val s RCX) 4 = Some (le_bytes 4 (px_aux p)) \<and>
        reg_val s' RSP = reg_val s RSP + 8 \<and>
        (\<forall>r \<in> {RBX, RBP, RSI, RDI, RR12, RR13, RR14, RR15}. reg_val s' r = reg_val s r)) \<and>
      (\<exists>s'. exec p rdtscp_code (set_reg RCX 0 s) = Some (Returned ra s') \<and> reg_val s' RAX = px_tsc p \<and> as_mem s' = as_mem s \<and>
        reg_val s' RSP = reg_val s RSP + 8 \<and>
        (\<forall>r \<in> {RBX, RBP, RSI, RDI, RR12, RR13, RR14, RR15}. reg_val s' r = reg_val s r)) \<and>
      (\<exists>s'. exec p xgetbv_code s = Some (Returned ra s') \<and> as_mem s' = as_mem s \<and>
        reg_val s' RAX = fst (run_state (xgetbv_asm c (low32 (reg_val s RCX))) []) \<and>
        reg_val s' RSP = reg_val s RSP + 8 \<and>
        (\<forall>r \<in> {RBX, RBP, RSI, RDI, RR12, RR13, RR14, RR15}. reg_val s' r = reg_val s r))"
proof -
  have "apart (reg_val s RSP - 8 + of_nat 8) 8 (reg_val s RCX) 4" by (rule apart_sub [OF assms(4)]) simp_all
  then have ap: "apart (reg_val s RSP) 8 (reg_val s RCX) 4" by simp
  have keep: "back_in_caller (set_reg RCX 0 s) = back_in_caller s"
    by (simp add: fun_eq_iff back_in_caller_def set_reg_def nonvolatile_def)
  have null: "\<exists>s'. exec p rdtscp_code (set_reg RCX 0 s) = Some (Returned ra s') \<and> reg_val s' RAX = px_tsc p \<and>
      as_mem s' = as_mem s \<and> back_in_caller s s'"
    using rdtscp_code_null [of "set_reg RCX 0 s" ra p] assms(1) unfolding keep by (simp add: set_reg_def)
  have cp: "fst (run_state (cpuid_asm c leaf sub) []) = px_cpuid p leaf sub" "fst (run_state (xgetbv_asm c x) []) = px_xcr p x" for leaf sub x
    by (simp_all add: cpuid_asm_def xgetbv_asm_def assms(6,7))
  have four: "as_mem s (reg_val s RCX + of_nat i) \<noteq> None" if "i < 4" for i using assms(3) that by simp
  show ?thesis unfolding cp nonvolatile_def [symmetric]
    using cpuid_code_run [OF assms(1-4), of p] rdtsc_code_run [OF assms(1), of p] rdtscp_code_run [OF assms(1,5) four ap, of p]
      null xgetbv_code_run [OF assms(1), of p] unfolding back_in_caller_def by blast
qed

theorem asm_primitives_exact_witness:
  "\<exists>s'. exec lab_processor cpuid_code lab_state = Some (Returned 0 s') \<and>
     peek (as_mem s') 0x8000 16 = Some (result_bytes \<lparr>r_eax = 1, r_ebx = 2, r_ecx = 3, r_edx = 4\<rparr>)"
proof -
  have mem: "as_mem lab_state a = Some 0" for a by (simp add: lab_state_def)
  have regs: "reg_val lab_state RSP = 0x13FE0" "reg_val lab_state RCX = 0x8000" "reg_val lab_state RDX = 1" "reg_val lab_state RR8 = 3"
    by (simp_all add: lab_state_def)
  have ret: "peek (as_mem lab_state) (reg_val lab_state RSP) 8 = Some (le_bytes 8 (0 :: u64))"
    by (simp add: numeral_eq_Suc mem)
  have ap: "apart (reg_val lab_state RSP - 8) 16 (reg_val lab_state RCX) 16"
  proof -
    have "0x13FD8 + of_nat i \<noteq> 0x8000 + (of_nat j :: u64)" if "i < 16" "j < 16" for i j
      using of_nat_u64_eq [of "0x13FD8 + i" "0x8000 + j"] that by simp
    then show ?thesis by (simp add: apart_def regs)
  qed
  define c where "c = \<lparr>cp_cpuid = px_cpuid lab_processor, cp_xcr = px_xcr lab_processor\<rparr>"
  have c: "px_cpuid lab_processor = cp_cpuid c" "px_xcr lab_processor = cp_xcr c" by (simp_all add: c_def)
  have m8: "as_mem lab_state (reg_val lab_state RSP - 8 + of_nat i) \<noteq> None" "as_mem lab_state (reg_val lab_state RCX + of_nat i) \<noteq> None" for i
    by (simp_all add: mem)
  have nz: "reg_val lab_state RCX \<noteq> 0" by (simp add: regs)
  have r: "fst (run_state (cpuid_asm c (low32 1) (low32 3)) []) = \<lparr>r_eax = 1, r_ebx = 2, r_ecx = 3, r_edx = 4\<rparr>"
    by (simp add: cpuid_asm_def c_def lab_processor_def low32_def)
  show ?thesis using asm_primitives_exact [OF ret m8(1) m8(2) ap nz c] unfolding regs r by blast
qed

end
