(* ===== verification/Printf.thy ===== *)
theory Printf
  imports C_Strings Complex_Main
begin

text \<open>
  The conversions of \<open>printf\<close> and the bounded store of \<open>snprintf\<close> that the program uses, as the
  C standard documents them: \<open>%u\<close>, \<open>%X\<close>, their zero and blank padding, \<open>%s\<close>, \<open>%-ns\<close>, \<open>%.nf\<close>.
  Text is a HOL \<open>string\<close>. \<open>%s\<close> reads its array up to the NUL and is \<open>None\<close> when there is none.
\<close>

section \<open>Numbers\<close>

definition digit :: "nat \<Rightarrow> char" where
  "digit d = char_of (if d < 10 then 48 + d else 55 + d)"

fun digits :: "nat \<Rightarrow> nat \<Rightarrow> string" where
  "digits b n = (if n < b \<or> b < 2 then [digit n] else digits b (n div b) @ [digit (n mod b)])"

declare digits.simps [simp del]

abbreviation dec :: "nat \<Rightarrow> string" where
  "dec \<equiv> digits 10"

abbreviation hexu :: "nat \<Rightarrow> string" where
  "hexu \<equiv> digits 16"

definition pad0 :: "nat \<Rightarrow> string \<Rightarrow> string" where
  "pad0 n s = replicate (n - length s) CHR ''0'' @ s"

definition padl :: "nat \<Rightarrow> string \<Rightarrow> string" where
  "padl n s = replicate (n - length s) CHR '' '' @ s"

definition padr :: "nat \<Rightarrow> string \<Rightarrow> string" where
  "padr n s = s @ replicate (n - length s) CHR '' ''"

text \<open>\<open>%.nf\<close> rounds the exact value to the nearest decimal, ties to even.\<close>

definition nearest :: "real \<Rightarrow> int" where
  "nearest x = (let k = \<lfloor>x\<rfloor>; r = x - of_int k in
     if r < 1 / 2 \<or> r = 1 / 2 \<and> even k then k else k + 1)"

definition fixed :: "nat \<Rightarrow> real \<Rightarrow> string" where
  "fixed n x =
     (let k = nat (nearest (\<bar>x\<bar> * 10 ^ n)) in
      (if x < 0 then ''-'' else '''') @ dec (k div 10 ^ n) @ ''.'' @ pad0 n (dec (k mod 10 ^ n)))"

section \<open>Strings\<close>

definition text_of :: "bytes \<Rightarrow> string" where
  "text_of bs = map (\<lambda>b. char_of (unat b)) bs"

definition str_arg :: "bytes \<Rightarrow> string option" where
  "str_arg arr = map_option text_of (c_string arr 0)"

definition nl :: string where
  "nl = [CHR 0x0A]"

text \<open>\<open>snprintf(arr + off, n, ...)\<close> of a formatted text: what is stored, and the value returned.\<close>

definition snprintf :: "string \<Rightarrow> nat \<Rightarrow> nat \<Rightarrow> string \<Rightarrow> (string \<times> int) option" where
  "snprintf arr off n s =
     (let stored = (if n = 0 then [] else take (n - 1) s @ [CHR 0x00]) in
      if off + length stored \<le> length arr
      then Some (take off arr @ stored @ drop (off + length stored) arr,
                 if length s < 2 ^ 31 then int (length s) else - 1)
      else None)"

section \<open>Facts\<close>

definition digit_value :: "char \<Rightarrow> nat" where
  "digit_value c = (let n = of_char c in if n < 58 then n - 48 else n - 55)"

definition number :: "nat \<Rightarrow> string \<Rightarrow> nat" where
  "number b s = foldl (\<lambda>acc c. b * acc + digit_value c) 0 s"

lemma digit_value_digit [simp]: "d < 16 \<Longrightarrow> digit_value (digit d) = d"
  by (simp add: digit_def digit_value_def Let_def)

lemma digit_inj: "d < 16 \<Longrightarrow> e < 16 \<Longrightarrow> digit d = digit e \<longleftrightarrow> d = e"
  by (metis digit_value_digit)

text \<open>A printed number reads back.\<close>

lemma number_digits [simp]: "2 \<le> b \<Longrightarrow> b \<le> 16 \<Longrightarrow> number b (digits b n) = n"
proof (induction b n rule: digits.induct)
  case (1 b n)
  show ?case
  proof (cases "n < b")
    case True with 1 show ?thesis by (simp add: digits.simps [of b n] number_def)
  next
    case False
    with 1 have "number b (digits b (n div b)) = n div b" by simp
    moreover have "n mod b < 16" using "1.prems" by (meson less_le_trans mod_less_divisor zero_less_numeral order_less_le_trans)
    ultimately show ?thesis using False "1.prems" by (simp add: digits.simps [of b n] number_def)
  qed
qed

lemma number_pad0 [simp]: "number b (pad0 k s) = number b s"
proof -
  have "foldl (\<lambda>acc c. b * acc + digit_value c) 0 (replicate m CHR ''0'') = 0" for m
    by (induction m) (simp_all add: digit_value_def)
  then show ?thesis by (simp add: number_def pad0_def)
qed

lemma length_digits: "2 \<le> b \<Longrightarrow> n < b ^ k \<Longrightarrow> 0 < k \<Longrightarrow> length (digits b n) \<le> k"
proof (induction b n arbitrary: k rule: digits.induct)
  case (1 b n)
  show ?case
  proof (cases "n < b")
    case True with 1 show ?thesis by (simp add: digits.simps [of b n])
  next
    case False
    obtain j where j: "k = Suc j" using "1.prems" by (cases k) auto
    with False "1.prems" have "0 < j" by (cases j) auto
    with j have k: "k = Suc j" "0 < j" by simp_all
    then have "n div b < b ^ j" using "1.prems" by (simp add: less_mult_imp_div_less mult.commute)
    with "1.IH" [of j] False "1.prems"(1) k show ?thesis by (simp add: digits.simps [of b n])
  qed
qed

lemma length_pad0_digits: "2 \<le> b \<Longrightarrow> n < b ^ k \<Longrightarrow> 0 < k \<Longrightarrow> length (pad0 k (digits b n)) = k"
  using length_digits [of b n k] by (simp add: pad0_def)

lemma str_arg_ok: "nul_terminated arr \<Longrightarrow> str_arg arr = Some (text_of (cstr arr))"
  by (simp add: str_arg_def c_string_def nul_terminated_def)

lemma snprintf_in:
  "off + n \<le> length arr \<Longrightarrow> length s < n \<Longrightarrow> n \<le> 2 ^ 31 \<Longrightarrow>
     snprintf arr off n s = Some (take off arr @ s @ CHR 0x00 # drop (off + length s + 1) arr, int (length s))"
  by (simp add: snprintf_def Let_def)

lemma digit_chars [simp]:
  "digit 0 = CHR ''0''" "digit (Suc 0) = CHR ''1''" "digit 2 = CHR ''2''" "digit 3 = CHR ''3''" "digit 4 = CHR ''4''"
  "digit 5 = CHR ''5''" "digit 6 = CHR ''6''" "digit 7 = CHR ''7''" "digit 8 = CHR ''8''" "digit 9 = CHR ''9''"
  "digit 10 = CHR ''A''" "digit 11 = CHR ''B''" "digit 12 = CHR ''C''" "digit 13 = CHR ''D''" "digit 14 = CHR ''E''"
  "digit 15 = CHR ''F''"
  by code_simp+

lemma pad0_Cons: "length s < n \<Longrightarrow> pad0 n s = CHR ''0'' # pad0 (n - 1) s"
  by (cases "n - length s") (simp_all add: pad0_def)

lemma pad0_full: "n \<le> length s \<Longrightarrow> pad0 n s = s"
  by (simp add: pad0_def)

lemma digit_not_blank: "d < 16 \<Longrightarrow> digit d \<noteq> CHR '' ''"
proof
  assume "d < 16" and "digit d = CHR '' ''"
  then have "(of_char (digit d) :: nat) = of_char (CHR '' '')" by simp
  with \<open>d < 16\<close> show False by (simp add: digit_def split: if_splits)
qed

lemma digits_not_blank: "2 \<le> b \<Longrightarrow> b \<le> 16 \<Longrightarrow> CHR '' '' \<notin> set (digits b n)"
proof (induction b n rule: digits.induct)
  case (1 b n)
  have "n mod b < 16" using "1.prems" by (meson less_le_trans mod_less_divisor zero_less_numeral order_less_le_trans)
  with "1.IH" "1.prems" digit_not_blank [of n] digit_not_blank [of "n mod b"] show ?case
    by (simp add: digits.simps [of b n]) (metis less_le_trans)
qed

end
