(* ===== verification/Log.thy ===== *)
theory Log
  imports Printf
begin

text \<open>
  \<open>src/output/logger.c\<close> and \<open>src/output/console_logger.c\<close>: the logger's 512-byte line, its level
  filter and the standard-output backend. The two static variables are the state \<open>logger\<close>; the
  local array is uninitialised, so its contents are an argument. The message is the text
  \<open>vsnprintf\<close> produces for the format and its arguments.
\<close>

section \<open>Levels\<close>

datatype LogLevel = LOG_TRACE | LOG_DEBUG | LOG_INFO | LOG_WARNING | LOG_ERROR

fun level_number :: "LogLevel \<Rightarrow> nat" where
  "level_number LOG_TRACE = 0"
| "level_number LOG_DEBUG = 1"
| "level_number LOG_INFO = 2"
| "level_number LOG_WARNING = 3"
| "level_number LOG_ERROR = 4"

lemma level_number_inj [simp]: "level_number a = level_number b \<longleftrightarrow> a = b"
  by (cases a; cases b) simp_all

instantiation LogLevel :: linorder
begin

definition less_eq_LogLevel :: "LogLevel \<Rightarrow> LogLevel \<Rightarrow> bool" where
  "less_eq_LogLevel a b \<longleftrightarrow> level_number a \<le> level_number b"

definition less_LogLevel :: "LogLevel \<Rightarrow> LogLevel \<Rightarrow> bool" where
  "less_LogLevel a b \<longleftrightarrow> level_number a < level_number b"

instance
  by standard (auto simp: less_eq_LogLevel_def less_LogLevel_def)

end

text \<open>The \<open>default\<close> of the switch is for values outside the enumeration, which no caller passes.\<close>

fun level_name :: "LogLevel \<Rightarrow> string" where
  "level_name LOG_TRACE = ''TRACE''"
| "level_name LOG_DEBUG = ''DEBUG''"
| "level_name LOG_INFO = ''INFO''"
| "level_name LOG_WARNING = ''WARNING''"
| "level_name LOG_ERROR = ''ERROR''"

section \<open>State and operations\<close>

text \<open>A backend appends to what standard output has received; its \<open>write\<close> may be NULL.\<close>

record Logger =
  lg_write :: "(string \<Rightarrow> nat \<Rightarrow> string \<Rightarrow> string option) option"

record logger =
  g_backend :: "Logger option"
  g_min_level :: LogLevel

definition logger0 :: logger where
  "logger0 = \<lparr>g_backend = None, g_min_level = LOG_INFO\<rparr>"

definition logger_set_backend :: "Logger option \<Rightarrow> logger \<Rightarrow> logger" where
  "logger_set_backend backend lg = lg\<lparr>g_backend := backend\<rparr>"

definition logger_set_min_level :: "LogLevel \<Rightarrow> logger \<Rightarrow> logger" where
  "logger_set_min_level level lg = lg\<lparr>g_min_level := level\<rparr>"

definition console_write :: "string \<Rightarrow> nat \<Rightarrow> string \<Rightarrow> string option" where
  "console_write message len out = (if len \<le> length message then Some (out @ take len message) else None)"

definition console_logger_create :: Logger where
  "console_logger_create = \<lparr>lg_write = Some console_write\<rparr>"

definition log_write :: "string \<Rightarrow> logger \<Rightarrow> LogLevel \<Rightarrow> string \<Rightarrow> string \<Rightarrow> string option" where
  "log_write buf lg level body out =
     (case Option.bind (g_backend lg) lg_write of
        None \<Rightarrow> Some out
      | Some write \<Rightarrow>
          if level < g_min_level lg then Some out
          else do {
            (buf, prefix_len) \<leftarrow> snprintf buf 0 512 (''['' @ level_name level @ ''] '');
            if prefix_len < 0 then Some out
            else do {
              let prefix_len = (if 512 \<le> prefix_len then 511 else nat prefix_len);
              (buf, body_len) \<leftarrow> snprintf buf prefix_len (512 - prefix_len) body;
              let total = (if 0 < body_len
                           then (let t = prefix_len + nat body_len in if 511 < t then 511 else t)
                           else prefix_len);
              if total + 1 < 512
              then (if total < length buf then write (buf[total := CHR 0x0A]) (total + 1) out else None)
              else write buf total out } })"

section \<open>Correctness\<close>

definition log_prefix :: "LogLevel \<Rightarrow> string" where
  "log_prefix level = ''['' @ level_name level @ ''] ''"

text \<open>The line a message becomes.\<close>

definition log_line :: "LogLevel \<Rightarrow> string \<Rightarrow> string" where
  "log_line level body =
     (let s = log_prefix level @ body in if length s \<le> 510 then s @ nl else take 511 s)"

lemma log_prefix_length: "length (log_prefix level) \<le> 10" "0 < length (log_prefix level)"
  by (cases level; simp add: log_prefix_def)+

lemma take_update_end: "t < length xs \<Longrightarrow> take (Suc t) (xs[t := c]) = take t xs @ [c]"
  by (simp add: take_Suc_conv_app_nth)

text \<open>The buffer after both stores, read up to the total.\<close>

lemma log_write_line:
  assumes b: "length buf = 512" and w: "Option.bind (g_backend lg) lg_write = Some write"
    and l: "\<not> level < g_min_level lg" and s: "length body < 2 ^ 31"
  shows "\<exists>buf'. length buf' = 512 \<and> take (length (log_line level body)) buf' = log_line level body \<and>
    length (log_line level body) \<le> 512 \<and>
    log_write buf lg level body out = write buf' (length (log_line level body)) out"
proof -
  let ?p = "log_prefix level"
  let ?n = "length ?p"
  note p = log_prefix_length [of level]
  define b1 where "b1 = ?p @ CHR 0x00 # drop (?n + 1) buf"
  have lb1: "length b1 = 512" using b p by (simp add: b1_def)
  have s1: "snprintf buf 0 512 ?p = Some (b1, int ?n)"
    using b p by (simp add: snprintf_in b1_def)
  define st where "st = take (511 - ?n) body @ [CHR 0x00]"
  have st: "?n + length st \<le> 512" using p by (simp add: st_def)
  define b2 where "b2 = take ?n b1 @ st @ drop (?n + length st) b1"
  have lb2: "length b2 = 512" using lb1 st p by (simp add: b2_def)
  have s2: "snprintf b1 ?n (512 - ?n) body = Some (b2, int (length body))"
    using st s lb1 p by (simp add: snprintf_def Let_def st_def [symmetric] b2_def)
  let ?t = "min 511 (?n + length body)"
  have tk: "take ?t b2 = take 511 (?p @ body)"
    using p by (auto simp: b2_def b1_def st_def min_def)
  have pl: "(int ?n < 0) = False" "(if 512 \<le> int ?n then 511 else nat (int ?n)) = ?n" using p by simp_all
  have tot: "(if 0 < int (length body) then (if 511 < ?n + nat (int (length body)) then 511 else ?n + nat (int (length body))) else ?n) = ?t"
    using p by (simp add: min_def)
  have run: "log_write buf lg level body out =
      (if ?t + 1 < 512 then (if ?t < length b2 then write (b2[?t := CHR 0x0A]) (?t + 1) out else None) else write b2 ?t out)"
    by (simp only: log_write_def [folded log_prefix_def] w option.case l if_False s1 bind.bind_lunit
        case_prod_conv pl Let_def s2 tot)
  show ?thesis
  proof (cases "?n + length body \<le> 510")
    case True
    then have line: "log_line level body = ?p @ body @ nl" by (simp add: log_line_def Let_def)
    have "take (Suc ?t) (b2[?t := CHR 0x0A]) = take ?t b2 @ [CHR 0x0A]" using lb2 by (intro take_update_end) simp
    also have "\<dots> = ?p @ body @ nl" using True by (simp only: tk nl_def) simp
    finally have "take (Suc ?t) (b2[?t := CHR 0x0A]) = log_line level body" by (simp only: line)
    moreover have "length (log_line level body) = Suc ?t" using True by (simp add: line nl_def)
    ultimately show ?thesis using True lb2 run by (intro exI [of _ "b2[?t := CHR 0x0A]"]) simp
  next
    case False
    then have line: "log_line level body = take 511 (?p @ body)" by (simp add: log_line_def Let_def)
    moreover have "length (log_line level body) = ?t" unfolding line by simp
    ultimately show ?thesis using False lb2 run tk by (intro exI [of _ b2]) simp
  qed
qed

lemma log_write_console:
  assumes "length buf = 512" and "length body < 2 ^ 31"
  shows "log_write buf (logger_set_min_level m (logger_set_backend (Some console_logger_create) lg)) level body out =
      Some (if level < m then out else out @ log_line level body)"
proof -
  let ?lg = "logger_set_min_level m (logger_set_backend (Some console_logger_create) lg)"
  have w: "Option.bind (g_backend ?lg) lg_write = Some console_write"
    by (simp add: logger_set_min_level_def logger_set_backend_def console_logger_create_def)
  have m: "g_min_level ?lg = m" by (simp add: logger_set_min_level_def)
  show ?thesis
  proof (cases "level < m")
    case True
    then show ?thesis using w m by (simp add: log_write_def)
  next
    case False
    with log_write_line [OF assms(1) w _ assms(2), of level out] m show ?thesis by (auto simp: console_write_def)
  qed
qed

text \<open>
  C37. Every message reaches the console as one line, \<open>[LEVEL] message\<close> and a newline, and never
  leaves the 512-byte buffer whatever its length and whatever the buffer held before: a message
  too long for the buffer is cut to 511 characters (and then loses its newline), one below the minimum
  level, or sent with no backend, writes nothing.
\<close>

theorem log_write_exact:
  assumes "length buf = 512" and "length body < 2 ^ 31"
  shows "log_write buf (logger_set_min_level m (logger_set_backend (Some console_logger_create) lg)) level body out =
      Some (if level < m then out else out @ log_line level body) \<and>
    log_write buf (logger_set_backend None lg) level body out = Some out \<and>
    log_write buf (logger_set_backend (Some \<lparr>lg_write = None\<rparr>) lg) level body out = Some out \<and>
    length (log_line level body) \<le> 511"
proof -
  let ?lg = "logger_set_min_level m (logger_set_backend (Some console_logger_create) lg)"
  have "log_write buf (logger_set_backend None lg) level body out = Some out"
    "log_write buf (logger_set_backend (Some \<lparr>lg_write = None\<rparr>) lg) level body out = Some out"
    "length (log_line level body) \<le> 511"
    by (auto simp: log_write_def logger_set_backend_def log_line_def Let_def nl_def)
  with log_write_console [OF assms, of m lg level out] show ?thesis by simp
qed

theorem log_write_exact_witness:
  "log_write (replicate 512 CHR ''?'') (logger_set_min_level LOG_INFO (logger_set_backend (Some console_logger_create) logger0))
     LOG_WARNING ''ACPI tables unavailable.'' '''' = Some (''[WARNING] ACPI tables unavailable.'' @ nl)"
  using log_write_exact [of "replicate 512 CHR ''?''" "''ACPI tables unavailable.''" LOG_INFO logger0 LOG_WARNING "''''"]
  by (simp add: log_line_def log_prefix_def less_LogLevel_def)

end
