(* ===== verification/Telemetry.thy ===== *)
theory Telemetry
  imports Complex_Main HW_Prelude
begin

text \<open>
  \<open>src/cpu/cpu_telemetry.c\<close>: utilization over a sampling window and the calibrated frequency of
  the time-stamp counter.

  The code computes quotients in \<open>double\<close>. An operation on doubles is the exact operation on the
  reals followed by a rounding (\<open>tm_round\<close>, a parameter); the library assumes of it only the
  relative error of the format where a property needs it. A conversion from \<open>double\<close> to
  \<open>uint64_t\<close> truncates, and is undefined (\<open>None\<close>) out of range.
\<close>

section \<open>Data\<close>

record FILETIME =
  dwLowDateTime :: u32
  dwHighDateTime :: u32

record CpuTelemetry =
  tl_frequency_available :: bool
  tl_frequency_hz :: u64
  tl_utilization_available :: bool
  tl_utilization_percent :: real
  tl_temperature_available :: bool
  tl_temperature_c :: real
  tl_power_available :: bool
  tl_power_watts :: real

definition telemetry0 :: CpuTelemetry where
  "telemetry0 = \<lparr>tl_frequency_available = False, tl_frequency_hz = 0, tl_utilization_available = False,
     tl_utilization_percent = 0, tl_temperature_available = False, tl_temperature_c = 0,
     tl_power_available = False, tl_power_watts = 0\<rparr>"

text \<open>What the two calls of \<open>GetSystemTimes\<close> (idle, kernel, user), the performance counter and RDTSC give.\<close>

record clocks =
  tm_times0 :: "(FILETIME \<times> FILETIME \<times> FILETIME) option"
  tm_times1 :: "(FILETIME \<times> FILETIME \<times> FILETIME) option"
  tm_qpc_freq :: "u64 option"
  tm_qpc0 :: "u64 option"
  tm_qpc1 :: "u64 option"
  tm_tsc0 :: u64
  tm_tsc1 :: u64
  tm_round :: "real \<Rightarrow> real"

datatype tel_event = Slept u32 | Rdtsc

section \<open>Sampling\<close>

definition filetime_to_u64 :: "FILETIME \<Rightarrow> u64" where
  "filetime_to_u64 ft = ucast (dwLowDateTime ft) OR push_bit 32 (ucast (dwHighDateTime ft))"

text \<open>The deltas of idle, kernel and user time, the total and the busy time.\<close>

definition busy_total :: "FILETIME \<times> FILETIME \<times> FILETIME \<Rightarrow> FILETIME \<times> FILETIME \<times> FILETIME \<Rightarrow> u64 \<times> u64" where
  "busy_total t0 t1 =
     (case (t0, t1) of ((idle0, kernel0, user0), (idle1, kernel1, user1)) \<Rightarrow>
        let idle_delta = filetime_to_u64 idle1 - filetime_to_u64 idle0;
            kernel_delta = filetime_to_u64 kernel1 - filetime_to_u64 kernel0;
            user_delta = filetime_to_u64 user1 - filetime_to_u64 user0;
            total_delta = kernel_delta + user_delta;
            busy_delta = (if idle_delta < total_delta then total_delta - idle_delta else 0) in
        (busy_delta, total_delta))"

definition sample_utilization :: "clocks \<Rightarrow> u32 \<Rightarrow> real option \<times> tel_event list" where
  "sample_utilization c window_ms =
     (case tm_times0 c of
        None \<Rightarrow> (None, [])
      | Some t0 \<Rightarrow>
          (case tm_times1 c of
             None \<Rightarrow> (None, [Slept window_ms])
           | Some t1 \<Rightarrow>
               (case busy_total t0 t1 of (busy_delta, total_delta) \<Rightarrow>
                  if total_delta = 0 then (Some 0, [Slept window_ms])
                  else
                    let r = tm_round c;
                        busy = r (real (unat busy_delta));
                        total = r (real (unat total_delta)) in
                    (Some (r (r (busy * 100) / total)), [Slept window_ms]))))"

text \<open>\<open>(uint64_t)x\<close>.\<close>

definition u64_of_double :: "real \<Rightarrow> u64 option" where
  "u64_of_double x = (if - 1 < x \<and> x < 2 ^ 64 then Some (of_nat (nat \<lfloor>x\<rfloor>)) else None)"

text \<open>The quotient of the two deltas, in the order the code computes it.\<close>

definition tsc_rate :: "(real \<Rightarrow> real) \<Rightarrow> u64 \<Rightarrow> int \<Rightarrow> int \<Rightarrow> real \<times> real" where
  "tsc_rate r tsc_delta qpc_delta qpc_freq =
     (let seconds = r (r (of_int qpc_delta) / r (of_int qpc_freq)) in
      (seconds, r (r (real (unat tsc_delta)) / seconds)))"

text \<open>The outer option is undefined behaviour, the inner the truth value returned.\<close>

definition calibrate_tsc_frequency :: "clocks \<Rightarrow> u32 \<Rightarrow> (u64 option \<times> tel_event list) option" where
  "calibrate_tsc_frequency c window_ms =
     (case tm_qpc_freq c of
        None \<Rightarrow> Some (None, [])
      | Some freq \<Rightarrow>
          if freq = 0 then Some (None, [])
          else
            (case tm_qpc0 c of
               None \<Rightarrow> Some (None, [])
             | Some qpc0 \<Rightarrow>
                 let ev = [Rdtsc, Slept window_ms, Rdtsc] in
                 (case tm_qpc1 c of
                    None \<Rightarrow> Some (None, ev)
                  | Some qpc1 \<Rightarrow>
                      let tsc_delta = tm_tsc1 c - tm_tsc0 c;
                          qpc_delta = sint qpc1 - sint qpc0 in
                      if qpc_delta < - (2 ^ 63) \<or> 2 ^ 63 \<le> qpc_delta then None
                      else if qpc_delta \<le> 0 then Some (None, ev)
                      else
                        (case tsc_rate (tm_round c) tsc_delta qpc_delta (sint freq) of
                           (seconds, hz) \<Rightarrow>
                             if seconds \<le> 0 then Some (None, ev)
                             else map_option (\<lambda>v. (Some v, ev)) (u64_of_double hz)))))"

definition cpu_telemetry_sample :: "clocks \<Rightarrow> u32 \<Rightarrow> bool \<Rightarrow> (CpuTelemetry \<times> tel_event list) option" where
  "cpu_telemetry_sample c sample_window_ms invariant_tsc =
     (let sample_window_ms = (if sample_window_ms = 0 then 100 else sample_window_ms);
          out = telemetry0\<lparr>tl_temperature_available := False, tl_power_available := False\<rparr> in
      case sample_utilization c sample_window_ms of
        (util, ev) \<Rightarrow>
          let out = (case util of None \<Rightarrow> out
            | Some p \<Rightarrow> out\<lparr>tl_utilization_available := True, tl_utilization_percent := p\<rparr>) in
          if invariant_tsc then
            do { (hz, ev') \<leftarrow> calibrate_tsc_frequency c sample_window_ms;
                 let out = (case hz of None \<Rightarrow> out
                   | Some v \<Rightarrow> out\<lparr>tl_frequency_available := True, tl_frequency_hz := v\<rparr>);
                 Some (out, ev @ ev') }
          else Some (out, ev))"

section \<open>Rounding\<close>

text \<open>The relative error of a rounding to nearest in the \<open>double\<close> format.\<close>

definition eps :: real where "eps = 1 / 2 ^ 53"

definition rounds :: "(real \<Rightarrow> real) \<Rightarrow> bool" where
  "rounds r \<longleftrightarrow> (\<forall>x. \<bar>r x - x\<bar> \<le> eps * \<bar>x\<bar>)"

lemma eps_range: "0 < eps" "eps < 1"
  by (simp_all add: eps_def)

lemma rounds_bounds:
  assumes "rounds r" and "0 \<le> x"
  shows "x * (1 - eps) \<le> r x" and "r x \<le> x * (1 + eps)"
proof -
  have "\<bar>r x - x\<bar> \<le> eps * x" using assms unfolding rounds_def by (metis abs_of_nonneg)
  then show "x * (1 - eps) \<le> r x" "r x \<le> x * (1 + eps)" unfolding abs_le_iff by (simp_all add: algebra_simps)
qed

lemma rounds_ge:
  assumes "rounds r" and "0 \<le> l" and "l \<le> x"
  shows "l * (1 - eps) \<le> r x"
proof -
  have "l * (1 - eps) \<le> x * (1 - eps)" using assms(3) eps_range by (simp add: mult_right_mono)
  also have "\<dots> \<le> r x" using rounds_bounds(1) [OF assms(1)] assms(2,3) by simp
  finally show ?thesis .
qed

lemma rounds_le:
  assumes "rounds r" and "0 \<le> x" and "x \<le> u"
  shows "r x \<le> u * (1 + eps)"
proof -
  have "r x \<le> x * (1 + eps)" by (rule rounds_bounds(2) [OF assms(1,2)])
  also have "\<dots> \<le> u * (1 + eps)" using assms(3) eps_range by (simp add: mult_right_mono)
  finally show ?thesis .
qed

lemma rounds_pos: "rounds r \<Longrightarrow> 0 < x \<Longrightarrow> 0 < r x"
  using rounds_bounds(1) [of r x] eps_range by (smt (verit) mult_pos_pos)

lemma rounds_nonneg: "rounds r \<Longrightarrow> 0 \<le> x \<Longrightarrow> 0 \<le> r x"
  using rounds_ge [of r 0 x] by simp

text \<open>The utilization is the exact quotient up to four roundings.\<close>

lemma utilization_between:
  assumes r: "rounds r" and bt: "0 \<le> B" "0 < T"
  shows "B * 100 / T * ((1 - eps) ^ 3 / (1 + eps)) \<le> r (r (r B * 100) / r T)"
    and "r (r (r B * 100) / r T) \<le> B * 100 / T * ((1 + eps) ^ 3 / (1 - eps))"
proof -
  note e = eps_range
  have T: "0 < r T" by (rule rounds_pos [OF r bt(2)])
  have tl: "T * (1 - eps) \<le> r T" and tu: "r T \<le> T * (1 + eps)" using rounds_bounds [OF r less_imp_le [OF bt(2)]] .
  have B: "0 \<le> r B" by (rule rounds_nonneg [OF r bt(1)])
  then have N: "0 \<le> r (r B * 100)" by (intro rounds_nonneg [OF r]) simp
  have nl: "B * (1 - eps) * 100 * (1 - eps) \<le> r (r B * 100)"
    by (rule rounds_ge [OF r]) (use rounds_bounds(1) [OF r bt(1)] bt e in simp_all)
  have nu: "r (r B * 100) \<le> B * (1 + eps) * 100 * (1 + eps)"
    by (rule rounds_le [OF r]) (use rounds_bounds(2) [OF r bt(1)] B in simp_all)
  have "B * (1 - eps) * 100 * (1 - eps) / (T * (1 + eps)) \<le> r (r B * 100) / r T"
    by (rule frac_le [OF N nl T tu])
  then have "B * (1 - eps) * 100 * (1 - eps) / (T * (1 + eps)) * (1 - eps) \<le> r (r (r B * 100) / r T)"
    by (intro rounds_ge [OF r]) (use bt e in simp_all)
  then show "B * 100 / T * ((1 - eps) ^ 3 / (1 + eps)) \<le> r (r (r B * 100) / r T)"
    by (simp add: power3_eq_cube mult_ac)
  have "r (r B * 100) / r T \<le> B * (1 + eps) * 100 * (1 + eps) / (T * (1 - eps))"
    by (rule frac_le [OF _ nu _ tl]) (use bt e in simp_all)
  then have "r (r (r B * 100) / r T) \<le> B * (1 + eps) * 100 * (1 + eps) / (T * (1 - eps)) * (1 + eps)"
    by (intro rounds_le [OF r]) (use N T in simp_all)
  then show "r (r (r B * 100) / r T) \<le> B * 100 / T * ((1 + eps) ^ 3 / (1 - eps))"
    by (simp add: power3_eq_cube mult_ac)
qed

text \<open>So is the frequency; the divisor is positive.\<close>

lemma rate_between:
  assumes r: "rounds r" and q: "0 < q" and f: "0 < f"
  shows "0 < fst (tsc_rate r t q f)"
    and "real (unat t) * of_int f / of_int q * ((1 - eps) ^ 3 / (1 + eps) ^ 2) \<le> snd (tsc_rate r t q f)"
    and "snd (tsc_rate r t q f) \<le> real (unat t) * of_int f / of_int q * ((1 + eps) ^ 3 / (1 - eps) ^ 2)"
proof -
  note e = eps_range
  let ?q = "of_int q :: real" and ?f = "of_int f :: real"
  define x where "x = real (unat t)"
  have x: "0 \<le> x" unfolding x_def by (rule of_nat_0_le_iff)
  define s where "s = r (r ?q / r ?f)"
  have pos: "0 < ?q" "0 < ?f" using q f by simp_all
  have Q: "0 < r ?q" and F: "0 < r ?f" using pos by (simp_all add: rounds_pos [OF r])
  then have S: "0 < s" unfolding s_def by (intro rounds_pos [OF r]) simp
  have T: "0 \<le> r x" by (rule rounds_nonneg [OF r x])
  note bq = rounds_bounds [OF r less_imp_le [OF pos(1)]] and bf = rounds_bounds [OF r less_imp_le [OF pos(2)]]
    and bt = rounds_bounds [OF r x]
  show "0 < fst (tsc_rate r t q f)" using S by (simp add: tsc_rate_def Let_def s_def)
  have h: "snd (tsc_rate r t q f) = r (r x / s)" by (simp add: tsc_rate_def Let_def s_def x_def)
  have "?q * (1 - eps) / (?f * (1 + eps)) \<le> r ?q / r ?f" using Q by (intro frac_le [OF _ bq(1) F bf(2)]) simp
  then have sl: "?q * (1 - eps) / (?f * (1 + eps)) * (1 - eps) \<le> s"
    unfolding s_def by (intro rounds_ge [OF r]) (use pos e x in simp_all)
  have "r ?q / r ?f \<le> ?q * (1 + eps) / (?f * (1 - eps))" by (rule frac_le [OF _ bq(2) _ bf(1)]) (use pos e x in simp_all)
  then have su: "s \<le> ?q * (1 + eps) / (?f * (1 - eps)) * (1 + eps)"
    unfolding s_def by (intro rounds_le [OF r]) (use Q F in simp_all)
  have "x * (1 - eps) / (?q * (1 + eps) / (?f * (1 - eps)) * (1 + eps)) \<le> r x / s"
    by (rule frac_le [OF T bt(1) S su])
  then have "x * (1 - eps) / (?q * (1 + eps) / (?f * (1 - eps)) * (1 + eps)) * (1 - eps) \<le> r (r x / s)"
    by (intro rounds_ge [OF r]) (use pos e x in simp_all)
  then show "real (unat t) * ?f / ?q * ((1 - eps) ^ 3 / (1 + eps) ^ 2) \<le> snd (tsc_rate r t q f)"
    unfolding h x_def [symmetric] by (simp add: power3_eq_cube power2_eq_square mult_ac)
  have "r x / s \<le> x * (1 + eps) / (?q * (1 - eps) / (?f * (1 + eps)) * (1 - eps))"
    by (rule frac_le [OF _ bt(2) _ sl]) (use pos e x in simp_all)
  then have "r (r x / s) \<le> x * (1 + eps) / (?q * (1 - eps) / (?f * (1 + eps)) * (1 - eps)) * (1 + eps)"
    by (intro rounds_le [OF r]) (use T S in simp_all)
  then show "snd (tsc_rate r t q f) \<le> real (unat t) * ?f / ?q * ((1 + eps) ^ 3 / (1 - eps) ^ 2)"
    unfolding h x_def [symmetric] by (simp add: power3_eq_cube power2_eq_square mult_ac)
qed

lemma busy_le_total: "fst (busy_total t0 t1) \<le> snd (busy_total t0 t1)"
proof -
  have "x - y \<le> x" if "y < x" for x y :: u64 using that by (simp add: word_le_nat_alt word_less_nat_alt unat_sub_if')
  then show ?thesis by (simp add: busy_total_def Let_def split: prod.split)
qed

lemma sample_utilization_cases:
  assumes "sample_utilization c w = (Some p, ev)"
  obtains t0 t1 where "tm_times0 c = Some t0" "tm_times1 c = Some t1"
    "p = (if snd (busy_total t0 t1) = 0 then 0
          else tm_round c (tm_round c (tm_round c (real (unat (fst (busy_total t0 t1)))) * 100)
                 / tm_round c (real (unat (snd (busy_total t0 t1))))))"
  using assms unfolding sample_utilization_def
  by (auto simp: Let_def split: option.splits prod.splits if_splits)

text \<open>What the calibration may give: nothing, or a rate between two readings of both clocks.\<close>

lemma calibrate_cases:
  assumes "calibrate_tsc_frequency c w = Some (Some hz, ev)"
  obtains freq q0 q1 where "tm_qpc_freq c = Some freq" "tm_qpc0 c = Some q0" "tm_qpc1 c = Some q1"
    "freq \<noteq> 0" "0 < sint q1 - sint q0"
    "u64_of_double (snd (tsc_rate (tm_round c) (tm_tsc1 c - tm_tsc0 c) (sint q1 - sint q0) (sint freq))) = Some hz"
  using assms unfolding calibrate_tsc_frequency_def
  by (auto simp: Let_def split: option.splits prod.splits if_splits)

lemma u64_of_double_floor:
  assumes "u64_of_double x = Some v" and "0 \<le> x"
  shows "int (unat v) = \<lfloor>x\<rfloor>"
proof -
  have x: "x < 2 ^ 64" "v = of_nat (nat \<lfloor>x\<rfloor>)" using assms(1) by (auto simp: u64_of_double_def split: if_splits)
  have "\<lfloor>x\<rfloor> < 2 ^ 64" using x(1) by (simp add: floor_less_iff)
  then have "nat \<lfloor>x\<rfloor> < 2 ^ 64" using assms(2) by (simp add: nat_less_iff)
  then have "unat v = nat \<lfloor>x\<rfloor>" unfolding x(2) by (simp add: unat_of_nat)
  then show ?thesis using assms(2) by simp
qed

section \<open>Correctness\<close>

text \<open>
  What the properties assume of the machine: doubles round, the performance counter and its
  frequency are not negative (the documented range), and the measured rate is below \<open>2\<^sup>6\<^sup>3\<close> Hz.
\<close>

definition clocks_ok :: "clocks \<Rightarrow> bool" where
  "clocks_ok c \<longleftrightarrow> rounds (tm_round c) \<and>
     (\<forall>f q0 q1. tm_qpc_freq c = Some f \<and> tm_qpc0 c = Some q0 \<and> tm_qpc1 c = Some q1 \<longrightarrow>
        0 \<le> sint f \<and> 0 \<le> sint q0 \<and> 0 \<le> sint q1 \<and>
        (sint q0 < sint q1 \<longrightarrow>
           real (unat (tm_tsc1 c - tm_tsc0 c)) * of_int (sint f) / of_int (sint q1 - sint q0) \<le> 2 ^ 63))"

definition both_times :: "clocks \<Rightarrow> bool" where
  "both_times c \<longleftrightarrow> tm_times0 c \<noteq> None \<and> tm_times1 c \<noteq> None"

definition counter_ran :: "clocks \<Rightarrow> bool" where
  "counter_ran c \<longleftrightarrow> (\<exists>f q0 q1. tm_qpc_freq c = Some f \<and> f \<noteq> 0 \<and> tm_qpc0 c = Some q0 \<and> tm_qpc1 c = Some q1 \<and>
     sint q0 < sint q1)"

text \<open>
  The exact utilization, on numbers: a time is the 64-bit count its two halves spell, a difference
  of two readings is taken modulo \<open>2\<^sup>6\<^sup>4\<close>, kernel time includes idle time, and idle time beyond the
  total counts as no busy time. A total of 0 gives 0.
\<close>

definition hundred_ns :: "FILETIME \<Rightarrow> int" where
  "hundred_ns t = uint (dwLowDateTime t) + 2 ^ 32 * uint (dwHighDateTime t)"

definition util_exact :: "clocks \<Rightarrow> real" where
  "util_exact c =
     (case (tm_times0 c, tm_times1 c) of
        (Some (idle0, kernel0, user0), Some (idle1, kernel1, user1)) \<Rightarrow>
          let idle = (hundred_ns idle1 - hundred_ns idle0) mod 2 ^ 64;
              total = ((hundred_ns kernel1 - hundred_ns kernel0) + (hundred_ns user1 - hundred_ns user0)) mod 2 ^ 64 in
          if total = 0 then 0 else of_int (max 0 (total - idle)) * 100 / of_int total
      | _ \<Rightarrow> 0)"

definition rate_exact :: "clocks \<Rightarrow> real" where
  "rate_exact c = real (unat (tm_tsc1 c - tm_tsc0 c)) * of_int (sint (the (tm_qpc_freq c)))
     / of_int (sint (the (tm_qpc1 c)) - sint (the (tm_qpc0 c)))"

lemma uint_filetime: "uint (filetime_to_u64 t) = hundred_ns t"
proof -
  have d: "(ucast (dwLowDateTime t) :: u64) AND push_bit 32 (ucast (dwHighDateTime t)) = 0"
    by (rule bit_word_eqI) (auto simp: bit_simps dest: bit_imp_le_length)
  have wide: "uint (ucast w :: u64) = uint w" for w :: u32 by (rule uint_up_ucast) (simp add: is_up)
  have "uint (filetime_to_u64 t) = (uint (dwLowDateTime t) + 2 ^ 32 * uint (dwHighDateTime t)) mod 2 ^ 64"
    unfolding filetime_to_u64_def disjunctive_add_eq_or [OF d, symmetric]
    by (simp add: push_bit_eq_mult uint_word_ariths mod_simps mult.commute wide)
  moreover have "uint (dwLowDateTime t) + 2 ^ 32 * uint (dwHighDateTime t) < 2 ^ 64"
    using uint_lt2p [of "dwLowDateTime t"] uint_lt2p [of "dwHighDateTime t"] by simp
  ultimately show ?thesis by (simp add: hundred_ns_def)
qed

lemma util_exact_words:
  assumes "tm_times0 c = Some t0" and "tm_times1 c = Some t1"
  shows "util_exact c = real (unat (fst (busy_total t0 t1))) * 100 / real (unat (snd (busy_total t0 t1)))"
proof -
  obtain i0 k0 u0 i1 k1 u1 where t: "t0 = (i0, k0, u0)" "t1 = (i1, k1, u1)" by (metis prod_cases3)
  define I where "I = filetime_to_u64 i1 - filetime_to_u64 i0"
  define T where "T = filetime_to_u64 k1 - filetime_to_u64 k0 + (filetime_to_u64 u1 - filetime_to_u64 u0)"
  have I: "uint I = (hundred_ns i1 - hundred_ns i0) mod 2 ^ 64"
    by (simp add: I_def uint_word_ariths uint_filetime)
  have T: "uint T = ((hundred_ns k1 - hundred_ns k0) + (hundred_ns u1 - hundred_ns u0)) mod 2 ^ 64"
    by (simp add: T_def uint_word_ariths uint_filetime mod_simps)
  have bt: "busy_total t0 t1 = (if I < T then T - I else 0, T)" by (simp add: busy_total_def t I_def T_def Let_def)
  have B: "uint (if I < T then T - I else 0) = max 0 (uint T - uint I)"
    by (auto simp: word_less_def uint_sub_if' max_def)
  have real: "real (unat x) = of_int (uint x)" for x :: u64 by (metis of_int_of_nat_eq uint_nat)
  have "util_exact c = (if uint T = 0 then 0 else of_int (max 0 (uint T - uint I)) * 100 / of_int (uint T))"
    unfolding util_exact_def assms t I T Let_def by (simp only: option.case case_prod_conv)
  then show ?thesis unfolding bt fst_conv snd_conv real B by simp
qed

lemma util_available: "fst (sample_utilization c w) \<noteq> None \<longleftrightarrow> both_times c"
  by (auto simp: sample_utilization_def both_times_def Let_def split: option.splits prod.splits)

lemma sample_utilization_bounds:
  assumes c: "clocks_ok c" and p: "fst (sample_utilization c w) = Some p"
  shows "util_exact c * ((1 - eps) ^ 3 / (1 + eps)) \<le> p \<and> p \<le> util_exact c * ((1 + eps) ^ 3 / (1 - eps))"
proof -
  obtain ev where "sample_utilization c w = (Some p, ev)" using p by (metis prod.collapse)
  from sample_utilization_cases [OF this] obtain t0 t1 where t: "tm_times0 c = Some t0" "tm_times1 c = Some t1"
    "p = (if snd (busy_total t0 t1) = 0 then 0
          else tm_round c (tm_round c (tm_round c (real (unat (fst (busy_total t0 t1)))) * 100)
                 / tm_round c (real (unat (snd (busy_total t0 t1))))))" by metis
  obtain B T where bt: "busy_total t0 t1 = (B, T)" by fastforce
  have u: "util_exact c = real (unat B) * 100 / real (unat T)" using util_exact_words [OF t(1,2)] by (simp add: bt)
  show ?thesis
  proof (cases "T = 0")
    case True then show ?thesis using t(3) bt u by simp
  next
    case False
    then have T: "0 < real (unat T)" by (simp add: unat_gt_0 del: of_nat_unat)
    show ?thesis unfolding u t(3) bt
      using utilization_between [OF _ of_nat_0_le_iff T, of "tm_round c" "unat B"] c False by (simp add: clocks_ok_def del: of_nat_unat)
  qed
qed

text \<open>The percentage is never above \<open>100\<close> by more than the roundings.\<close>

lemma util_exact_range: "0 \<le> util_exact c \<and> util_exact c \<le> 100"
proof -
  have frac: "0 \<le> of_int (max 0 (t - i)) * 100 / (of_int t :: real) \<and> of_int (max 0 (t - i)) * 100 / (of_int t :: real) \<le> 100"
    if "0 \<le> i" "0 \<le> t" "t \<noteq> 0" for i t :: int
    using that by (simp add: field_simps max_def)
  show ?thesis unfolding util_exact_def Let_def
    by (auto split: option.splits prod.splits intro!: frac [THEN conjunct1] frac [THEN conjunct2])
qed

text \<open>No undefined behaviour in the calibration, and the rate it gives.\<close>

lemma calibrate_exact:
  assumes c: "clocks_ok c"
  shows "\<exists>hz ev. calibrate_tsc_frequency c w = Some (hz, ev) \<and> (hz \<noteq> None \<longleftrightarrow> counter_ran c) \<and>
    (\<forall>v. hz = Some v \<longrightarrow> rate_exact c * ((1 - eps) ^ 3 / (1 + eps) ^ 2) - 1 < real (unat v) \<and>
       real (unat v) \<le> rate_exact c * ((1 + eps) ^ 3 / (1 - eps) ^ 2))"
proof (cases "counter_ran c")
  case False
  have lt: "sint x < 9223372036854775808" for x :: u64 using sint_lt [of x] by simp
  show ?thesis using c False
    by (auto simp: calibrate_tsc_frequency_def counter_ran_def clocks_ok_def Let_def split: option.split)
      (smt (verit) lt)
next
  case True
  then obtain f q0 q1 where q: "tm_qpc_freq c = Some f" "f \<noteq> 0" "tm_qpc0 c = Some q0" "tm_qpc1 c = Some q1"
    "sint q0 < sint q1" by (auto simp: counter_ran_def)
  let ?t = "tm_tsc1 c - tm_tsc0 c" and ?q = "sint q1 - sint q0"
  obtain seconds hz where sh: "tsc_rate (tm_round c) ?t ?q (sint f) = (seconds, hz)" by fastforce
  have r: "rounds (tm_round c)" and nn: "0 \<le> sint f" "0 \<le> sint q0" "0 \<le> sint q1"
    and le: "real (unat ?t) * of_int (sint f) / of_int ?q \<le> 2 ^ 63"
    using c q unfolding clocks_ok_def by blast+
  have f: "0 < sint f" using nn(1) q(2) by (metis order_le_less signed_word_eqI signed_0)
  note b = rate_between [OF r _ f, where t = ?t and q = ?q, unfolded sh fst_conv snd_conv]
  have R: "rate_exact c = real (unat ?t) * of_int (sint f) / of_int ?q" by (simp only: rate_exact_def q option.sel)
  have hz: "rate_exact c * ((1 - eps) ^ 3 / (1 + eps) ^ 2) \<le> hz" "hz \<le> rate_exact c * ((1 + eps) ^ 3 / (1 - eps) ^ 2)"
    unfolding R using b(2,3) q(5) by (simp_all del: of_int_sint)
  have pos: "0 \<le> rate_exact c" unfolding R using q(5) f by (intro divide_nonneg_pos mult_nonneg_nonneg of_nat_0_le_iff) (simp_all del: of_int_sint)
  have "0 \<le> rate_exact c * ((1 - eps) ^ 3 / (1 + eps) ^ 2)" using pos eps_range by simp
  with hz(1) have hz0: "0 \<le> hz" by linarith
  have "hz \<le> 2 ^ 63 * ((1 + eps) ^ 3 / (1 - eps) ^ 2)"
    using hz(2) le [folded R] eps_range by (meson order_trans mult_right_mono divide_nonneg_nonneg zero_le_power zero_le_power2 add_nonneg_nonneg less_imp_le zero_le_one)
  also have "\<dots> < 2 ^ 64" by (simp add: eps_def power3_eq_cube power2_eq_square)
  finally have h64: "hz < 2 ^ 64" .
  obtain v where v: "u64_of_double hz = Some v" using hz0 h64 by (simp add: u64_of_double_def)
  have "int (unat v) = \<lfloor>hz\<rfloor>" by (rule u64_of_double_floor [OF v hz0])
  then have "real (unat v) = of_int \<lfloor>hz\<rfloor>" by (metis of_int_of_nat_eq)
  then have vb: "hz - 1 < real (unat v)" "real (unat v) \<le> hz" by linarith+
  have "calibrate_tsc_frequency c w = Some (Some v, [Rdtsc, Slept w, Rdtsc])"
    using q nn b(1) sh v sint_lt [of q1] by (simp add: calibrate_tsc_frequency_def Let_def)
  then show ?thesis using True vb hz by auto
qed


lemma sample_utilization_events: "set (snd (sample_utilization c w)) \<subseteq> {Rdtsc, Slept w}"
  by (auto simp: sample_utilization_def Let_def split: option.split prod.split)

lemma calibrate_events: "calibrate_tsc_frequency c w = Some (hz, ev) \<Longrightarrow> set ev \<subseteq> {Rdtsc, Slept w}"
  by (auto simp: calibrate_tsc_frequency_def Let_def split: option.splits prod.splits if_splits)

lemma cpu_telemetry_result:
  assumes "clocks_ok c"
  shows "\<exists>out ev. cpu_telemetry_sample c w itsc = Some (out, ev) \<and>
    \<not> tl_temperature_available out \<and> \<not> tl_power_available out \<and>
    set ev \<subseteq> {Rdtsc, Slept (if w = 0 then 100 else w)} \<and>
    tl_utilization_available out = both_times c \<and>
    (tl_utilization_available out \<longrightarrow>
       0 \<le> util_exact c \<and> util_exact c \<le> 100 \<and>
       util_exact c * ((1 - eps) ^ 3 / (1 + eps)) \<le> tl_utilization_percent out \<and>
       tl_utilization_percent out \<le> util_exact c * ((1 + eps) ^ 3 / (1 - eps))) \<and>
    tl_frequency_available out = (itsc \<and> counter_ran c) \<and>
    (tl_frequency_available out \<longrightarrow>
       rate_exact c * ((1 - eps) ^ 3 / (1 + eps) ^ 2) - 1 < real (unat (tl_frequency_hz out)) \<and>
       real (unat (tl_frequency_hz out)) \<le> rate_exact c * ((1 + eps) ^ 3 / (1 - eps) ^ 2))"
proof -
  define w' where "w' = (if w = 0 then 100 else w)"
  obtain util ev where u: "sample_utilization c w' = (util, ev)" by fastforce
  obtain hz ev' where h: "calibrate_tsc_frequency c w' = Some (hz, ev')"
    and hz: "hz \<noteq> None \<longleftrightarrow> counter_ran c"
      "\<And>v. hz = Some v \<Longrightarrow> rate_exact c * ((1 - eps) ^ 3 / (1 + eps) ^ 2) - 1 < real (unat v) \<and>
         real (unat v) \<le> rate_exact c * ((1 + eps) ^ 3 / (1 - eps) ^ 2)"
    using calibrate_exact [OF assms, of w'] by metis
  have ua: "util \<noteq> None \<longleftrightarrow> both_times c" using util_available [of c w'] u by simp
  have ub: "util_exact c * ((1 - eps) ^ 3 / (1 + eps)) \<le> p \<and> p \<le> util_exact c * ((1 + eps) ^ 3 / (1 - eps))"
    if "util = Some p" for p using sample_utilization_bounds [OF assms, of w' p] u that by simp
  have e: "set ev \<subseteq> {Rdtsc, Slept w'}" "set ev' \<subseteq> {Rdtsc, Slept w'}"
    using sample_utilization_events [of c w'] calibrate_events [OF h] u by auto
  show ?thesis
    unfolding cpu_telemetry_sample_def w'_def [symmetric] Let_def u
    using e ua hz(1) ub hz(2) util_exact_range [of c]
    by (cases util; cases hz; cases itsc) (simp_all add: h telemetry0_def del: of_nat_unat)
qed

text \<open>
  C16. The telemetry is honest. On a machine whose clocks behave as documented the sample never
  runs into undefined behaviour and always returns. Utilization is marked available exactly when
  both readings of the system times succeeded, and is then, up to four roundings, the percentage
  of the elapsed kernel and user time that was not idle, computed on the numbers the time readings
  spell: 0 when idle time makes up or exceeds the total, and always between 0 and 100. A
  frequency is reported only with an invariant time-stamp counter and a performance counter that
  ran forward, and is then the exact quotient up to the roundings and the truncation to an
  integer. Temperature and power are never marked available. Every wait lasts the window asked
  for, or 100 ms when it was 0.
\<close>

theorem telemetry_honest:
  assumes "clocks_ok c"
  shows "\<exists>out ev. cpu_telemetry_sample c w itsc = Some (out, ev) \<and>
    \<not> tl_temperature_available out \<and> \<not> tl_power_available out \<and>
    set ev \<subseteq> {Rdtsc, Slept (if w = 0 then 100 else w)} \<and>
    tl_utilization_available out = both_times c \<and>
    (tl_utilization_available out \<longrightarrow>
       0 \<le> util_exact c \<and> util_exact c \<le> 100 \<and>
       util_exact c * ((1 - eps) ^ 3 / (1 + eps)) \<le> tl_utilization_percent out \<and>
       tl_utilization_percent out \<le> util_exact c * ((1 + eps) ^ 3 / (1 - eps))) \<and>
    tl_frequency_available out = (itsc \<and> counter_ran c) \<and>
    (tl_frequency_available out \<longrightarrow>
       rate_exact c * ((1 - eps) ^ 3 / (1 + eps) ^ 2) - 1 < real (unat (tl_frequency_hz out)) \<and>
       real (unat (tl_frequency_hz out)) \<le> rate_exact c * ((1 + eps) ^ 3 / (1 - eps) ^ 2))"
  by (rule cpu_telemetry_result [OF assms])

definition lab_clocks :: clocks where
  "lab_clocks = \<lparr>tm_times0 = Some (\<lparr>dwLowDateTime = 0, dwHighDateTime = 0\<rparr>, \<lparr>dwLowDateTime = 0, dwHighDateTime = 0\<rparr>, \<lparr>dwLowDateTime = 0, dwHighDateTime = 0\<rparr>),
     tm_times1 = Some (\<lparr>dwLowDateTime = 30, dwHighDateTime = 0\<rparr>, \<lparr>dwLowDateTime = 60, dwHighDateTime = 0\<rparr>, \<lparr>dwLowDateTime = 40, dwHighDateTime = 0\<rparr>),
     tm_qpc_freq = Some 10000000, tm_qpc0 = Some 5, tm_qpc1 = Some 1000005, tm_tsc0 = 7, tm_tsc1 = 300000007,
     tm_round = id\<rparr>"

lemma lab_clocks_ok: "clocks_ok lab_clocks"
  by (simp add: clocks_ok_def lab_clocks_def rounds_def eps_def)

theorem telemetry_honest_witness:
  "\<exists>out ev. cpu_telemetry_sample lab_clocks 0 True = Some (out, ev) \<and> tl_frequency_available out \<and>
     tl_utilization_available out \<and> tl_utilization_percent out < 71"
proof -
  obtain out ev where s: "cpu_telemetry_sample lab_clocks 0 True = Some (out, ev)"
    and o: "tl_utilization_available out = both_times lab_clocks" "tl_frequency_available out = (True \<and> counter_ran lab_clocks)"
      "tl_utilization_available out \<longrightarrow> tl_utilization_percent out \<le> util_exact lab_clocks * ((1 + eps) ^ 3 / (1 - eps))"
    using telemetry_honest [OF lab_clocks_ok, of 0 True] by metis
  have b: "both_times lab_clocks" "counter_ran lab_clocks" by (simp_all add: both_times_def counter_ran_def lab_clocks_def)
  have "util_exact lab_clocks = 70"
    by (simp add: util_exact_def hundred_ns_def lab_clocks_def)
  then have "tl_utilization_percent out \<le> 70 * ((1 + eps) ^ 3 / (1 - eps))" using o(1,3) b by simp
  also have "\<dots> < 71" by (simp add: eps_def power3_eq_cube)
  finally show ?thesis using s o b by auto
qed

end
