(* ===== verification/Report.thy ===== *)
theory Report
  imports Printf Smbios Acpi Cpu_Id Pci Storage Memory_Info Telemetry
begin

text \<open>
  \<open>src/output/report.c\<close>: what each section prints. A section is the text it sends to standard
  output; \<open>None\<close> is a \<open>%s\<close> of an array without a NUL, or a store outside the feature buffer.
  Quotients in \<open>double\<close> round with the function the telemetry uses.
\<close>

section \<open>Shared pieces\<close>

definition print_rule :: string where
  "print_rule = ''----------------------------------------'' @ nl"

definition report_print_header :: string where
  "report_print_header =
     ''========================================'' @ nl @
     '' LOW LEVEL HARDWARE MONITOR'' @ nl @
     ''========================================'' @ nl @ nl"

fun print_all :: "('a \<Rightarrow> string option) \<Rightarrow> 'a list \<Rightarrow> string option" where
  "print_all f [] = Some ''''"
| "print_all f (x # xs) = do { a \<leftarrow> f x; b \<leftarrow> print_all f xs; Some (a @ b) }"

definition nz :: "bytes \<Rightarrow> string option" where
  "nz s = do { b \<leftarrow> rd8 s 0; if b \<noteq> 0 then str_arg s else Some ''UNKNOWN'' }"

definition gigabytes :: "(real \<Rightarrow> real) \<Rightarrow> u64 \<Rightarrow> string" where
  "gigabytes r n = fixed 2 (r (r (real (unat n)) / 1073741824)) @ '' GB''"

section \<open>CPU\<close>

text \<open>The feature line is built in a local array of 512 bytes; \<open>size_t\<close> has 64 bits.\<close>

definition append_feature :: "nat \<Rightarrow> string \<Rightarrow> bool \<Rightarrow> string \<times> nat \<Rightarrow> (string \<times> nat) option" where
  "append_feature buf_size name present bl =
     (case bl of (buf, len) \<Rightarrow>
        if \<not> present then Some (buf, len)
        else do {
          (buf, written) \<leftarrow> snprintf buf len (nat ((int buf_size - int len) mod 2 ^ 64))
                               ((if len \<noteq> 0 then '' '' else '''') @ name);
          Some (buf, if 0 < written then len + nat written else len) })"

fun append_features :: "(string \<times> bool) list \<Rightarrow> string \<times> nat \<Rightarrow> (string \<times> nat) option" where
  "append_features [] bl = Some bl"
| "append_features ((name, present) # rest) bl =
     do { bl \<leftarrow> append_feature 512 name present bl; append_features rest bl }"

text \<open>The calls of \<open>append_feature\<close>, in order.\<close>

definition feature_calls :: "CpuFeatures \<Rightarrow> (string \<times> bool) list" where
  "feature_calls f =
     [(''SSE'', cf_sse f), (''SSE2'', cf_sse2 f), (''SSE3'', cf_sse3 f), (''SSSE3'', cf_ssse3 f),
      (''SSE4.1'', cf_sse4_1 f), (''SSE4.2'', cf_sse4_2 f), (''AVX'', cf_avx f), (''AVX2'', cf_avx2 f),
      (''AVX512F'', cf_avx512f f),
      (''(AVX-OS-DISABLED)'', (cf_avx f \<or> cf_avx2 f) \<and> \<not> cf_avx_os_enabled f),
      (''(AVX512-OS-DISABLED)'', cf_avx512f f \<and> \<not> cf_avx512_os_enabled f),
      (''AES'', cf_aes f), (''BMI1'', cf_bmi1 f), (''BMI2'', cf_bmi2 f), (''FMA'', cf_fma f), (''SHA'', cf_sha f),
      (''RDTSCP'', cf_rdtscp f), (''InvariantTSC'', cf_invariant_tsc f), (''VMX'', cf_vmx f), (''SVM'', cf_svm f),
      (''Hypervisor'', cf_hypervisor_present f)]"

definition feature_line :: "string \<Rightarrow> CpuFeatures \<Rightarrow> string option" where
  "feature_line features f =
     do { (features, len) \<leftarrow> append_features (feature_calls f) (features[0 := CHR 0x00], 0);
          if len = 0 then Some ''NONE''
          else if CHR 0x00 \<in> set features then Some (takeWhile (\<lambda>c. c \<noteq> CHR 0x00) features) else None }"

definition report_print_cpu_section :: "string \<Rightarrow> CpuIdentity \<Rightarrow> string option" where
  "report_print_cpu_section features cpu =
     do { vendor \<leftarrow> str_arg (ci_vendor_string cpu);
          brand \<leftarrow> (if ci_brand_string_available cpu then str_arg (ci_brand_string cpu) else Some ''UNKNOWN'');
          line \<leftarrow> feature_line features (ci_features cpu);
          let topology = ci_topology cpu in
          Some (''CPU'' @ nl @ print_rule @
            ''Vendor       : '' @ vendor @ nl @
            ''Brand        : '' @ brand @ nl @
            ''Family       : '' @ dec (unat (ci_family cpu)) @ nl @
            ''Model        : '' @ dec (unat (ci_model cpu)) @ nl @
            ''Stepping     : '' @ dec (unat (ci_stepping cpu)) @ nl @
            ''Max Leaf     : basic=0x'' @ hexu (unat (ci_max_basic_leaf cpu)) @
              '' extended=0x'' @ hexu (unat (ci_max_extended_leaf cpu)) @ nl @
            ''Logical CPUs : '' @ dec (unat (ci_logical_processors_system cpu)) @ nl @
            (if ct_topology_available topology
             then ''Topology     : '' @ dec (unat (ct_logical_per_package topology)) @
               '' logical/package, SMT width '' @ dec (unat (ct_smt_per_core topology)) @ nl
             else ''Topology     : UNKNOWN'' @ nl) @
            ''Features     : '' @ line @ nl @ nl) }"

section \<open>Telemetry\<close>

definition report_print_telemetry_section :: "(real \<Rightarrow> real) \<Rightarrow> CpuTelemetry \<Rightarrow> string" where
  "report_print_telemetry_section r tel =
     ''TELEMETRY'' @ nl @ print_rule @
     (if tl_utilization_available tel
      then ''CPU Usage    : '' @ fixed 1 (tl_utilization_percent tel) @ ''%'' @ nl
      else ''CPU Usage    : UNKNOWN'' @ nl) @
     (if tl_frequency_available tel
      then ''Frequency    : '' @ fixed 2 (r (r (real (unat (tl_frequency_hz tel))) / 1000000000)) @
        '' GHz (TSC-calibrated nominal rate)'' @ nl
      else ''Frequency    : UNKNOWN'' @ nl) @
     ''CPU Temp     : '' @ (if tl_temperature_available tel then ''n/a''
        else ''UNKNOWN (requires MSR access, unavailable from user mode)'') @ nl @
     ''CPU Power    : '' @ (if tl_power_available tel then ''n/a''
        else ''UNKNOWN (requires MSR access, unavailable from user mode)'') @ nl @ nl"

section \<open>Firmware\<close>

definition print_memory_device :: "SmbiosMemoryDevice \<Rightarrow> string option" where
  "print_memory_device m =
     (if \<not> md_populated m then Some ''''
      else do { locator \<leftarrow> nz (md_locator m); manufacturer \<leftarrow> nz (md_manufacturer m);
                part \<leftarrow> nz (md_part_number m);
                Some (''  '' @ padr 12 locator @ '' '' @ padl 4 (dec (unat (md_size_mb m))) @ '' MB  '' @
                  padl 4 (dec (unat (md_speed_mts m))) @ '' MT/s  '' @ manufacturer @ '' '' @ part @ nl) })"

definition populated_count :: "SmbiosMemoryDevice list \<Rightarrow> u32" where
  "populated_count ms = foldl (\<lambda>n m. if md_populated m then n + 1 else n) 0 ms"

definition report_print_firmware_section :: "SmbiosData \<Rightarrow> string option" where
  "report_print_firmware_section smbios =
     (if \<not> sm_available smbios
      then Some (''FIRMWARE (SMBIOS)'' @ nl @ print_rule @ ''SMBIOS data unavailable.'' @ nl @ nl)
      else do {
        vendor \<leftarrow> nz (bios_vendor (sm_bios smbios));
        version \<leftarrow> nz (bios_version (sm_bios smbios));
        date \<leftarrow> nz (bios_release_date (sm_bios smbios));
        manufacturer \<leftarrow> nz (sys_manufacturer (sm_system smbios));
        product \<leftarrow> nz (sys_product (sm_system smbios));
        serial \<leftarrow> nz (sys_serial (sm_system smbios));
        uuid \<leftarrow> (if sys_uuid_available (sm_system smbios) then str_arg (sys_uuid (sm_system smbios))
                else Some ''UNKNOWN'');
        board \<leftarrow> nz (bb_manufacturer (sm_baseboard smbios));
        board_product \<leftarrow> nz (bb_product (sm_baseboard smbios));
        devices \<leftarrow> print_all print_memory_device (sm_memory_devices smbios);
        Some (''FIRMWARE (SMBIOS)'' @ nl @ print_rule @
          ''SMBIOS Ver   : '' @ dec (unat (sm_major_version smbios)) @ ''.'' @ dec (unat (sm_minor_version smbios)) @ nl @
          ''BIOS Vendor  : '' @ vendor @ nl @
          ''BIOS Version : '' @ version @ nl @
          ''BIOS Date    : '' @ date @ nl @
          ''System       : '' @ manufacturer @ '' '' @ product @ nl @
          ''System S/N   : '' @ serial @ nl @
          ''System UUID  : '' @ uuid @ nl @
          ''Baseboard    : '' @ board @ '' '' @ board_product @ nl @
          ''Chassis Type : '' @ dec (unat (ch_chassis_type (sm_chassis smbios))) @ nl @
          ''Memory Devs  : '' @ dec (length (sm_memory_devices smbios)) @ '' slot(s), '' @
            dec (unat (populated_count (sm_memory_devices smbios))) @ '' populated'' @ nl @
          devices @
          ''Structures   : '' @ dec (unat (sm_structures_parsed smbios)) @ '' parsed, '' @
            dec (unat (sm_structures_malformed_skipped smbios)) @ '' malformed/skipped'' @ nl @ nl) })"

definition print_table :: "AcpiTableSummary \<Rightarrow> string option" where
  "print_table s =
     do { sg \<leftarrow> str_arg (ts_signature s); oem \<leftarrow> str_arg (ts_oem_id s);
          Some (''  '' @ padr 4 sg @ ''  len='' @ padr 6 (dec (unat (ts_length s))) @
            '' rev='' @ padr 3 (dec (unat (ts_revision s))) @ '' oem='' @ padr 6 oem @
            ''  checksum='' @ (if ts_checksum_valid s then ''OK'' else ''INVALID'') @ nl) }"

definition print_mcfg_entry :: "AcpiMcfgEntry \<Rightarrow> string" where
  "print_mcfg_entry e =
     ''  seg='' @ dec (unat (me_pci_segment_group e)) @ '' base=0x'' @ hexu (unat (me_base_address e)) @
     '' bus['' @ dec (unat (me_start_bus e)) @ ''-'' @ dec (unat (me_end_bus e)) @ '']'' @ nl"

definition enabled_count :: "AcpiProcessorEntry list \<Rightarrow> u32" where
  "enabled_count ps = foldl (\<lambda>n p. if pe_enabled p then n + 1 else n) 0 ps"

definition report_print_acpi_section :: "AcpiData \<Rightarrow> string option" where
  "report_print_acpi_section acpi =
     do { tables \<leftarrow> print_all print_table (ad_discovered acpi);
          let fadt = ad_fadt acpi; madt = ad_madt acpi; mcfg = ad_mcfg acpi; hpet = ad_hpet acpi in
          Some (''FIRMWARE (ACPI)'' @ nl @ print_rule @
            ''Tables Found : '' @ dec (length (ad_discovered acpi)) @ nl @ tables @
            (if fadt_available fadt
             then ''FADT SCI IRQ : '' @ dec (unat (fadt_sci_interrupt fadt)) @ nl @
               ''FADT PM Prof : '' @ dec (unat (fadt_preferred_pm_profile fadt)) @ nl else '''') @
            (if madt_available madt
             then ''MADT LAPIC   : 0x'' @ pad0 8 (hexu (unat (madt_local_apic_address madt))) @ nl @
               ''MADT CPUs    : '' @ dec (length (madt_processors madt)) @ '' entries'' @ nl @
               ''  enabled    : '' @ dec (unat (enabled_count (madt_processors madt))) @ nl else '''') @
            (if mcfg_available mcfg
             then ''MCFG Regions : '' @ dec (length (mcfg_entries mcfg)) @ nl @
               concat (map print_mcfg_entry (mcfg_entries mcfg)) else '''') @
            (if hpet_available hpet
             then ''HPET         : #'' @ dec (unat (hpet_number hpet)) @ '' base=0x'' @
               hexu (unat (hpet_base_address hpet)) @ nl else '''') @ nl) }"

section \<open>PCI devices\<close>

definition print_location :: "PciDevice \<Rightarrow> string" where
  "print_location d =
     pad0 2 (hexu (unat (pd_bus d))) @ '':'' @ pad0 2 (hexu (unat (pd_device d))) @ ''.'' @
     hexu (unat (pd_function d)) @ ''  '' @ pad0 4 (hexu (unat (pd_vendor_id d))) @ '':'' @
     pad0 4 (hexu (unat (pd_device_id d)))"

definition print_range :: "string \<Rightarrow> string \<Rightarrow> PciResource \<Rightarrow> string" where
  "print_range kind note res =
     ''           '' @ kind @ '' 0x'' @ pad0 16 (hexu (unat (pr_base res))) @ '' len=0x'' @
     hexu (unat (pr_length res)) @ (if pr_is_prefetchable res then note else '''') @ nl"

definition print_interrupt :: "PciDevice \<Rightarrow> string" where
  "print_interrupt d =
     (if \<not> pd_interrupt_available d then ''''
      else if pd_interrupt_line d \<le> 255 then ''           IRQ '' @ dec (unat (pd_interrupt_line d)) @ nl
      else ''           IRQ 0x'' @ pad0 8 (hexu (unat (pd_interrupt_line d))) @
        '' (MSI/MSI-X vector id, not a legacy IRQ line)'' @ nl)"

definition print_device :: "PciDevice \<Rightarrow> string option" where
  "print_device d =
     do { b \<leftarrow> rd8 (pd_description d) 0;
          description \<leftarrow> (if b \<noteq> 0 then map_option (\<lambda>s. ''  '' @ s) (str_arg (pd_description d)) else Some '''');
          Some (print_location d @
            (if pd_class_info_available d
             then ''  class='' @ pad0 2 (hexu (unat (pd_class_code d))) @ '':'' @ pad0 2 (hexu (unat (pd_subclass d))) @
               '':'' @ pad0 2 (hexu (unat (pd_prog_if d))) @ '' rev='' @ pad0 2 (hexu (unat (pd_revision d)))
             else ''  class=UNKNOWN'') @
            description @ nl @
            concat (map (\<lambda>r. print_range (if pr_is_memory r then ''MEM'' else ''IO '') '' (prefetchable)'' r) (pd_resources d)) @
            print_interrupt d) }"

definition report_print_pci_section :: "PciEnumeration \<Rightarrow> string option" where
  "report_print_pci_section pci =
     do { devices \<leftarrow> print_all print_device (pn_devices pci);
          Some (''PCI DEVICES'' @ nl @ print_rule @
            ''Devices      : '' @ dec (length (pn_devices pci)) @
            (if pn_truncated pci \<noteq> 0 then '' (truncated)'' else '''') @ nl @ nl @ devices @ nl) }"

text \<open>The GPU section's loop, with its counter.\<close>

fun gpu_loop :: "PciDevice list \<Rightarrow> u32 \<Rightarrow> (string \<times> u32) option" where
  "gpu_loop [] found = Some ('''', found)"
| "gpu_loop (d # ds) found =
     (if \<not> pd_class_info_available d \<or> pd_class_code d \<noteq> 3 then gpu_loop ds found
      else do {
        b \<leftarrow> rd8 (pd_description d) 0;
        description \<leftarrow> (if b \<noteq> 0 then str_arg (pd_description d) else Some ''UNKNOWN'');
        (rest, found) \<leftarrow> gpu_loop ds (found + 1);
        Some (print_location d @ ''  '' @ description @ nl @
          concat (map (\<lambda>r. if \<not> pr_is_memory r then ''''
                           else print_range ''MEM'' '' (prefetchable, likely VRAM aperture)'' r) (pd_resources d)) @
          rest, found) })"

definition report_print_gpu_section :: "PciEnumeration \<Rightarrow> string option" where
  "report_print_gpu_section pci =
     do { (devices, found) \<leftarrow> gpu_loop (pn_devices pci) 0;
          Some (''GPU'' @ nl @ print_rule @ devices @
            (if found = 0 then ''No display controllers found via PCI class 03.'' @ nl else '''') @
            ''Note: temperature/utilization/VRAM usage are vendor-specific and not exposed via standard PCI configuration space.'' @ nl @ nl) }"

section \<open>Memory and storage\<close>

definition print_region :: "(real \<Rightarrow> real) \<Rightarrow> MemoryRegion \<Rightarrow> string" where
  "print_region r x =
     ''  base=0x'' @ pad0 16 (hexu (unat (mr_base x))) @ '' len=0x'' @ hexu (unat (mr_length x)) @
     '' ('' @ gigabytes r (mr_length x) @ '') array_handle=0x'' @ pad0 4 (hexu (unat (mr_type x))) @ nl"

definition report_print_memory_section :: "(real \<Rightarrow> real) \<Rightarrow> MemoryInfo \<Rightarrow> string" where
  "report_print_memory_section r mem =
     ''MEMORY'' @ nl @ print_rule @
     (if mi_available mem
      then ''Total        : '' @ gigabytes r (mi_total_physical_bytes mem) @ nl @
        ''Available    : '' @ gigabytes r (mi_available_physical_bytes mem) @ nl @
        ''Load         : '' @ dec (unat (mi_memory_load_percent mem)) @ ''%'' @ nl
      else ''Total        : UNKNOWN'' @ nl) @
     ''Regions      : '' @ dec (length (mi_regions mem)) @ '' (SMBIOS Type 19 mapped address ranges)'' @ nl @
     concat (map (print_region r) (mi_regions mem)) @ nl"

fun bus_name :: "StorageBusType \<Rightarrow> string" where
  "bus_name STORAGE_BUS_NVME = ''NVMe''"
| "bus_name STORAGE_BUS_SATA = ''SATA''"
| "bus_name STORAGE_BUS_ATA = ''ATA''"
| "bus_name STORAGE_BUS_SCSI = ''SCSI''"
| "bus_name STORAGE_BUS_USB = ''USB''"
| "bus_name _ = ''OTHER''"

definition print_drive :: "(real \<Rightarrow> real) \<Rightarrow> StorageDevice \<Rightarrow> string option" where
  "print_drive r d =
     do { model \<leftarrow> nz (sd_model d); firmware \<leftarrow> nz (sd_firmware_revision d); serial \<leftarrow> nz (sd_serial d);
          Some (''PhysicalDrive'' @ dec (sd_index d) @ '' ['' @ bus_name (sd_bus_type d) @ '']'' @
            (if sd_nvme_identify_used d then '' (via NVMe Identify Controller)'' else '''') @ nl @
            ''Model        : '' @ model @ nl @
            ''Firmware     : '' @ firmware @ nl @
            ''Serial       : '' @ serial @ nl @
            (if sd_capacity_available d then ''Capacity     : '' @ gigabytes r (sd_capacity_bytes d) @ nl
             else ''Capacity     : UNKNOWN'' @ nl) @ nl) }"

definition report_print_storage_section :: "(real \<Rightarrow> real) \<Rightarrow> StorageDevice list \<Rightarrow> string option" where
  "report_print_storage_section r storage =
     (if storage = [] then Some (''STORAGE'' @ nl @ print_rule @ ''No physical drives found.'' @ nl @ nl)
      else map_option (\<lambda>ds. ''STORAGE'' @ nl @ print_rule @ ds) (print_all (print_drive r) storage))"

end
