(* ===== verification/Feature_Line.thy ===== *)
theory Feature_Line
  imports Report
begin

text \<open>
  The feature line of the report (\<open>append_feature\<close> and its calls in \<open>src/output/report.c\<close>): the
  512-byte array is never overrun, and the line names exactly the features present.
\<close>

section \<open>The feature line\<close>

definition add_word :: "string \<Rightarrow> string \<Rightarrow> string" where
  "add_word s w = (if s = '''' then '''' else s @ '' '') @ w"

fun unwords :: "string list \<Rightarrow> string" where
  "unwords [] = ''''"
| "unwords [w] = w"
| "unwords (w # ws) = w @ '' '' @ unwords ws"

text \<open>The buffer holds the words so far and their NUL.\<close>

definition holds :: "string \<Rightarrow> string \<Rightarrow> bool" where
  "holds buf s \<longleftrightarrow> length buf = 512 \<and> (\<exists>rest. buf = s @ CHR 0x00 # rest)"

lemma append_feature_holds:
  assumes h: "holds buf s" and l: "length s + length name + 1 < 512" and n: "name \<noteq> ''''"
  shows "\<exists>buf'. append_feature 512 name True (buf, length s) = Some (buf', length (add_word s name)) \<and>
    holds buf' (add_word s name)"
proof -
  let ?t = "(if length s \<noteq> 0 then '' '' else '''') @ name"
  have size: "nat ((int 512 - int (length s)) mod 2 ^ 64) = 512 - length s" using l by simp
  have lt: "length ?t < 512 - length s" using l by (cases s) simp_all
  have lb: "length s + (512 - length s) \<le> length buf" using h l by (simp add: holds_def)
  define buf' where "buf' = take (length s) buf @ ?t @ CHR 0x00 # drop (length s + length ?t + 1) buf"
  have "snprintf buf (length s) (512 - length s) ?t = Some (buf', int (length ?t))"
    unfolding buf'_def by (rule snprintf_in [OF lb lt]) simp
  then have "append_feature 512 name True (buf, length s) = Some (buf', length s + length ?t)"
    using n by (auto simp: append_feature_def size [simplified] nat_add_distrib)
  moreover have "add_word s name = s @ ?t" by (simp add: add_word_def)
  moreover have "take (length s) buf = s" using h by (auto simp: holds_def)
  then have "buf' = (s @ ?t) @ CHR 0x00 # drop (length s + length ?t + 1) buf" by (simp add: buf'_def)
  moreover have "length buf' = 512" using h lt l by (simp add: buf'_def holds_def)
  ultimately show ?thesis by (metis holds_def length_append)
qed

text \<open>The room the words still need.\<close>

definition room :: "(string \<times> bool) list \<Rightarrow> nat" where
  "room calls = sum_list (map (\<lambda>c. length (fst c) + 1) calls)"

definition present_words :: "(string \<times> bool) list \<Rightarrow> string list" where
  "present_words calls = map fst (filter snd calls)"

lemma append_features_holds:
  assumes "holds buf s" and "length s + room calls < 512" and "\<forall>c \<in> set calls. fst c \<noteq> ''''"
  shows "\<exists>buf'. append_features calls (buf, length s) = Some (buf', length (foldl add_word s (present_words calls))) \<and>
    holds buf' (foldl add_word s (present_words calls))"
  using assms
proof (induction calls arbitrary: buf s)
  case Nil
  then show ?case by (simp add: present_words_def)
next
  case (Cons c calls)
  obtain name present where c: "c = (name, present)" by fastforce
  show ?case
  proof (cases present)
    case True
    have l: "length s + length name + 1 < 512" using Cons.prems(2) c by (simp add: room_def)
    obtain buf' where a: "append_feature 512 name True (buf, length s) = Some (buf', length (add_word s name))"
      and h: "holds buf' (add_word s name)"
      using append_feature_holds [OF Cons.prems(1) l] Cons.prems(3) c by auto
    have "length (add_word s name) + room calls < 512" using Cons.prems(2) c by (simp add: room_def add_word_def)
    from Cons.IH [OF h this] Cons.prems(3) a show ?thesis by (simp add: c True present_words_def)
  next
    case False
    have "length s + room calls < 512" using Cons.prems(2) c by (simp add: room_def)
    from Cons.IH [OF Cons.prems(1) this] Cons.prems(3) show ?thesis
      by (simp add: c False present_words_def append_feature_def)
  qed
qed

lemma unwords_append: "unwords ((a @ b) # ws) = a @ unwords (b # ws)"
  by (cases ws) simp_all

lemma foldl_add_word: "s \<noteq> '''' \<Longrightarrow> foldl add_word s ws = unwords (s # ws)"
proof (induction ws arbitrary: s)
  case (Cons w ws)
  have aw: "add_word s w = (s @ '' '') @ w" using Cons.prems by (simp add: add_word_def)
  have "foldl add_word s (w # ws) = unwords (((s @ '' '') @ w) # ws)" using Cons.IH [of "add_word s w"] by (simp add: aw)
  also have "\<dots> = unwords (s # w # ws)" by (simp only: unwords_append unwords.simps(3) append_assoc)
  finally show ?case .
qed simp

lemma foldl_unwords: "\<forall>w \<in> set ws. w \<noteq> '''' \<Longrightarrow> foldl add_word '''' ws = unwords ws"
  by (cases ws) (simp_all add: add_word_def foldl_add_word)

lemma unwords_chars: "set (unwords ws) \<subseteq> {CHR '' ''} \<union> \<Union> (set ` set ws)"
  by (induction ws rule: unwords.induct) auto

lemma unwords_empty: "\<forall>w \<in> set ws. w \<noteq> '''' \<Longrightarrow> unwords ws = '''' \<longleftrightarrow> ws = []"
  by (cases ws rule: unwords.cases) auto

text \<open>
  What the line must show, written down without the code: the name of each flag of \<open>CpuFeatures\<close>
  that has one, in the order of the report, and the two warnings with their conditions.
\<close>

definition feature_names :: "(string \<times> (CpuFeatures \<Rightarrow> bool)) list" where
  "feature_names = [(''SSE'', cf_sse), (''SSE2'', cf_sse2), (''SSE3'', cf_sse3), (''SSSE3'', cf_ssse3), (''SSE4.1'', cf_sse4_1),
     (''SSE4.2'', cf_sse4_2), (''AVX'', cf_avx), (''AVX2'', cf_avx2), (''AVX512F'', cf_avx512f),
     (''(AVX-OS-DISABLED)'', \<lambda>f. (cf_avx f \<or> cf_avx2 f) \<and> \<not> cf_avx_os_enabled f),
     (''(AVX512-OS-DISABLED)'', \<lambda>f. cf_avx512f f \<and> \<not> cf_avx512_os_enabled f),
     (''AES'', cf_aes), (''BMI1'', cf_bmi1), (''BMI2'', cf_bmi2), (''FMA'', cf_fma), (''SHA'', cf_sha), (''RDTSCP'', cf_rdtscp),
     (''InvariantTSC'', cf_invariant_tsc), (''VMX'', cf_vmx), (''SVM'', cf_svm), (''Hypervisor'', cf_hypervisor_present)]"

definition features_shown :: "CpuFeatures \<Rightarrow> string list" where
  "features_shown f = map fst (filter (\<lambda>(name, present). present f) feature_names)"

text \<open>The calls of the code show that.\<close>

lemma feature_calls_table: "feature_calls f = map (\<lambda>(name, present). (name, present f)) feature_names"
  by (simp add: feature_calls_def feature_names_def)

lemma features_shown_calls: "features_shown f = present_words (feature_calls f)"
  by (simp add: features_shown_def present_words_def feature_calls_table filter_map o_def split_def)

lemma feature_words:
  "w \<in> set (features_shown f) \<Longrightarrow> w \<noteq> '''' \<and> CHR 0x00 \<notin> set w \<and> CHR '' '' \<notin> set w"
proof -
  assume "w \<in> set (features_shown f)"
  then have w: "w \<in> fst ` set feature_names" by (auto simp: features_shown_def)
  have "\<forall>w \<in> fst ` set feature_names. w \<noteq> '''' \<and> CHR 0x00 \<notin> set w \<and> CHR '' '' \<notin> set w"
    by (simp add: feature_names_def)
  with w show ?thesis by blast
qed

lemma room_features: "room (feature_calls f) < 512"
  by (simp add: room_def feature_calls_def)

lemma feature_line_words:
  assumes "length buf = 512"
  shows "feature_line buf f = Some (if features_shown f = [] then ''NONE'' else unwords (features_shown f))"
proof -
  have "buf[0 := CHR 0x00] = [] @ CHR 0x00 # tl buf" using assms by (cases buf) auto
  then have h: "holds (buf[0 := CHR 0x00]) ''''" using assms by (auto simp: holds_def)
  have ne: "\<forall>c \<in> set (feature_calls f). fst c \<noteq> ''''" by (simp add: feature_calls_def)
  have w: "\<forall>w \<in> set (features_shown f). w \<noteq> ''''" using feature_words by blast
  obtain buf' where a: "append_features (feature_calls f) (buf[0 := CHR 0x00], 0) =
      Some (buf', length (unwords (features_shown f)))" and h': "holds buf' (unwords (features_shown f))"
    using append_features_holds [OF h _ ne] room_features foldl_unwords [OF w] by (auto simp: features_shown_calls)
  have nul: "CHR 0x00 \<notin> set (unwords (features_shown f))"
    using unwords_chars [of "features_shown f"] feature_words [of _ f] by fastforce
  have "takeWhile (\<lambda>c. c \<noteq> CHR 0x00) buf' = unwords (features_shown f)"
    using h' nul by (auto simp: holds_def takeWhile_tail intro!: takeWhile_eq_all_conv [THEN iffD2])
  moreover have "CHR 0x00 \<in> set buf'" using h' by (auto simp: holds_def)
  ultimately show ?thesis by (simp add: feature_line_def a unwords_empty [OF w])
qed

lemma separated: "a @ x # c = b @ x # d \<Longrightarrow> x \<notin> set a \<Longrightarrow> x \<notin> set b \<Longrightarrow> a = b \<and> c = d"
proof (induction a arbitrary: b)
  case Nil then show ?case by (cases b) auto
next
  case (Cons y ys) then show ?case by (cases b) auto
qed

lemma unwords_readable:
  assumes "\<forall>w \<in> set ws. w \<noteq> '''' \<and> CHR '' '' \<notin> set w" and "\<forall>w \<in> set vs. w \<noteq> '''' \<and> CHR '' '' \<notin> set w"
    and "unwords ws = unwords vs"
  shows "ws = vs"
  using assms
proof (induction ws arbitrary: vs rule: unwords.induct)
  case 1
  then show ?case using unwords_empty [of vs] by simp
next
  case (2 w)
  then show ?case by (cases vs rule: unwords.cases) auto
next
  case (3 w w' ws)
  then obtain v vs' where v: "vs = v # vs'" "vs' \<noteq> []" by (cases vs rule: unwords.cases) auto
  then have "w @ CHR '' '' # unwords (w' # ws) = v @ CHR '' '' # unwords vs'"
    using "3.prems"(3) by (cases vs') simp_all
  moreover have "CHR '' '' \<notin> set w" "CHR '' '' \<notin> set v" using "3.prems" v by auto
  ultimately have "w = v \<and> unwords (w' # ws) = unwords vs'" by (intro separated)
  with "3.IH" [of vs'] "3.prems" v show ?case by auto
qed

text \<open>Names are distinct, so each says its own flag.\<close>

lemma names_show: "\<forall>(name, present) \<in> set feature_names. present f \<longleftrightarrow> name \<in> set (features_shown f)"
proof -
  have "distinct (map fst feature_names)" by (simp add: feature_names_def)
  then show ?thesis by (auto simp: features_shown_def image_iff dest: eq_key_imp_eq_value)
qed

text \<open>
  C17. The feature line. Whatever the 512-byte array held before and whatever the processor
  reports, building the line never stores outside the array and always leaves it terminated; what
  is printed is the names of exactly the features that are present (and of the two warnings that
  apply), in order and separated by single blanks, or NONE. Each name stands for its own flag of
  \<open>CpuFeatures\<close>, by a table of names kept apart from the calls of the code. Two processors print
  the same line only if they agree on every entry of that table.
\<close>

theorem feature_line_exact:
  assumes "length buf = 512" and "length buf' = 512"
  shows "feature_line buf f = Some (if features_shown f = [] then ''NONE'' else unwords (features_shown f)) \<and>
    (\<forall>(name, present) \<in> set feature_names. present f \<longleftrightarrow> name \<in> set (features_shown f)) \<and>
    (feature_line buf f = feature_line buf' g \<longrightarrow> (\<forall>(name, present) \<in> set feature_names. present f = present g))"
proof -
  have line: "feature_line b h = Some (if features_shown h = [] then ''NONE'' else unwords (features_shown h))"
    if "length b = 512" for b h by (rule feature_line_words [OF that])
  have w: "\<forall>w \<in> set (features_shown h). w \<noteq> '''' \<and> CHR '' '' \<notin> set w" for h using feature_words by blast
  have none: "unwords (features_shown h) \<noteq> ''NONE''" for h
  proof
    assume "unwords (features_shown h) = ''NONE''"
    then have "features_shown h = [''NONE'']" using unwords_readable [OF w, of "[''NONE'']" h] by simp
    moreover have "set (features_shown h) \<subseteq> fst ` set feature_names" by (auto simp: features_shown_def)
    ultimately show False by (simp add: feature_names_def)
  qed
  have same: "features_shown f = features_shown g" if "feature_line buf f = feature_line buf' g"
    using that none [of f] none [of g] unwords_readable [OF w w, of f g]
    by (auto simp: line [OF assms(1)] line [OF assms(2)] split: if_splits)
  have named: "\<forall>(name, present) \<in> set feature_names. present h \<longleftrightarrow> name \<in> set (features_shown h)" for h
    by (rule names_show)
  then have "\<forall>(name, present) \<in> set feature_names. present f = present g" if "feature_line buf f = feature_line buf' g"
    using same [OF that] named [of f] named [of g] by fastforce
  with line [OF assms(1)] named show ?thesis by blast
qed

theorem feature_line_exact_witness:
  "feature_line (replicate 512 CHR ''?'') (features0\<lparr>cf_sse := True, cf_avx := True\<rparr>) = Some ''SSE AVX (AVX-OS-DISABLED)''"
  using feature_line_exact [of "replicate 512 CHR ''?''" "replicate 512 CHR ''?''" "features0\<lparr>cf_sse := True, cf_avx := True\<rparr>"]
  by (simp add: features_shown_def feature_names_def features0_def)

end
