(* ===== verification/Report_Correct.thy ===== *)
theory Report_Correct
  imports Feature_Line Smbios_Correct Acpi_Correct Pci_Correct Storage_Correct
begin

text \<open>
  Correctness of the report: every section of well-formed data prints, its counters are exact,
  the GPU section selects exactly the display controllers, and what is printed of a device reads
  back.
\<close>

section \<open>Sections of well-formed data print\<close>

definition shown :: "bytes \<Rightarrow> string" where
  "shown arr = (if cstr arr = [] then ''UNKNOWN'' else text_of (cstr arr))"

lemma nz_shown [simp]: "nul_terminated arr \<Longrightarrow> nz arr = Some (shown arr)"
  by (cases arr) (auto simp: nz_def shown_def cstr_def str_arg_ok nul_terminated_def)

lemma print_all_ok: "\<forall>x \<in> set xs. f x \<noteq> None \<Longrightarrow> print_all f xs = Some (concat (map (\<lambda>x. the (f x)) xs))"
  by (induction xs) auto

lemma carray_nul: "carray n arr \<Longrightarrow> nul_terminated arr"
  by (simp add: carray_def)

lemma nul_first [simp]: "nul_terminated arr \<Longrightarrow> rd8 arr 0 = Some (arr ! 0)"
  by (cases arr) (simp_all add: nul_terminated_def)

definition identity_ok :: "CpuIdentity \<Rightarrow> bool" where
  "identity_ok c \<longleftrightarrow> nul_terminated (ci_vendor_string c) \<and> nul_terminated (ci_brand_string c)"

lemma cpu_section_prints:
  "length features = 512 \<Longrightarrow> identity_ok c \<Longrightarrow> report_print_cpu_section features c \<noteq> None"
  by (simp add: report_print_cpu_section_def identity_ok_def str_arg_ok feature_line_words Let_def)

lemma memory_device_prints: "memory_device_ok m \<Longrightarrow> print_memory_device m \<noteq> None"
  by (simp add: print_memory_device_def memory_device_ok_def carray_def)

lemma firmware_section_prints: "smbios_ok d \<Longrightarrow> report_print_firmware_section d \<noteq> None"
  by (simp add: report_print_firmware_section_def smbios_ok_def bios_ok_def system_ok_def baseboard_ok_def
      carray_def str_arg_ok print_all_ok memory_device_prints)

lemma acpi_section_prints: "acpi_ok d \<Longrightarrow> report_print_acpi_section d \<noteq> None"
  by (simp add: report_print_acpi_section_def acpi_ok_def print_all_ok print_table_def summary_ok_def str_arg_ok Let_def)

lemma device_prints: "device_ok d \<Longrightarrow> print_device d \<noteq> None"
  by (simp add: print_device_def device_ok_def str_arg_ok)

lemma pci_section_prints: "enumeration_ok p \<Longrightarrow> report_print_pci_section p \<noteq> None"
  by (simp add: report_print_pci_section_def enumeration_ok_def print_all_ok device_prints)

lemma drive_prints: "strings_ok d \<Longrightarrow> print_drive r d \<noteq> None"
  by (simp add: print_drive_def strings_ok_def)

lemma storage_section_prints: "\<forall>d \<in> set ds. strings_ok d \<Longrightarrow> report_print_storage_section r ds \<noteq> None"
  by (simp add: report_print_storage_section_def print_all_ok drive_prints)

section \<open>The GPU section\<close>

definition is_display :: "PciDevice \<Rightarrow> bool" where
  "is_display d \<longleftrightarrow> pd_class_info_available d \<and> pd_class_code d = 3"

definition gpu_entry :: "PciDevice \<Rightarrow> string" where
  "gpu_entry d = print_location d @ ''  '' @ shown (pd_description d) @ nl @
     concat (map (print_range ''MEM'' '' (prefetchable, likely VRAM aperture)'') (filter pr_is_memory (pd_resources d)))"

lemma concat_map_if: "concat (map (\<lambda>x. if \<not> p x then [] else f x) xs) = concat (map f (filter p xs))"
  by (induction xs) auto

lemma gpu_description:
  assumes "nul_terminated arr"
  shows "(if arr ! 0 \<noteq> 0 then str_arg arr else Some ''UNKNOWN'') = Some (shown arr)"
  using nz_shown [OF assms] assms by (simp add: nz_def)

lemma gpu_loop_exact:
  assumes "\<forall>d \<in> set ds. device_ok d"
  shows "gpu_loop ds found =
    Some (concat (map gpu_entry (filter is_display ds)), found + of_nat (length (filter is_display ds)))"
  using assms
proof (induction ds arbitrary: found)
  case (Cons d ds)
  have n: "nul_terminated (pd_description d)" using Cons.prems by (simp add: device_ok_def)
  have r: "(\<lambda>r. if \<not> pr_is_memory r then '''' else print_range ''MEM'' t r) = (\<lambda>r. if \<not> pr_is_memory r then [] else print_range ''MEM'' t r)" for t
    by simp
  show ?case
  proof (cases "is_display d")
    case True
    then have "\<not> (\<not> pd_class_info_available d \<or> pd_class_code d \<noteq> 3)" by (simp add: is_display_def)
    with Cons True show ?thesis
      by (simp only: gpu_loop.simps if_False nul_first [OF n] bind.bind_lunit gpu_description [OF n])
        (simp add: gpu_entry_def concat_map_if)
  next
    case False
    with Cons show ?thesis by (simp add: is_display_def)
  qed
qed simp

lemma count_loop:
  "foldl (\<lambda>n x. if p x then n + 1 else n) (k :: 'a::len word) xs = k + of_nat (length (filter p xs))"
  by (induction xs arbitrary: k) (simp_all add: add.assoc)

lemma gpu_section_text:
  assumes "enumeration_ok p"
  shows "report_print_gpu_section p = Some (''GPU'' @ nl @ print_rule @
    concat (map gpu_entry (filter is_display (pn_devices p))) @
    (if filter is_display (pn_devices p) = [] then ''No display controllers found via PCI class 03.'' @ nl else '''') @
    ''Note: temperature/utilization/VRAM usage are vendor-specific and not exposed via standard PCI configuration space.'' @ nl @ nl)"
proof -
  define ds where "ds = filter is_display (pn_devices p)"
  have "length ds \<le> 512"
    unfolding ds_def by (rule order_trans [OF length_filter_le]) (use assms in \<open>simp add: enumeration_ok_def PCI_MAX_DEVICES_def\<close>)
  then have z: "(of_nat (length ds) :: u32) = 0 \<longleftrightarrow> ds = []" by (auto simp: word_of_nat_eq_0_iff dest: dvd_imp_le)
  have "gpu_loop (pn_devices p) 0 = Some (concat (map gpu_entry ds), of_nat (length ds))"
    using gpu_loop_exact [of "pn_devices p" 0] assms by (simp add: enumeration_ok_def ds_def)
  then show ?thesis unfolding ds_def [symmetric] by (simp add: report_print_gpu_section_def z)
qed

section \<open>Reading a device line\<close>

definition read_location :: "string \<Rightarrow> nat \<times> nat \<times> nat \<times> nat \<times> nat" where
  "read_location s =
     (let f = drop 6 s; g = drop 2 (dropWhile (\<lambda>c. c \<noteq> CHR '' '') f) in
      (number 16 (take 2 s), number 16 (take 2 (drop 3 s)), number 16 (takeWhile (\<lambda>c. c \<noteq> CHR '' '') f),
       number 16 (take 4 g), number 16 (take 4 (drop 5 g))))"

lemma read_location_parts:
  assumes "length a = 2" "length b = 2" "CHR '' '' \<notin> set c" "length d = 4" "length e = 4"
  shows "read_location (a @ CHR '':'' # b @ CHR ''.'' # c @ CHR '' '' # CHR '' '' # d @ CHR '':'' # e @ rest) =
    (number 16 a, number 16 b, number 16 c, number 16 d, number 16 e)"
proof -
  let ?g = "CHR '' '' # CHR '' '' # d @ CHR '':'' # e @ rest"
  have six: "drop 6 (a @ CHR '':'' # b @ CHR ''.'' # c @ ?g) = c @ ?g" using assms(1,2) by (simp add: drop_Cons')
  have three: "take 2 (drop 3 (a @ CHR '':'' # b @ CHR ''.'' # c @ ?g)) = b" using assms(1,2) by (simp add: drop_Cons')
  have c: "takeWhile (\<lambda>c. c \<noteq> CHR '' '') (c @ ?g) = c" "dropWhile (\<lambda>c. c \<noteq> CHR '' '') (c @ ?g) = ?g"
    using assms(3) by (auto simp: takeWhile_append2 dropWhile_append2 intro!: trans [OF takeWhile_append2] trans [OF dropWhile_append2])
  show ?thesis using assms(1,4,5) by (simp only: read_location_def Let_def six three c) (simp add: drop_Cons' take_Cons')
qed

lemma read_print_location:
  "read_location (print_location d @ rest) =
    (unat (pd_bus d), unat (pd_device d), unat (pd_function d), unat (pd_vendor_id d), unat (pd_device_id d))"
proof -
  have b: "length (pad0 2 (hexu (unat w))) = 2" for w :: u8
    using unsigned_less [where 'a = nat, of w] by (intro length_pad0_digits) simp_all
  have v: "length (pad0 4 (hexu (unat w))) = 4" for w :: u16
    using unsigned_less [where 'a = nat, of w] by (intro length_pad0_digits) simp_all
  have f: "CHR '' '' \<notin> set (hexu (unat (pd_function d)))" by (rule digits_not_blank) simp_all
  show ?thesis
    using read_location_parts [OF b b f v v, of "pd_bus d" "pd_device d" "pd_vendor_id d" "pd_device_id d" rest]
    by (simp add: print_location_def)
qed

text \<open>
  C38. What is printed of a PCI device reads back: the bus, device and function numbers and the
  vendor and device identifiers are recovered exactly from the line, whatever follows them, so two
  devices with different locations or identifiers never print the same line.
\<close>

theorem device_line_readable:
  assumes "device_ok d"
  shows "\<exists>line. print_device d = Some line \<and> read_location line =
    (unat (pd_bus d), unat (pd_device d), unat (pd_function d), unat (pd_vendor_id d), unat (pd_device_id d))"
proof -
  obtain line where l: "print_device d = Some line" using device_prints [OF assms] by blast
  then obtain rest where "line = print_location d @ rest"
    by (auto simp: print_device_def bind_eq_Some_conv split: if_splits)
  then show ?thesis using l read_print_location by blast
qed

theorem device_line_readable_witness:
  "\<exists>line. print_device (pci_device0\<lparr>pd_bus := 1, pd_vendor_id := 0x10DE, pd_device_id := 0x2704\<rparr>) = Some line \<and>
     read_location line = (1, 0, 0, 0x10DE, 0x2704)"
  using device_line_readable [of "pci_device0\<lparr>pd_bus := 1, pd_vendor_id := 0x10DE, pd_device_id := 0x2704\<rparr>"]
  by (simp add: device_ok_def pci_device0_def nul_terminated_def zeros_def)

text \<open>
  The GPU section lists exactly the devices of class 03 of the enumeration, in its order, each
  with its memory ranges only, and says that none was found exactly when there is none: the 32-bit
  counter cannot wrap to zero on an enumeration within its capacity.
\<close>

theorem gpu_section_exact:
  assumes "enumeration_ok p"
  shows "report_print_gpu_section p = Some (''GPU'' @ nl @ print_rule @
    concat (map gpu_entry (filter is_display (pn_devices p))) @
    (if \<exists>d \<in> set (pn_devices p). is_display d then '''' else ''No display controllers found via PCI class 03.'' @ nl) @
    ''Note: temperature/utilization/VRAM usage are vendor-specific and not exposed via standard PCI configuration space.'' @ nl @ nl)"
proof -
  have "(filter is_display (pn_devices p) = []) = (\<not> (\<exists>d \<in> set (pn_devices p). is_display d))"
    by (simp add: filter_empty_conv)
  with gpu_section_text [OF assms] show ?thesis by simp
qed

definition one_gpu :: PciEnumeration where
  "one_gpu = pci_enumeration0\<lparr>pn_devices := [pci_device0,
     pci_device0\<lparr>pd_bus := 1, pd_class_info_available := True, pd_class_code := 3\<rparr>]\<rparr>"

theorem gpu_section_exact_witness:
  "report_print_gpu_section one_gpu = Some (''GPU'' @ nl @ print_rule @
    ''01:00.0  0000:0000  UNKNOWN'' @ nl @
    ''Note: temperature/utilization/VRAM usage are vendor-specific and not exposed via standard PCI configuration space.'' @ nl @ nl)"
proof -
  have "enumeration_ok one_gpu"
    by (simp add: one_gpu_def enumeration_ok_def device_ok_def pci_enumeration0_def pci_device0_def nul_terminated_def zeros_def
        PCI_MAX_DEVICES_def)
  then show ?thesis
    by (subst gpu_section_exact)
      (simp_all add: one_gpu_def is_display_def gpu_entry_def pci_enumeration0_def pci_device0_def print_location_def
        digits.simps pad0_Cons pad0_full shown_def cstr_def zeros_def)
qed

text \<open>The two counters of populated slots and enabled processors.\<close>

lemma count_exact:
  assumes "length xs \<le> 512"
  shows "unat (foldl (\<lambda>n x. if p x then n + 1 else n) (0 :: u32) xs) = length (filter p xs)"
proof -
  have "length (filter p xs) \<le> 512" by (rule order_trans [OF length_filter_le assms])
  then have "length (filter p xs) < 2 ^ LENGTH(32)" by simp
  then show ?thesis unfolding count_loop by (simp add: unat_of_nat)
qed

lemma populated_count_exact:
  "smbios_ok d \<Longrightarrow> unat (populated_count (sm_memory_devices d)) = length (filter md_populated (sm_memory_devices d))"
  unfolding populated_count_def by (rule count_exact) (simp add: smbios_ok_def SMBIOS_MAX_MEMORY_DEVICES_def)

lemma enabled_count_exact:
  "acpi_ok d \<Longrightarrow> unat (enabled_count (madt_processors (ad_madt d))) = length (filter pe_enabled (madt_processors (ad_madt d)))"
  unfolding enabled_count_def by (rule count_exact) (simp add: acpi_ok_def madt_ok_def ACPI_MAX_PROCESSORS_def)

end
