(* ===== verification/Main_Program.thy ===== *)
theory Main_Program
  imports Smbios_Collect Cpu_Id_Correct Log Report_Correct "HOL-Library.Sublist"
begin

text \<open>
  \<open>src/main.c\<close>: the whole console program as the composition of the collectors, the logger and the
  report. Its environment is the processor, the clocks, the operating system's answers and the
  contents of the uninitialised local arrays; its result is the exit code, what standard output
  received and the heap.
\<close>

record world =
  w_cpu :: cpu
  w_active :: u32
  w_info :: u32
  w_clocks :: clocks
  w_os :: os_firmware
  w_pnp :: pnp
  w_status :: "memory_status option"
  w_drives :: "nat \<Rightarrow> drive"
  w_protocol_macro :: bool
  w_junk :: "nat \<Rightarrow> string"

text \<open>
  What the two collectors that have no failing path return: their only \<open>return false\<close> is for a NULL
  argument, which is not passed.
\<close>

definition cpu_collected :: "world \<Rightarrow> (bool \<times> CpuIdentity) option" where
  "cpu_collected w = map_option (Pair True) (fst (run_state (cpu_id_collect (w_cpu w) (w_active w) (w_info w)) []))"

definition storage_collected :: "world \<Rightarrow> (bool \<times> StorageDevice list) option" where
  "storage_collected w = map_option (\<lambda>(ds, ev). (True, ds)) (storage_enumerate (w_protocol_macro w) (w_drives w))"

text \<open>The message and the cleared structure of a collector that failed.\<close>

definition or_zero :: "string \<Rightarrow> logger \<Rightarrow> string \<Rightarrow> 'a \<Rightarrow> bool \<Rightarrow> 'a \<Rightarrow> string \<Rightarrow> ('a \<times> string) option" where
  "or_zero junk lg message zero ok x out =
     (if ok then Some (x, out)
      else do { out \<leftarrow> log_write junk lg LOG_WARNING message out; Some (zero, out) })"

definition report :: "world \<Rightarrow> CpuIdentity \<Rightarrow> CpuTelemetry \<Rightarrow> SmbiosData \<Rightarrow> AcpiData \<Rightarrow> PciEnumeration \<Rightarrow> MemoryInfo \<Rightarrow>
    StorageDevice list \<Rightarrow> string option" where
  "report w cpu telemetry smbios acpi pci mem storage =
     do { cpu_text \<leftarrow> report_print_cpu_section (w_junk w 6) cpu;
          let r = tm_round (w_clocks w);
          firmware_text \<leftarrow> report_print_firmware_section smbios;
          acpi_text \<leftarrow> report_print_acpi_section acpi;
          pci_text \<leftarrow> report_print_pci_section pci;
          gpu_text \<leftarrow> report_print_gpu_section pci;
          storage_text \<leftarrow> report_print_storage_section r storage;
          Some (report_print_header @ cpu_text @ report_print_telemetry_section r telemetry @
            report_print_memory_section r mem @ firmware_text @ acpi_text @ pci_text @ gpu_text @ storage_text) }"

definition console :: logger where
  "console = logger_set_min_level LOG_INFO (logger_set_backend (Some console_logger_create) logger0)"

definition main_program :: "world \<Rightarrow> heap \<Rightarrow> (int \<times> string \<times> heap) option" where
  "main_program w h =
     do { let lg = console;
          (ok, cpu) \<leftarrow> cpu_collected w;
          if \<not> ok
          then do { out \<leftarrow> log_write (w_junk w 0) lg LOG_ERROR ''CPUID unavailable; cannot continue.'' '''';
                    Some (1, out, h) }
          else do {
            (telemetry, ev) \<leftarrow> cpu_telemetry_sample (w_clocks w) 150 (cf_invariant_tsc (ci_features cpu));
            (s, h) \<leftarrow> smbios_collect (w_os w) h;
            (smbios, out) \<leftarrow> or_zero (w_junk w 1) lg ''SMBIOS table unavailable.'' smbios0 (s \<noteq> None) (the s) '''';
            (ok, acpi, h) \<leftarrow> acpi_collect (w_os w) h;
            (acpi, out) \<leftarrow> or_zero (w_junk w 2) lg ''ACPI tables unavailable.'' acpi0 ok acpi out;
            (ok, pci, log, h) \<leftarrow> pci_enumerate (w_pnp w) h;
            (pci, out) \<leftarrow> or_zero (w_junk w 3) lg ''PCI enumeration unavailable.'' pci_enumeration0 ok pci out;
            (ok, mem, h) \<leftarrow> memory_info_collect (w_status w) (w_os w) h;
            (mem, out) \<leftarrow> or_zero (w_junk w 4) lg ''Memory info unavailable.'' memory0 ok mem out;
            (ok, storage) \<leftarrow> storage_collected w;
            (storage, out) \<leftarrow> or_zero (w_junk w 5) lg ''Storage enumeration unavailable.'' [] ok storage out;
            text \<leftarrow> report w cpu telemetry smbios acpi pci mem storage;
            Some (0, out @ text, h) } }"

section \<open>The composition\<close>

text \<open>What the environment promises, component by component.\<close>

definition world_ok :: "world \<Rightarrow> bool" where
  "world_ok w \<longleftrightarrow> clocks_ok (w_clocks w) \<and> (\<forall>i. drive_ok (w_drives w i)) \<and> (\<forall>i. length (w_junk w i) = 512) \<and>
     (case pnp_nodes (w_pnp w) of None \<Rightarrow> True | Some nodes \<Rightarrow> \<forall>n \<in> set nodes. node_ok n)"

definition warning :: "bool \<Rightarrow> string \<Rightarrow> string list" where
  "warning ok message = (if ok then [] else [message])"

definition logged :: "string list \<Rightarrow> string" where
  "logged ms = concat (map (log_line LOG_WARNING) ms)"

lemma or_zero_eq:
  assumes "length junk = 512" and "length message < 2 ^ 31"
  shows "or_zero junk console message zero ok x (logged ms) = Some (if ok then x else zero, logged (ms @ warning ok message))"
  using log_write_console [OF assms, of LOG_INFO logger0 LOG_WARNING "logged ms"]
  by (simp add: or_zero_def console_def warning_def logged_def less_LogLevel_def)

lemma pci_enumerate_result:
  assumes "case pnp_nodes e of None \<Rightarrow> True | Some nodes \<Rightarrow> \<forall>n \<in> set nodes. node_ok n"
  shows "\<exists>out log h'. pci_enumerate e h = Some (pnp_nodes e \<noteq> None, out, log, h') \<and> balanced h h' \<and> enumeration_ok out"
proof -
  have z: "enumeration_ok pci_enumeration0" by (simp add: enumeration_ok_def pci_enumeration0_def)
  show ?thesis
  proof (cases "pnp_nodes e")
    case None
    with z show ?thesis by (simp add: pci_enumerate_def)
  next
    case (Some nodes)
    with assms have "\<forall>n \<in> set nodes. node_ok n" by simp
    from enum_loop_ok [OF this z, of e h] Some show ?thesis by (auto simp: pci_enumerate_def)
  qed
qed

lemma storage_collected_result:
  assumes "\<forall>i. drive_ok (w_drives w i)"
  shows "\<exists>ds io. storage_enumerate (w_protocol_macro w) (w_drives w) = Some (ds, io) \<and>
    storage_collected w = Some (True, ds) \<and> (\<forall>d \<in> set ds. strings_ok d)"
  using storage_loop_ok [OF assms, of 0 "[]" "w_protocol_macro w"]
  by (auto simp: storage_collected_def storage_enumerate_def in_set_conv_nth)

lemma cpu_collected_result: "\<exists>cpu ops. run_state (cpu_id_collect (w_cpu w) (w_active w) (w_info w)) [] = (Some cpu, ops) \<and>
    cpu_collected w = Some (True, cpu) \<and> identity_ok cpu"
proof -
  obtain out log where "run_state (cpu_id_collect (w_cpu w) (w_active w) (w_info w)) [] = (Some out, log)"
    and "ci_vendor_string out = le_bytes 4 (r_ebx (cp_cpuid (w_cpu w) 0 0)) @ le_bytes 4 (r_edx (cp_cpuid (w_cpu w) 0 0)) @
       le_bytes 4 (r_ecx (cp_cpuid (w_cpu w) 0 0)) @ [0]" and "nul_terminated (ci_brand_string out)"
    using cpu_id_result [of "w_cpu w" "w_active w" "w_info w"] by blast
  then show ?thesis by (simp add: cpu_collected_def identity_ok_def nul_terminated_def)
qed

text \<open>The zeroed structures are well formed.\<close>

lemma zeros_ok: "smbios_ok smbios0" "enumeration_ok pci_enumeration0" "memory_ok memory0"
  by (simp_all add: smbios_ok_def smbios0_def ok_defs enumeration_ok_def pci_enumeration0_def memory_ok_def memory0_def)

lemma report_prints:
  assumes "\<forall>i. length (w_junk w i) = 512" and "identity_ok cpu" and "smbios_ok smbios" and "acpi_ok acpi"
    and "enumeration_ok pci" and "\<forall>d \<in> set storage. strings_ok d"
  shows "\<exists>cpu_text firmware_text acpi_text pci_text gpu_text storage_text.
    report_print_cpu_section (w_junk w 6) cpu = Some cpu_text \<and>
    report_print_firmware_section smbios = Some firmware_text \<and> report_print_acpi_section acpi = Some acpi_text \<and>
    report_print_pci_section pci = Some pci_text \<and> report_print_gpu_section pci = Some gpu_text \<and>
    report_print_storage_section (tm_round (w_clocks w)) storage = Some storage_text \<and>
    report w cpu telemetry smbios acpi pci mem storage = Some (report_print_header @ cpu_text @
      report_print_telemetry_section (tm_round (w_clocks w)) telemetry @
      report_print_memory_section (tm_round (w_clocks w)) mem @ firmware_text @ acpi_text @ pci_text @ gpu_text @ storage_text)"
proof -
  have "length (w_junk w 6) = 512" using assms(1) by simp
  then obtain a where "report_print_cpu_section (w_junk w 6) cpu = Some a"
    using cpu_section_prints [OF _ assms(2)] by blast
  moreover obtain b where "report_print_firmware_section smbios = Some b" using firmware_section_prints [OF assms(3)] by blast
  moreover obtain c where "report_print_acpi_section acpi = Some c" using acpi_section_prints [OF assms(4)] by blast
  moreover obtain d where "report_print_pci_section pci = Some d" using pci_section_prints [OF assms(5)] by blast
  moreover obtain e where "report_print_storage_section (tm_round (w_clocks w)) storage = Some e"
    using storage_section_prints [OF assms(6)] by blast
  moreover obtain g where "report_print_gpu_section pci = Some g" using gpu_section_text [OF assms(5)] by blast
  ultimately show ?thesis by (simp add: report_def Let_def)
qed

text \<open>What standard output must hold for a collector: nothing, or its warning.\<close>

definition warned :: "bool \<Rightarrow> string \<Rightarrow> string" where
  "warned ok message = (if ok then '''' else ''[WARNING] '' @ message @ nl)"

lemma logged_warned: "length message \<le> 500 \<Longrightarrow> logged (warning ok message) = warned ok message"
  by (simp add: logged_def warning_def warned_def log_line_def log_prefix_def Let_def)

lemma logged_append: "logged (a @ b) = logged a @ logged b"
  by (simp add: logged_def)

text \<open>
  C3. The whole program. On every processor, every answer of the operating system within its
  documented contracts, and every content of the uninitialised arrays, the program runs to its end
  without an access outside an object, frees every block it allocated, and returns 0: the branch
  for an unavailable CPUID is never taken. What it prints is fixed by what the collectors return,
  run one after the other on the heap the one before left: a warning line for SMBIOS, ACPI, PCI
  and memory, in this order, each present exactly when that collector failed, and then the nine
  sections of the report, in order, each of the data its collector gave, or of the cleared
  structure when it failed. The identification, the telemetry and the storage list are always
  reported. All that is reported satisfies the invariants of its component. (Device-information
  handles are accounted for with the PCI enumeration.)
\<close>

theorem main_program_safe:
  assumes "world_ok w"
  shows "\<exists>cpu ops tel ev s h1 aok acpi h2 pok pci handles h3 mok mem h' ds io
      cpu_text firmware_text acpi_text pci_text gpu_text storage_text.
    run_state (cpu_id_collect (w_cpu w) (w_active w) (w_info w)) [] = (Some cpu, ops) \<and>
    cpu_telemetry_sample (w_clocks w) 150 (cf_invariant_tsc (ci_features cpu)) = Some (tel, ev) \<and>
    smbios_collect (w_os w) h = Some (s, h1) \<and>
    acpi_collect (w_os w) h1 = Some (aok, acpi, h2) \<and>
    pci_enumerate (w_pnp w) h2 = Some (pok, pci, handles, h3) \<and> (pok \<longleftrightarrow> pnp_nodes (w_pnp w) \<noteq> None) \<and>
    memory_info_collect (w_status w) (w_os w) h3 = Some (mok, mem, h') \<and>
    storage_enumerate (w_protocol_macro w) (w_drives w) = Some (ds, io) \<and> balanced h h' \<and>
    (let smbios = (case s of None \<Rightarrow> smbios0 | Some d \<Rightarrow> d);
         acpi = (if aok then acpi else acpi0);
         pci = (if pok then pci else pci_enumeration0);
         mem = (if mok then mem else memory0);
         r = tm_round (w_clocks w) in
     smbios_ok smbios \<and> acpi_ok acpi \<and> enumeration_ok pci \<and> memory_ok mem \<and> (\<forall>d \<in> set ds. strings_ok d) \<and>
     report_print_cpu_section (w_junk w 6) cpu = Some cpu_text \<and>
     report_print_firmware_section smbios = Some firmware_text \<and> report_print_acpi_section acpi = Some acpi_text \<and>
     report_print_pci_section pci = Some pci_text \<and> report_print_gpu_section pci = Some gpu_text \<and>
     report_print_storage_section r ds = Some storage_text \<and>
     main_program w h = Some (0,
       warned (s \<noteq> None) ''SMBIOS table unavailable.'' @ warned aok ''ACPI tables unavailable.'' @
       warned pok ''PCI enumeration unavailable.'' @ warned mok ''Memory info unavailable.'' @
       report_print_header @ cpu_text @ report_print_telemetry_section r tel @ report_print_memory_section r mem @
       firmware_text @ acpi_text @ pci_text @ gpu_text @ storage_text, h'))"
proof -
  have junk: "\<And>i. length (w_junk w i) = 512" and clocks: "clocks_ok (w_clocks w)"
    and drives: "\<forall>i. drive_ok (w_drives w i)"
    and nodes: "case pnp_nodes (w_pnp w) of None \<Rightarrow> True | Some nodes \<Rightarrow> \<forall>n \<in> set nodes. node_ok n"
    using assms by (simp_all add: world_ok_def)
  obtain cpu ops where id: "run_state (cpu_id_collect (w_cpu w) (w_active w) (w_info w)) [] = (Some cpu, ops)"
    and cpu: "cpu_collected w = Some (True, cpu)" "identity_ok cpu" using cpu_collected_result by blast
  obtain tel ev where tel: "cpu_telemetry_sample (w_clocks w) 150 (cf_invariant_tsc (ci_features cpu)) = Some (tel, ev)"
    using cpu_telemetry_result [OF clocks] by blast
  obtain s h1 where smb: "smbios_collect (w_os w) h = Some (s, h1)" "balanced h h1"
    "case s of None \<Rightarrow> True | Some d \<Rightarrow> smbios_ok d" using smbios_collect_safe by blast
  obtain aok acpi h2 where ac: "acpi_collect (w_os w) h1 = Some (aok, acpi, h2)" "acpi_ok acpi" "balanced h1 h2"
    using acpi_collect_result by blast
  obtain pci handles h3 where pc: "pci_enumerate (w_pnp w) h2 = Some (pnp_nodes (w_pnp w) \<noteq> None, pci, handles, h3)"
    "balanced h2 h3" "enumeration_ok pci" using pci_enumerate_result [OF nodes] by blast
  obtain mok mem h4 where me: "memory_info_collect (w_status w) (w_os w) h3 = Some (mok, mem, h4)" "balanced h3 h4"
    "memory_ok mem" using memory_info_collect_result by blast
  obtain ds io where sto: "storage_enumerate (w_protocol_macro w) (w_drives w) = Some (ds, io)"
    and st: "storage_collected w = Some (True, ds)" "\<forall>d \<in> set ds. strings_ok d"
    using storage_collected_result [OF drives] by blast
  define smb' where "smb' = (case s of None \<Rightarrow> smbios0 | Some d \<Rightarrow> d)"
  define acpi' where "acpi' = (if aok then acpi else acpi0)"
  define pci' where "pci' = (if pnp_nodes (w_pnp w) \<noteq> None then pci else pci_enumeration0)"
  define mem' where "mem' = (if mok then mem else memory0)"
  note z = smb'_def acpi'_def pci'_def mem'_def
  have smb'_if: "smb' = (if s \<noteq> None then the s else smbios0)" by (simp add: smb'_def split: option.split)
  let ?w1 = "warning (s \<noteq> None) ''SMBIOS table unavailable.''" and ?w2 = "warning aok ''ACPI tables unavailable.''"
    and ?w3 = "warning (pnp_nodes (w_pnp w) \<noteq> None) ''PCI enumeration unavailable.''"
    and ?w4 = "warning mok ''Memory info unavailable.''"
  have ok: "smbios_ok smb'" "acpi_ok acpi'" "enumeration_ok pci'" "memory_ok mem'"
    using smb(3) ac(2) pc(3) me(3) zeros_ok acpi0_ok by (auto simp: z split: option.splits)
  obtain a b c d g e where t: "report_print_cpu_section (w_junk w 6) cpu = Some a"
      "report_print_firmware_section smb' = Some b" "report_print_acpi_section acpi' = Some c"
      "report_print_pci_section pci' = Some d" "report_print_gpu_section pci' = Some g"
      "report_print_storage_section (tm_round (w_clocks w)) ds = Some e"
    and rep: "report w cpu tel smb' acpi' pci' mem' ds = Some (report_print_header @ a @
      report_print_telemetry_section (tm_round (w_clocks w)) tel @
      report_print_memory_section (tm_round (w_clocks w)) mem' @ b @ c @ d @ g @ e)"
    using report_prints [OF _ cpu(2) ok(1-3) st(2)] junk by blast
  have o1: "or_zero (w_junk w 1) console ''SMBIOS table unavailable.'' smbios0 (s \<noteq> None) (the s) '''' = Some (smb', logged ?w1)"
    using or_zero_eq [OF junk, of "''SMBIOS table unavailable.''" 1 smbios0 "s \<noteq> None" "the s" "[]"] unfolding smb'_if by (simp add: logged_def)
  have o2: "or_zero (w_junk w 2) console ''ACPI tables unavailable.'' acpi0 aok acpi (logged ?w1) = Some (acpi', logged (?w1 @ ?w2))"
    unfolding z by (rule or_zero_eq [OF junk]) simp
  have o3: "or_zero (w_junk w 3) console ''PCI enumeration unavailable.'' pci_enumeration0 (pnp_nodes (w_pnp w) \<noteq> None) pci
      (logged (?w1 @ ?w2)) = Some (pci', logged ((?w1 @ ?w2) @ ?w3))"
    unfolding z by (rule or_zero_eq [OF junk]) simp
  have o4: "or_zero (w_junk w 4) console ''Memory info unavailable.'' memory0 mok mem (logged ((?w1 @ ?w2) @ ?w3)) =
      Some (mem', logged (((?w1 @ ?w2) @ ?w3) @ ?w4))"
    unfolding z by (rule or_zero_eq [OF junk]) simp
  have o5: "or_zero (w_junk w 5) console ''Storage enumeration unavailable.'' [] True ds x = Some (ds, x)" for x
    by (simp add: or_zero_def)
  have lw: "logged (((?w1 @ ?w2) @ ?w3) @ ?w4) = warned (s \<noteq> None) ''SMBIOS table unavailable.'' @
      warned aok ''ACPI tables unavailable.'' @ warned (pnp_nodes (w_pnp w) \<noteq> None) ''PCI enumeration unavailable.'' @
      warned mok ''Memory info unavailable.''"
    by (simp only: logged_append append_assoc) (simp add: logged_warned)
  have "main_program w h = Some (0, logged (((?w1 @ ?w2) @ ?w3) @ ?w4) @ (report_print_header @ a @
      report_print_telemetry_section (tm_round (w_clocks w)) tel @
      report_print_memory_section (tm_round (w_clocks w)) mem' @ b @ c @ d @ g @ e), h4)"
    unfolding main_program_def Let_def
    by (simp only: cpu tel smb ac pc me st bind.bind_lunit case_prod_conv if_False not_True_eq_False o1 o2 o3 o4 o5 rep)
  note m = this [unfolded lw, unfolded append_assoc]
  have b: "balanced h h4" using smb(2) ac(3) pc(2) me(2) balanced_trans by blast
  show ?thesis
    unfolding Let_def
    by (intro exI conjI) (rule id tel smb(1) ac(1) pc(1) refl me(1) sto b ok [unfolded z] st(2) t [unfolded z] m [unfolded z])+
qed

definition sample_world :: world where
  "sample_world = \<lparr>w_cpu = \<lparr>cp_cpuid = (\<lambda>_ _. \<lparr>r_eax = 1, r_ebx = 0x756E6547, r_ecx = 0x6C65746E, r_edx = 0x49656E69\<rparr>), cp_xcr = (\<lambda>_. 0)\<rparr>,
     w_active = 8, w_info = 8, w_clocks = lab_clocks,
     w_os = \<lparr>fw_size = (\<lambda>_ _. 0), fw_fill = (\<lambda>_ _ _. (0, [])), en_size = (\<lambda>_. 0), en_fill = (\<lambda>_ _. (0, [])), alloc_ok = (\<lambda>_. True)\<rparr>,
     w_pnp = (sample_pnp [])\<lparr>pnp_nodes := None\<rparr>, w_status = None,
     w_drives = (\<lambda>_. \<lparr>dv_opens = False, dv_descriptor = None, dv_identify = None, dv_length = None, dv_read_handle = None\<rparr>),
     w_protocol_macro = False, w_junk = (\<lambda>_. replicate 512 CHR ''?'')\<rparr>"

theorem main_program_safe_witness:
  "\<exists>text h'. main_program sample_world \<lparr>hp_next = 0, hp_live = []\<rparr> = Some (0,
     ''[WARNING] SMBIOS table unavailable.'' @ nl @ text, h') \<and> hp_live h' = []"
proof -
  let ?h = "\<lparr>hp_next = 0, hp_live = []\<rparr>"
  have w: "world_ok sample_world"
    by (simp add: world_ok_def sample_world_def lab_clocks_ok drive_ok_def sample_pnp_def)
  have none: "smbios_collect (w_os sample_world) ?h = Some (None, ?h)"
    by (simp add: sample_world_def smbios_collect_def platform_get_smbios_table_def)
  obtain s h1 rest h' where "smbios_collect (w_os sample_world) ?h = Some (s, h1)" and b: "balanced ?h h'"
    and m: "main_program sample_world ?h = Some (0, warned (s \<noteq> None) ''SMBIOS table unavailable.'' @ rest, h')"
    using main_program_safe [OF w, of ?h] unfolding Let_def by (elim exE conjE) (rule that)
  with none have s: "s = None" by simp
  have "hp_live h' = []" using b by (simp add: balanced_def)
  with m show ?thesis by (simp add: s warned_def)
qed

end
