(* ===== verification/Spec2Isabelle.thy ===== *)
theory Spec2Isabelle
  imports Smbios_Collect Memory_Info Acpi_Correct Driver_Correct Cpu_Id_Correct Pci_Correct Storage_Correct Uefi_Correct Vmcs_Setup_Correct Asm_Correct Main_Program
begin

text \<open>
  Verification library of HardwareMonitorAZK.

  The program and its parts

  The repository is a low-level hardware monitor for x86-64 in four executables that share
  definitions but no code at run time. (1) A Windows console program (\<open>src/src/main.c\<close>) collects the
  processor's identity, a telemetry sample, the SMBIOS and ACPI tables the firmware left, the PCI
  devices, the memory and the drives, and prints a report. (2) A kernel driver
  (\<open>src/driver/hwmon_driver.c\<close>) answers read-only requests for model-specific registers and PCI
  configuration space. (3) A hypervisor skeleton (\<open>src/driver/hv\<close>) enters VMX operation, fills the
  VMCS and launches the running system as a guest. (4) A UEFI application
  (\<open>src/uefi/HwMonPkg/Application/HwMonUefi\<close>) prints a similar inventory before boot.

  Which theory models which part

  HW_Prelude: bytes, little-endian loads, arrays, the heap and the bounded tables all share.
  C_Strings, Printf: the string, \<open>strtoul\<close>, \<open>printf\<close> and \<open>snprintf\<close> functions of the C library.
  Smbios_Walk, Smbios, Smbios_Correct, Smbios_Collect: \<open>src/src/firmware/smbios.c\<close>.
  Firmware_Table: \<open>src/src/platform/windows/firmware_table.c\<close>, and the locale that states what a client of
  a fetched table relies on and gets; it is interpreted for the SMBIOS and the ACPI fetch.
  Memory_Info: \<open>src/src/memory/memory_info.c\<close>.
  Acpi, Acpi_Correct: \<open>src/src/firmware/acpi.c\<close>.
  Cpu_Id, Cpu_Id_Correct: \<open>src/src/cpu/cpu_id.c\<close>, in a state monad that logs the instructions executed.
  Telemetry: \<open>src/src/cpu/cpu_telemetry.c\<close>.
  Pci, Pci_Correct: \<open>src/src/platform/windows/pci_enum_windows.c\<close>.
  Storage, Storage_Correct: \<open>src/src/platform/windows/storage_enum_windows.c\<close>.
  Log: \<open>src/src/output/logger.c\<close> and \<open>console_logger.c\<close>.
  Report, Feature_Line, Report_Correct: \<open>src/src/output/report.c\<close>.
  Main_Program: \<open>src/src/main.c\<close>, the composition of all of the console program.
  Driver, Driver_Correct: \<open>src/driver/hwmon_driver.c\<close> and \<open>hwmon_ioctl.h\<close>; the configuration ports
  shared by processors are an inductive step relation.
  Vmcs, Hypervisor, Hypervisor_Correct, Vmcs_Setup_Correct: \<open>src/driver/hv/hwmon_hv.c\<close> and its driver;
  \<open>SetupVmcsFields\<close> is a list of statements run one by one, so that the point where the context is
  captured is part of the model.
  Asm, Asm_Correct: \<open>src/asm/primitives.asm\<close> and \<open>src/driver/hv/hwmon_hv_asm.asm\<close>, run by an interpreter of the
  instructions they use.
  Uefi, Uefi_Correct: \<open>HwMonUefi.c\<close>.

  How state and operations correspond to the code

  A struct is a record whose fields keep the code's names behind a short prefix, an enumeration is a
  datatype, an integer is a word of its width, a fixed array with a count is a list bounded by the
  capacity, a character array is a list of bytes of its declared length. A function of the code is one definition of
  the same name; a loop that is not structural is a function of its own with its measure. Every
  access outside an object, use after free and undefined conversion is the value \<open>None\<close> of the option
  monad, so a theorem that a routine returns \<open>Some\<close> says that it stays in its objects and ends. Local
  arrays the code leaves uninitialised are arguments. Pointers into a buffer are offsets, NULL
  is the datatype \<open>cptr\<close>. The heap counts allocations; \<open>balanced\<close> says that neither a block is leaked
  nor one freed twice.

  What the lemmas show

  Safety and termination: the SMBIOS and ACPI parsers, the memory report, PCI and storage
  enumeration, the driver's request handler, the UEFI listing and the whole console program
  return on every input, stay in their objects and leave the heap as they found it. Function: the
  parsers recover exactly what an encoder wrote, and on arbitrary bytes act as the
  fault-free walk or the covered bytes say; the feature flags, class codes, sizes, regions, addresses
  and descriptors are the documented functions of the registers and bytes. Policy: CPUID and XGETBV only
  where the processor announced them, only whitelisted registers and read-only
  configuration requests, only query requests to drives, on handles that cannot write, VMX instructions only in the states that
  accept them. Concurrency: configuration reads of any number of processors are serialized. The
  hypervisor writes each VMCS field it has a name for once, except the read-only ones and the MSR
  bitmap, with permitted control values (a refinement of the least permitted value), starts its guest in
  the middle of the routine that did so, where it traps, and resumes a guest past each CPUID; its assembly trampoline implements that step,
  and the primitives implement the processor the C code is modelled over. The report names exactly what was
  collected, reads back, and the telemetry is within the rounding of \<open>double\<close> of the exact quotients.

  Bounds and fuel

  No definition uses fuel. The loops end by a measure on the remaining bytes, entries or
  subleaves. Capacities are those of the headers: 64 memory devices, 32 regions, 64 tables, 512 processors, 16 MCFG
  entries, 512 PCI devices of 12 resources, 32 drives, 17 topology subleaves.

  What is assumed

  Outside code is a parameter of the definitions: the answers of the Windows API calls, of the
  UEFI services, of the processor (CPUID, MSRs, VMX instructions) and the rounding of \<open>double\<close>. What a
  property needs of them is a named predicate, each with a witness: a NUL in a registry string (\<open>node_ok\<close>), the
  lengths a request returns (\<open>drive_ok\<close>), the calling convention of a compiled routine (\<open>calls_handler\<close>), a performance counter that is not negative and a rate below
  \<open>2\<^sup>6\<^sup>3\<close> Hz (\<open>clocks_ok\<close>), and their conjunction for the whole program (\<open>world_ok\<close>).

  Not modelled

  The console test of the primitives (\<open>src/tests\<close>), which has no logic of the program, and the build files; the text layout
  of the UEFI application's \<open>Print\<close> and the driver's \<open>DbgPrint\<close>, whose arguments are the results of the
  modelled routines; a VMWRITE the processor rejects, whose status the code ignores; failures of standard output, which the code ignores; NULL out-pointers, which no
  caller passes; the interrupt descriptor contents behind HOST_RIP. The DriverEntry wiring of the
  hypervisor is modelled up to its result.
\<close>

end
